(* ===== verification/Go_Prelude.thy ===== *)
theory Go_Prelude
  imports Main "HOL-Library.AList" "HOL-Library.Multiset" "HOL-Library.List_Lexorder" "HOL-Library.Char_ord"
begin

section \<open>Prelude: the Go values the components share\<close>

text \<open>
  What the component theories have in common: Go's signed machine integers, Go's maps,
  \<open>time.Time\<close> and \<open>time.Duration\<close>, and two interfaces stated as locales.

  \<^item> An \<open>int64\<close> (\<open>int32\<close>) is an \<open>int\<close> whose wrap-around is written out by \<open>wrap64\<close>
    (\<open>wrap32\<close>) at every operation of the source that can overflow.
  \<^item> A Go \<open>string\<close> or \<open>[]byte\<close> is a \<open>string\<close> (a list of bytes); a nil slice is \<open>[]\<close>.
  \<^item> A Go map or \<open>sync.Map\<close> is an association list with distinct keys (\<open>gm_ok\<close>). Go leaves
    the iteration order of a map open; here a range loop follows the list, and every theorem
    is stated for an arbitrary list, hence for an arbitrary iteration order.
  \<^item> A \<open>time.Time\<close> is the number of nanoseconds since the Unix epoch. The clock is an
    argument (\<open>now\<close>) of every operation that reads it.
\<close>

named_theorems go_int \<open>machine integers\<close>
named_theorems go_map \<open>Go maps as association lists\<close>

subsection \<open>Signed machine integers\<close>

definition wrap64 :: "int \<Rightarrow> int" where
  "wrap64 x = (x + 2 ^ 63) mod 2 ^ 64 - 2 ^ 63"

definition wrap32 :: "int \<Rightarrow> int" where
  "wrap32 x = (x + 2 ^ 31) mod 2 ^ 32 - 2 ^ 31"

definition MaxInt64 :: int where "MaxInt64 = 2 ^ 63 - 1"
definition MinInt64 :: int where "MinInt64 = - (2 ^ 63)"
definition MaxInt32 :: int where "MaxInt32 = 2 ^ 31 - 1"
definition MinInt32 :: int where "MinInt32 = - (2 ^ 31)"

lemma wrap64_id [go_int]: "MinInt64 \<le> x \<Longrightarrow> x \<le> MaxInt64 \<Longrightarrow> wrap64 x = x"
  by (simp add: wrap64_def MinInt64_def MaxInt64_def)

lemma wrap64_range: "MinInt64 \<le> wrap64 x \<and> wrap64 x \<le> MaxInt64"
  by (simp add: wrap64_def MinInt64_def MaxInt64_def)

lemma wrap64_overflow [go_int]: "wrap64 (MaxInt64 + 1) = MinInt64"
  by (simp add: wrap64_def MinInt64_def MaxInt64_def)

lemma wrap32_id [go_int]: "MinInt32 \<le> x \<Longrightarrow> x \<le> MaxInt32 \<Longrightarrow> wrap32 x = x"
  by (simp add: wrap32_def MinInt32_def MaxInt32_def)

text \<open>\<open>SafeIntToInt32\<close> of \<open>internal/pkg/convert/int.go\<close>: clamp an int to the int32 range.\<close>

definition SafeIntToInt32 :: "int \<Rightarrow> int" where
  "SafeIntToInt32 v =
     (if v > MaxInt32 then MaxInt32
      else if v < MinInt32 then MinInt32
      else wrap32 v)"

lemma SafeIntToInt32_clamp: "SafeIntToInt32 v = max MinInt32 (min MaxInt32 v)"
  by (simp add: SafeIntToInt32_def wrap32_id MaxInt32_def MinInt32_def)

subsection \<open>Time\<close>

type_synonym gotime = int
type_synonym duration = int

text \<open>
  The zero \<open>time.Time\<close> is 1 January of year 1, 62135596800 seconds before the epoch.
  \<open>time.Time.Sub\<close> saturates at the bounds of \<open>time.Duration\<close>; \<open>UnixNano\<close> wraps.
\<close>

definition time_zero :: gotime where
  "time_zero = - 62135596800000000000"

definition time_sub :: "gotime \<Rightarrow> gotime \<Rightarrow> duration" where
  "time_sub t u = max MinInt64 (min MaxInt64 (t - u))"

definition unix_nano :: "gotime \<Rightarrow> int" where
  "unix_nano t = wrap64 t"

definition sec :: "int \<Rightarrow> duration" where
  "sec n = n * 1000000000"

lemma time_sub_less: "d \<le> MaxInt64 \<Longrightarrow> MinInt64 < d \<Longrightarrow> time_sub t u < d \<longleftrightarrow> t - u < d"
  by (auto simp: time_sub_def)

lemma time_sub_gt: "d < MaxInt64 \<Longrightarrow> MinInt64 \<le> d \<Longrightarrow> time_sub t u > d \<longleftrightarrow> t - u > d"
  by (auto simp: time_sub_def)

subsection \<open>Maps\<close>

type_synonym ('k, 'v) gomap = "('k \<times> 'v) list"

abbreviation gm_keys :: "('k, 'v) gomap \<Rightarrow> 'k list" where
  "gm_keys m \<equiv> map fst m"

abbreviation gm_put :: "'k \<Rightarrow> 'v \<Rightarrow> ('k, 'v) gomap \<Rightarrow> ('k, 'v) gomap" where
  "gm_put \<equiv> AList.update"

abbreviation gm_del :: "'k \<Rightarrow> ('k, 'v) gomap \<Rightarrow> ('k, 'v) gomap" where
  "gm_del \<equiv> AList.delete"

definition gm_ok :: "('k, 'v) gomap \<Rightarrow> bool" where
  "gm_ok m \<longleftrightarrow> distinct (map fst m)"

text \<open>\<open>m[k]\<close> with the zero value of the element type for a missing key.\<close>

definition gm_get :: "'v \<Rightarrow> ('k, 'v) gomap \<Rightarrow> 'k \<Rightarrow> 'v" where
  "gm_get zero m k = (case map_of m k of None \<Rightarrow> zero | Some v \<Rightarrow> v)"

text \<open>\<open>for k, v := range src { dst[k] = v }\<close>\<close>

definition gm_copy :: "('k, 'v) gomap \<Rightarrow> ('k, 'v) gomap \<Rightarrow> ('k, 'v) gomap" where
  "gm_copy dst src = fold (\<lambda>(k, v) m. gm_put k v m) src dst"

text \<open>The interface of a map: what the components rely on.\<close>

locale finite_map =
  fixes emp :: "'m"
    and lookup :: "'m \<Rightarrow> 'k \<Rightarrow> 'v option"
    and put :: "'k \<Rightarrow> 'v \<Rightarrow> 'm \<Rightarrow> 'm"
    and del :: "'k \<Rightarrow> 'm \<Rightarrow> 'm"
    and entries :: "'m \<Rightarrow> ('k \<times> 'v) list"
    and ok :: "'m \<Rightarrow> bool"
  assumes lookup_emp: "lookup emp = Map.empty"
    and lookup_put: "lookup (put k v m) = (lookup m)(k \<mapsto> v)"
    and lookup_del: "lookup (del k m) = (lookup m)(k := None)"
    and ok_emp: "ok emp"
    and ok_put: "ok m \<Longrightarrow> ok (put k v m)"
    and ok_del: "ok m \<Longrightarrow> ok (del k m)"
    and entries_lookup: "ok m \<Longrightarrow> map_of (entries m) = lookup m"
    and entries_distinct: "ok m \<Longrightarrow> distinct (map fst (entries m))"
begin

lemma lookup_fold_put:
  "distinct (map fst kvs) \<Longrightarrow>
   lookup (fold (\<lambda>(k, v) m. put k v m) kvs m) = lookup m ++ map_of kvs"
proof (induction kvs arbitrary: m)
  case Nil
  then show ?case by simp
next
  case (Cons kv kvs)
  obtain k v where kv: "kv = (k, v)" by (cases kv)
  with Cons.prems have fresh: "map_of kvs k = None" and d: "distinct (map fst kvs)"
    by (auto simp: map_of_eq_None_iff)
  show ?case
    using Cons.IH [OF d, of "put k v m"] fresh
    by (auto simp: kv lookup_put fun_eq_iff map_add_def split: option.splits)
qed

lemma ok_fold_put: "ok m \<Longrightarrow> ok (fold (\<lambda>(k, v) m. put k v m) kvs m)"
  by (induction kvs arbitrary: m) (auto simp: ok_put)

lemma lookup_copy:
  "ok src \<Longrightarrow> lookup (fold (\<lambda>(k, v) m. put k v m) (entries src) m) = lookup m ++ lookup src"
  by (simp add: lookup_fold_put entries_distinct entries_lookup)

lemma lookup_clone:
  "ok src \<Longrightarrow> lookup (fold (\<lambda>(k, v) m. put k v m) (entries src) emp) = lookup src"
  by (simp add: lookup_copy lookup_emp)

end

lemma gm_ok_put [go_map, simp, intro]: "gm_ok m \<Longrightarrow> gm_ok (gm_put k v m)"
  by (simp add: gm_ok_def distinct_update)

lemma gm_ok_del [go_map, simp, intro]: "gm_ok m \<Longrightarrow> gm_ok (gm_del k m)"
  by (simp add: gm_ok_def distinct_delete)

lemma gm_ok_Nil [go_map, simp]: "gm_ok []"
  by (simp add: gm_ok_def)

interpretation gm: finite_map "[]" map_of gm_put gm_del id gm_ok
  by unfold_locales (auto simp: update_conv' delete_conv' gm_ok_def distinct_update distinct_delete)

lemma map_of_gm_copy [go_map]: "gm_ok src \<Longrightarrow> map_of (gm_copy dst src) = map_of dst ++ map_of src"
  using gm.lookup_copy [of src dst] by (simp add: gm_copy_def)

lemma gm_ok_copy [go_map, simp, intro]: "gm_ok dst \<Longrightarrow> gm_ok (gm_copy dst src)"
  unfolding gm_copy_def by (rule gm.ok_fold_put)

lemma gm_get_put [go_map]: "gm_get z (gm_put k v m) k' = (if k' = k then v else gm_get z m k')"
  by (simp add: gm_get_def update_conv')

lemma gm_get_del [go_map]: "gm_get z (gm_del k m) k' = (if k' = k then z else gm_get z m k')"
  by (simp add: gm_get_def delete_conv')

lemma gm_get_notin [go_map]: "k \<notin> fst ` set m \<Longrightarrow> gm_get z m k = z"
  by (simp add: gm_get_def flip: map_of_eq_None_iff)

lemma gm_get_cong: "map_of m = map_of m' \<Longrightarrow> gm_get z m = gm_get z m'"
  by (simp add: gm_get_def fun_eq_iff)

lemma gm_mem_iff: "gm_ok m \<Longrightarrow> (k, v) \<in> set m \<longleftrightarrow> map_of m k = Some v"
  by (auto simp: gm_ok_def)

lemma gm_keys_put [go_map, simp]: "fst ` set (gm_put k v m) = insert k (fst ` set m)"
  by (simp add: dom_update)

lemma gm_keys_del [go_map, simp]: "fst ` set (gm_del k m) = fst ` set m - {k}"
  using arg_cong [OF delete_keys [of k m], of set] by simp

lemma gm_length_card: "gm_ok m \<Longrightarrow> length m = card (dom (map_of m))"
  using distinct_card [of "gm_keys m"] by (simp add: gm_ok_def dom_map_of_conv_image_fst)

lemma gm_le_iff: "gm_ok a \<Longrightarrow> map_of a \<subseteq>\<^sub>m f \<longleftrightarrow> (\<forall>(k, v) \<in> set a. f k = Some v)"
  by (auto simp: map_le_def gm_mem_iff dom_def dest!: map_of_SomeD)

lemma gm_eq_iff:
  assumes "gm_ok a" and "gm_ok b"
  shows "map_of a = map_of b \<longleftrightarrow> length a = length b \<and> (\<forall>(k, v) \<in> set a. map_of b k = Some v)"
proof
  assume "map_of a = map_of b"
  then show "length a = length b \<and> (\<forall>(k, v) \<in> set a. map_of b k = Some v)"
    using assms by (auto simp: gm_length_card gm_mem_iff)
next
  assume *: "length a = length b \<and> (\<forall>(k, v) \<in> set a. map_of b k = Some v)"
  then have le: "map_of a \<subseteq>\<^sub>m map_of b"
    using assms by (simp add: gm_le_iff)
  then have "dom (map_of a) \<subseteq> dom (map_of b)"
    by (rule map_le_implies_dom_le)
  moreover have "card (dom (map_of a)) = card (dom (map_of b))"
    using * assms by (simp add: gm_length_card)
  ultimately have "dom (map_of a) = dom (map_of b)"
    by (simp add: card_subset_eq finite_dom_map_of)
  then have "map_of b \<subseteq>\<^sub>m map_of a"
    using le by (auto simp: map_le_def)
  with le show "map_of a = map_of b" by (rule map_le_antisym)
qed

text \<open>A predicate that holds of every entry.\<close>

definition gm_all :: "('k \<Rightarrow> 'v \<Rightarrow> bool) \<Rightarrow> ('k, 'v) gomap \<Rightarrow> bool" where
  "gm_all P m \<longleftrightarrow> list_all (\<lambda>(k, v). P k v) m"

lemma gm_all_Nil [simp]: "gm_all P []"
  by (simp add: gm_all_def)

lemma gm_all_put [simp, intro]: "gm_all P m \<Longrightarrow> P k v \<Longrightarrow> gm_all P (gm_put k v m)"
  by (induction m) (auto simp: gm_all_def)

lemma gm_all_del [simp, intro]: "gm_all P m \<Longrightarrow> gm_all P (gm_del k m)"
  by (induction m) (auto simp: gm_all_def)

lemma gm_all_lookup: "gm_all P m \<Longrightarrow> map_of m k = Some v \<Longrightarrow> P k v"
  by (auto simp: gm_all_def list_all_iff dest!: map_of_SomeD)

lemma gm_all_iff: "gm_ok m \<Longrightarrow> gm_all P m \<longleftrightarrow> (\<forall>k v. map_of m k = Some v \<longrightarrow> P k v)"
  by (auto simp: gm_all_def list_all_iff gm_mem_iff)

lemma gm_all_mono: "gm_all P m \<Longrightarrow> (\<And>k v. P k v \<Longrightarrow> Q k v) \<Longrightarrow> gm_all Q m"
  by (auto simp: gm_all_def list_all_iff)

text \<open>Where an entry stands in the list, for loops that update or delete what they range over.\<close>

lemma gm_length_put: "gm_ok m \<Longrightarrow> length (gm_put k v m) = (if map_of m k = None then length m + 1 else length m)"
  by (induction m) (auto simp: gm_ok_def split: if_splits)

lemma gm_del_mid: "k \<notin> fst ` set xs \<Longrightarrow> k \<notin> fst ` set ys \<Longrightarrow> gm_del k (xs @ (k, v) # ys) = xs @ ys"
  by (induction xs) (auto simp: AList.delete_idem)

lemma gm_put_mid: "k \<notin> fst ` set xs \<Longrightarrow> gm_put k w (xs @ (k, v) # ys) = xs @ (k, w) # ys"
  by (induction xs) auto

lemma gm_filter_put:
  "\<forall>w. (k, w) \<in> set m \<longrightarrow> \<not> P (k, w) \<Longrightarrow> \<not> P (k, v) \<Longrightarrow> filter P (gm_put k v m) = filter P m"
  by (induction m) auto

lemma gm_filter_del: "\<forall>w. (k, w) \<in> set m \<longrightarrow> \<not> P (k, w) \<Longrightarrow> filter P (gm_del k m) = filter P m"
  by (induction m) auto

text \<open>Range loops that collect keys or count.\<close>

lemma fold_collect_names:
  "fold (\<lambda>(peer, t) names. if P t then names @ [peer] else names) xs acc =
   acc @ map fst (filter (\<lambda>(_, t). P t) xs)"
  by (induction xs arbitrary: acc) auto

lemma fold_collect_keys:
  "fold (\<lambda>(k, _) un. if Q k then un @ [k] else un) xs acc = acc @ filter Q (map fst xs)"
  by (induction xs arbitrary: acc) auto

lemma fold_count:
  "fold (\<lambda>(_, t) n. if P t then n + 1 else n) xs (n :: int) = n + int (length (filter (\<lambda>(_, t). P t) xs))"
  by (induction xs arbitrary: n) auto

subsection \<open>Runs of a component\<close>

text \<open>
  A component is driven by events. \<open>good s e\<close> says that the event \<open>e\<close> can be delivered in the
  state \<open>s\<close>, and \<open>good_run\<close> that this holds along a run. \<open>invariant_system\<close> is the interface of
  a component whose every step keeps an invariant; \<open>monotone_system\<close> adds an observation that
  no step lowers in a preorder. The lemmas lift both from one step to every run.
\<close>

primrec run :: "('s \<Rightarrow> 'e \<Rightarrow> 's) \<Rightarrow> 's \<Rightarrow> 'e list \<Rightarrow> 's" where
  "run step s [] = s"
| "run step s (e # es) = run step (step s e) es"

primrec good_run :: "('s \<Rightarrow> 'e \<Rightarrow> 's) \<Rightarrow> ('s \<Rightarrow> 'e \<Rightarrow> bool) \<Rightarrow> 's \<Rightarrow> 'e list \<Rightarrow> bool" where
  "good_run step good s [] \<longleftrightarrow> True"
| "good_run step good s (e # es) \<longleftrightarrow> good s e \<and> good_run step good (step s e) es"

lemma run_append: "run step s (es @ fs) = run step (run step s es) fs"
  by (induction es arbitrary: s) auto

lemma good_run_True: "good_run step (\<lambda>_ _. True) s es"
  by (induction es arbitrary: s) auto

locale invariant_system =
  fixes step :: "'s \<Rightarrow> 'e \<Rightarrow> 's"
    and good :: "'s \<Rightarrow> 'e \<Rightarrow> bool"
    and inv :: "'s \<Rightarrow> bool"
  assumes step_inv: "inv s \<Longrightarrow> good s e \<Longrightarrow> inv (step s e)"
begin

lemma run_inv: "inv s \<Longrightarrow> good_run step good s es \<Longrightarrow> inv (run step s es)"
  by (induction es arbitrary: s) (auto intro: step_inv)

end

locale monotone_system = invariant_system +
  fixes obs :: "'s \<Rightarrow> 'o"
    and le :: "'o \<Rightarrow> 'o \<Rightarrow> bool"
  assumes le_refl: "le x x"
    and le_trans: "le x y \<Longrightarrow> le y z \<Longrightarrow> le x z"
    and step_le: "inv s \<Longrightarrow> good s e \<Longrightarrow> le (obs s) (obs (step s e))"
begin

lemma run_le: "inv s \<Longrightarrow> good_run step good s es \<Longrightarrow> le (obs s) (obs (run step s es))"
proof (induction es arbitrary: s)
  case Nil
  then show ?case by (simp add: le_refl)
next
  case (Cons e es)
  then have "good s e" and rest: "good_run step good (step s e) es" by auto
  then have "le (obs s) (obs (step s e))" using Cons.prems(1) by (intro step_le)
  moreover have "le (obs (step s e)) (obs (run step (step s e) es))"
    using Cons.prems(1) \<open>good s e\<close> rest by (intro Cons.IH step_inv)
  ultimately show ?case by (auto intro: le_trans)
qed

end

end
