(* ===== verification/Vector_Clock.thy ===== *)
theory Vector_Clock
  imports Go_Prelude
begin

section \<open>Vector clocks (\<open>internal/controller/federation/vectorclock.go\<close>)\<close>

text \<open>
  The vector clock of the federation: a map from member names to \<open>int64\<close> counters, where a
  missing member counts 0. \<open>vc_val\<close> is the abstraction to a total function, on which
  \<open>Compare\<close> is the pointwise order and \<open>Merge\<close> the pointwise maximum; the interface
  \<open>causal_clock\<close> states this contract and derives the order laws its clients use.
  The mutex of the struct and the JSON rendering \<open>String\<close> are not modelled.
\<close>

record VectorClock =
  vc_clocks :: "(string, int) gomap"

definition NewVectorClock :: VectorClock where
  "NewVectorClock = \<lparr>vc_clocks = []\<rparr>"

definition NewVectorClockFromMap :: "(string, int) gomap \<Rightarrow> VectorClock" where
  "NewVectorClockFromMap m = \<lparr>vc_clocks = gm_copy [] m\<rparr>"

definition vc_Increment :: "string \<Rightarrow> VectorClock \<Rightarrow> VectorClock \<times> int" where
  "vc_Increment member vc =
     (let cs = gm_put member (wrap64 (gm_get 0 (vc_clocks vc) member + 1)) (vc_clocks vc)
      in (vc\<lparr>vc_clocks := cs\<rparr>, gm_get 0 cs member))"

definition vc_Get :: "VectorClock \<Rightarrow> string \<Rightarrow> int" where
  "vc_Get vc member = gm_get 0 (vc_clocks vc) member"

definition vc_Set :: "string \<Rightarrow> int \<Rightarrow> VectorClock \<Rightarrow> VectorClock" where
  "vc_Set member v vc = vc\<lparr>vc_clocks := gm_put member v (vc_clocks vc)\<rparr>"

text \<open>The body of the two merge loops: keep the larger value.\<close>

definition merge_entry :: "string \<times> int \<Rightarrow> (string, int) gomap \<Rightarrow> (string, int) gomap" where
  "merge_entry kv cs = (if snd kv > gm_get 0 cs (fst kv) then gm_put (fst kv) (snd kv) cs else cs)"

definition vc_MergeMap :: "(string, int) gomap \<Rightarrow> VectorClock \<Rightarrow> VectorClock" where
  "vc_MergeMap m vc = vc\<lparr>vc_clocks := fold merge_entry m (vc_clocks vc)\<rparr>"

definition vc_Merge :: "VectorClock \<Rightarrow> VectorClock option \<Rightarrow> VectorClock" where
  "vc_Merge vc other =
     (case other of
        None \<Rightarrow> vc
      | Some o' \<Rightarrow>
          (let snapshot = gm_copy [] (vc_clocks o')
           in vc\<lparr>vc_clocks := fold merge_entry snapshot (vc_clocks vc)\<rparr>))"

definition vc_members :: "(string, int) gomap \<Rightarrow> (string, int) gomap \<Rightarrow> (string, bool) gomap" where
  "vc_members this oth =
     fold (\<lambda>m. gm_put m True) (gm_keys oth) (fold (\<lambda>m. gm_put m True) (gm_keys this) [])"

definition compare_member ::
  "(string, int) gomap \<Rightarrow> (string, int) gomap \<Rightarrow> string \<Rightarrow> bool \<times> bool \<Rightarrow> bool \<times> bool" where
  "compare_member this oth m flags =
     (let thisVal = gm_get 0 this m; otherVal = gm_get 0 oth m
      in if thisVal > otherVal then (True, snd flags)
         else if thisVal < otherVal then (fst flags, True)
         else flags)"

definition vc_Compare :: "VectorClock \<Rightarrow> VectorClock option \<Rightarrow> int" where
  "vc_Compare vc other =
     (case other of
        None \<Rightarrow> 1
      | Some o' \<Rightarrow>
          (let otherSnapshot = gm_copy [] (vc_clocks o');
               members = vc_members (vc_clocks vc) otherSnapshot;
               (hasGreater, hasLess) =
                 fold (compare_member (vc_clocks vc) otherSnapshot) (gm_keys members) (False, False)
           in if hasGreater \<and> \<not> hasLess then 1
              else if hasLess \<and> \<not> hasGreater then - 1
              else 0))"

definition vc_CompareMap :: "VectorClock \<Rightarrow> (string, int) gomap \<Rightarrow> int" where
  "vc_CompareMap vc other = vc_Compare vc (Some (NewVectorClockFromMap other))"

definition HappenedBefore :: "VectorClock \<Rightarrow> VectorClock \<Rightarrow> bool" where
  "HappenedBefore vc other \<longleftrightarrow> vc_Compare vc (Some other) = - 1"

definition HappenedAfter :: "VectorClock \<Rightarrow> VectorClock \<Rightarrow> bool" where
  "HappenedAfter vc other \<longleftrightarrow> vc_Compare vc (Some other) = 1"

definition Concurrent :: "VectorClock \<Rightarrow> VectorClock \<Rightarrow> bool" where
  "Concurrent vc other \<longleftrightarrow> vc_Compare vc (Some other) = 0"

definition vc_ToMap :: "VectorClock \<Rightarrow> (string, int) gomap" where
  "vc_ToMap vc = gm_copy [] (vc_clocks vc)"

definition vc_Copy :: "VectorClock \<Rightarrow> VectorClock" where
  "vc_Copy vc = NewVectorClockFromMap (vc_clocks vc)"

definition vc_Equal :: "VectorClock \<Rightarrow> VectorClock option \<Rightarrow> bool" where
  "vc_Equal vc other =
     (case other of
        None \<Rightarrow> False
      | Some o' \<Rightarrow>
          (let otherSnapshot = gm_copy [] (vc_clocks o')
           in if length (vc_clocks vc) \<noteq> length otherSnapshot then False
              else list_all (\<lambda>(k, v). gm_get 0 otherSnapshot k = v) (vc_clocks vc)))"

definition vc_IsZero :: "VectorClock \<Rightarrow> bool" where
  "vc_IsZero vc = list_all (\<lambda>(_, v). v = 0) (vc_clocks vc)"

subsection \<open>Abstraction and well-formedness\<close>

definition vc_val :: "VectorClock \<Rightarrow> string \<Rightarrow> int" where
  "vc_val vc = gm_get 0 (vc_clocks vc)"

definition vc_ok :: "VectorClock \<Rightarrow> bool" where
  "vc_ok vc \<longleftrightarrow> gm_ok (vc_clocks vc)"

definition map_nonneg :: "(string, int) gomap \<Rightarrow> bool" where
  "map_nonneg m \<longleftrightarrow> list_all (\<lambda>(_, v). 0 \<le> v) m"

definition vc_wf :: "VectorClock \<Rightarrow> bool" where
  "vc_wf vc \<longleftrightarrow> vc_ok vc \<and> map_nonneg (vc_clocks vc)"

lemma map_nonneg_get: "map_nonneg m \<Longrightarrow> 0 \<le> gm_get 0 m k"
  by (auto simp: map_nonneg_def gm_get_def list_all_iff split: option.splits dest!: map_of_SomeD)

lemma gm_copy_get: "gm_ok m \<Longrightarrow> gm_get 0 (gm_copy [] m) = gm_get (0 :: int) m"
  by (rule gm_get_cong) (simp add: map_of_gm_copy)

lemma set_fold_put_True:
  "fst ` set (fold (\<lambda>m. gm_put m True) ks acc) = fst ` set acc \<union> set ks"
  by (induction ks arbitrary: acc) auto

lemma vc_members_set: "fst ` set (vc_members this oth) = fst ` set this \<union> fst ` set oth"
  by (simp add: vc_members_def set_fold_put_True)

lemma compare_fold:
  "fold (compare_member this oth) ms (g, l) =
     (g \<or> (\<exists>m\<in>set ms. gm_get 0 this m > gm_get 0 oth m),
      l \<or> (\<exists>m\<in>set ms. gm_get 0 this m < gm_get 0 oth m))"
  by (induction ms arbitrary: g l) (auto simp: compare_member_def Let_def)

lemma members_all:
  assumes "\<not> P 0 0"
  shows "(\<exists>m\<in>fst ` set (vc_members this oth). P (gm_get 0 this m) (gm_get 0 oth m)) \<longleftrightarrow>
   (\<exists>m. P (gm_get (0 :: int) this m) (gm_get 0 oth m))"
  unfolding vc_members_set using assms by (metis UnCI gm_get_notin)

lemma val_less_iff: "(f :: string \<Rightarrow> int) < g \<longleftrightarrow> (\<forall>m. f m \<le> g m) \<and> (\<exists>m. f m < g m)"
  by (auto simp: less_fun_def le_fun_def not_le)

lemma compare_flags:
  "fold (compare_member this oth) (gm_keys (vc_members this oth)) (False, False) =
     ((\<exists>m. gm_get 0 this m > gm_get 0 oth m), (\<exists>m. gm_get 0 this m < gm_get 0 oth m))"
  unfolding compare_fold set_map
  by (subst members_all [where P = "\<lambda>x y. x > y"], simp,
      subst members_all [where P = "\<lambda>x y. x < y"], simp, simp)

lemma vc_Compare_val:
  assumes "vc_ok b"
  shows "vc_Compare a (Some b) =
     (if vc_val b < vc_val a then 1 else if vc_val a < vc_val b then - 1 else 0)"
proof -
  have b: "gm_get 0 (gm_copy [] (vc_clocks b)) = vc_val b"
    using assms by (simp add: vc_ok_def vc_val_def gm_copy_get)
  show ?thesis
    unfolding vc_Compare_def Let_def option.case compare_flags b val_less_iff
    by (simp add: vc_val_def not_le not_less) (meson not_le)
qed

lemma merge_entry_get:
  "gm_get 0 (merge_entry (k, v) cs) m = (if m = k then max v (gm_get 0 cs k) else gm_get 0 cs m)"
  by (auto simp: merge_entry_def gm_get_put)

lemma merge_entry_ok [simp]: "gm_ok cs \<Longrightarrow> gm_ok (merge_entry kv cs)"
  by (simp add: merge_entry_def)

lemma fold_merge_ok [simp]: "gm_ok cs \<Longrightarrow> gm_ok (fold merge_entry m cs)"
  by (induction m arbitrary: cs) auto

lemma fold_merge_ge: "gm_get 0 cs k \<le> gm_get 0 (fold merge_entry m cs) k"
proof (induction m arbitrary: cs)
  case Nil
  then show ?case by simp
next
  case (Cons kv m)
  have "gm_get 0 cs k \<le> gm_get 0 (merge_entry kv cs) k"
    by (cases kv) (auto simp: merge_entry_get)
  also have "\<dots> \<le> gm_get 0 (fold merge_entry (kv # m) cs) k"
    using Cons.IH [of "merge_entry kv cs"] by simp
  finally show ?case .
qed

lemma fold_merge_get:
  assumes "gm_ok m"
  shows "gm_get 0 (fold merge_entry m cs) k =
     (case map_of m k of None \<Rightarrow> gm_get 0 cs k | Some v \<Rightarrow> max v (gm_get 0 cs k))"
  using assms
proof (induction m arbitrary: cs)
  case Nil
  then show ?case by simp
next
  case (Cons kv m)
  obtain k' v' where kv: "kv = (k', v')" by (cases kv)
  with Cons.prems have "map_of m k' = None" and "gm_ok m"
    by (auto simp: gm_ok_def map_of_eq_None_iff)
  then show ?case
    using Cons.IH [of "merge_entry kv cs"]
    by (auto simp: kv merge_entry_get split: option.splits)
qed

lemma fold_merge_val:
  assumes "gm_ok m" and "map_nonneg m" and "map_nonneg cs"
  shows "gm_get 0 (fold merge_entry m cs) = sup (gm_get 0 m) (gm_get 0 cs)"
proof
  fix k
  show "gm_get 0 (fold merge_entry m cs) k = sup (gm_get 0 m) (gm_get 0 cs) k"
    using fold_merge_get [OF assms(1), of cs k] map_nonneg_get [OF assms(3), of k]
    by (auto simp: gm_get_def [of 0 m] sup_max split: option.splits)
qed

lemma map_nonneg_put: "map_nonneg m \<Longrightarrow> 0 \<le> v \<Longrightarrow> map_nonneg (gm_put k v m)"
  by (induction m) (auto simp: map_nonneg_def)

lemma fold_merge_nonneg: "map_nonneg m \<Longrightarrow> map_nonneg cs \<Longrightarrow> map_nonneg (fold merge_entry m cs)"
proof (induction m arbitrary: cs)
  case Nil
  then show ?case by simp
next
  case (Cons kv m)
  then have "map_nonneg m" and "0 \<le> snd kv"
    by (auto simp: map_nonneg_def)
  then show ?case
    using Cons by (simp add: merge_entry_def map_nonneg_put)
qed

lemma map_nonneg_copy:
  "map_nonneg src \<Longrightarrow> map_nonneg dst \<Longrightarrow> map_nonneg (gm_copy dst src)"
proof (induction src arbitrary: dst)
  case Nil
  then show ?case by (simp add: gm_copy_def)
next
  case (Cons kv src)
  then have "map_nonneg src" and "0 \<le> snd kv"
    by (auto simp: map_nonneg_def)
  then show ?case
    using Cons.IH [of "gm_put (fst kv) (snd kv) dst"] Cons.prems
    by (simp add: gm_copy_def split_def map_nonneg_put)
qed

lemma map_nonneg_Nil [simp]: "map_nonneg []"
  by (simp add: map_nonneg_def)

subsection \<open>The contract of a causal clock\<close>

locale causal_clock =
  fixes val :: "'c \<Rightarrow> 'n \<Rightarrow> int"
    and merge :: "'c \<Rightarrow> 'c \<Rightarrow> 'c"
    and cmp :: "'c \<Rightarrow> 'c \<Rightarrow> int"
    and wf :: "'c \<Rightarrow> bool"
  assumes cmp_val: "wf a \<Longrightarrow> wf b \<Longrightarrow>
      cmp a b = (if val b < val a then 1 else if val a < val b then - 1 else 0)"
    and merge_val: "wf a \<Longrightarrow> wf b \<Longrightarrow> val (merge a b) = sup (val a) (val b)"
    and merge_wf: "wf a \<Longrightarrow> wf b \<Longrightarrow> wf (merge a b)"
begin

lemma cmp_antisym: "wf a \<Longrightarrow> wf b \<Longrightarrow> cmp b a = - cmp a b"
  by (auto simp: cmp_val)

lemma cmp_range: "wf a \<Longrightarrow> wf b \<Longrightarrow> cmp a b \<in> {- 1, 0, 1}"
  by (simp add: cmp_val)

lemma before_iff: "wf a \<Longrightarrow> wf b \<Longrightarrow> cmp a b = - 1 \<longleftrightarrow> val a < val b"
  by (auto simp: cmp_val)

lemma before_trans:
  "wf a \<Longrightarrow> wf b \<Longrightarrow> wf c \<Longrightarrow> cmp a b = - 1 \<Longrightarrow> cmp b c = - 1 \<Longrightarrow> cmp a c = - 1"
  by (auto simp: before_iff)

lemma before_irrefl: "wf a \<Longrightarrow> cmp a a \<noteq> - 1"
  by (simp add: before_iff)

lemma merge_upper: "wf a \<Longrightarrow> wf b \<Longrightarrow> val a \<le> val (merge a b) \<and> val b \<le> val (merge a b)"
  by (simp add: merge_val)

lemma merge_least:
  "wf a \<Longrightarrow> wf b \<Longrightarrow> val a \<le> val c \<Longrightarrow> val b \<le> val c \<Longrightarrow> val (merge a b) \<le> val c"
  by (simp add: merge_val)

lemma merge_not_before: "wf a \<Longrightarrow> wf b \<Longrightarrow> cmp (merge a b) a \<noteq> - 1 \<and> cmp (merge a b) b \<noteq> - 1"
  using merge_upper [of a b] by (auto simp: before_iff merge_wf)

lemma merge_commute: "wf a \<Longrightarrow> wf b \<Longrightarrow> val (merge a b) = val (merge b a)"
  by (simp add: merge_val sup_commute)

lemma merge_assoc:
  "wf a \<Longrightarrow> wf b \<Longrightarrow> wf c \<Longrightarrow> val (merge (merge a b) c) = val (merge a (merge b c))"
  by (simp add: merge_val merge_wf sup_assoc)

end

lemma vc_Merge_val:
  assumes "vc_wf a" and "vc_wf b"
  shows "vc_val (vc_Merge a (Some b)) = sup (vc_val a) (vc_val b)"
  using assms
  by (simp add: vc_Merge_def vc_val_def Let_def vc_wf_def vc_ok_def fold_merge_val gm_copy_get
      map_nonneg_copy sup_commute)

lemma vc_Merge_wf: "vc_wf a \<Longrightarrow> vc_wf b \<Longrightarrow> vc_wf (vc_Merge a (Some b))"
  by (simp add: vc_Merge_def vc_wf_def vc_ok_def Let_def fold_merge_nonneg map_nonneg_copy)

interpretation vcl: causal_clock vc_val "\<lambda>a b. vc_Merge a (Some b)" "\<lambda>a b. vc_Compare a (Some b)" vc_wf
proof unfold_locales
  show "vc_Compare a (Some b) = (if vc_val b < vc_val a then 1 else if vc_val a < vc_val b then - 1 else 0)"
    if "vc_wf a" "vc_wf b" for a b
    using that by (simp add: vc_Compare_val vc_wf_def)
qed (rule vc_Merge_val vc_Merge_wf, assumption+)+

subsection \<open>Facts for the clients\<close>

lemma vc_Get_val: "vc_Get vc = vc_val vc"
  by (simp add: vc_Get_def vc_val_def fun_eq_iff)

lemma vc_ok_FromMap [simp]: "vc_ok (NewVectorClockFromMap m)"
  by (simp add: vc_ok_def NewVectorClockFromMap_def)

lemma vc_val_FromMap: "gm_ok m \<Longrightarrow> vc_val (NewVectorClockFromMap m) = gm_get 0 m"
  by (simp add: vc_val_def NewVectorClockFromMap_def gm_copy_get)

lemma vc_ok_MergeMap [simp]: "vc_ok vc \<Longrightarrow> vc_ok (vc_MergeMap m vc)"
  by (simp add: vc_ok_def vc_MergeMap_def)

lemma vc_MergeMap_ge: "vc_val vc \<le> vc_val (vc_MergeMap m vc)"
  by (simp add: vc_MergeMap_def vc_val_def le_fun_def fold_merge_ge)

lemma vc_ok_Increment [simp]: "vc_ok vc \<Longrightarrow> vc_ok (fst (vc_Increment k vc))"
  by (simp add: vc_ok_def vc_Increment_def Let_def)

lemma vc_Increment_val:
  "vc_val (fst (vc_Increment k vc)) = (vc_val vc)(k := wrap64 (vc_val vc k + 1))"
  by (simp add: vc_Increment_def vc_val_def Let_def gm_get_put fun_eq_iff)

lemma vc_ToMap_ok [simp]: "gm_ok (vc_ToMap vc)"
  by (simp add: vc_ToMap_def)

lemma vc_ToMap_get: "vc_ok vc \<Longrightarrow> gm_get 0 (vc_ToMap vc) = vc_val vc"
  by (simp add: vc_ToMap_def vc_ok_def vc_val_def gm_copy_get)

lemma vc_FromMap_ToMap: "vc_ok vc \<Longrightarrow> vc_val (NewVectorClockFromMap (vc_ToMap vc)) = vc_val vc"
  by (simp add: vc_val_FromMap vc_ToMap_get)

lemma HappenedBefore_val: "vc_ok b \<Longrightarrow> HappenedBefore a b \<longleftrightarrow> vc_val a < vc_val b"
  by (auto simp: HappenedBefore_def vc_Compare_val)

lemma HappenedAfter_val: "vc_ok b \<Longrightarrow> HappenedAfter a b \<longleftrightarrow> vc_val b < vc_val a"
  by (auto simp: HappenedAfter_def vc_Compare_val)

lemma Concurrent_val: "vc_ok b \<Longrightarrow> Concurrent a b \<longleftrightarrow> \<not> vc_val a < vc_val b \<and> \<not> vc_val b < vc_val a"
  by (auto simp: Concurrent_def vc_Compare_val)

lemmas vc_order_val = HappenedBefore_val HappenedAfter_val Concurrent_val

lemma fun_less_upd: "(x :: int) < v \<Longrightarrow> f k = x \<Longrightarrow> f < f(k := v)"
  by (auto simp: less_fun_def le_fun_def)

subsection \<open>Properties\<close>

text \<open>
  C21. \<open>Compare\<close> computes the causal order: 1 exactly when this clock is at least the other in
  every member and greater in one, -1 exactly in the converse case, and 0 otherwise (so 0
  covers both equal and truly concurrent clocks). Members missing from a clock count as 0.
\<close>
theorem vc_Compare_causal_order:
  assumes "vc_ok b"
  shows "vc_Compare a (Some b) =
     (if (\<forall>m. vc_Get b m \<le> vc_Get a m) \<and> (\<exists>m. vc_Get b m < vc_Get a m) then 1
      else if (\<forall>m. vc_Get a m \<le> vc_Get b m) \<and> (\<exists>m. vc_Get a m < vc_Get b m) then - 1
      else 0)"
  using vc_Compare_val [OF assms, of a] by (simp add: val_less_iff vc_Get_val)

theorem vc_Compare_causal_order_witness:
  "vc_Compare \<lparr>vc_clocks = [(''a'', 2)]\<rparr> (Some \<lparr>vc_clocks = [(''a'', 1), (''b'', 1)]\<rparr>) = 0"
  by (subst vc_Compare_causal_order)
    (auto simp: vc_ok_def gm_ok_def vc_Get_def gm_get_def intro: exI [of _ "''a''"] exI [of _ "''b''"])

text \<open>
  \<open>HappenedBefore\<close> is a strict partial order on clocks and \<open>HappenedAfter\<close> is its converse.
\<close>
lemma HappenedBefore_strict_order:
  assumes "vc_wf a" and "vc_wf b" and "vc_wf c"
  shows "\<not> HappenedBefore a a \<and>
    (HappenedBefore a b \<and> HappenedBefore b c \<longrightarrow> HappenedBefore a c) \<and>
    (HappenedBefore a b \<longleftrightarrow> HappenedAfter b a)"
  using vcl.before_irrefl [OF assms(1)] vcl.before_trans [OF assms] vcl.cmp_antisym [OF assms(1,2)]
  by (auto simp: HappenedBefore_def HappenedAfter_def)

text \<open>
  \<open>Merge\<close> is the least upper bound of two clocks without negative counters: it is the
  pointwise maximum, no input happened after it, and the result depends neither on the order
  nor on the grouping of merges.
\<close>
lemma vc_Merge_least_upper_bound:
  assumes "vc_wf a" and "vc_wf b" and "vc_wf c"
  shows "vc_Get (vc_Merge a (Some b)) m = max (vc_Get a m) (vc_Get b m) \<and>
    \<not> HappenedBefore (vc_Merge a (Some b)) a \<and> \<not> HappenedBefore (vc_Merge a (Some b)) b \<and>
    vc_Get (vc_Merge a (Some b)) m = vc_Get (vc_Merge b (Some a)) m \<and>
    vc_Get (vc_Merge (vc_Merge a (Some b)) (Some c)) m
      = vc_Get (vc_Merge a (Some (vc_Merge b (Some c)))) m"
proof (intro conjI)
  show "vc_Get (vc_Merge a (Some b)) m = max (vc_Get a m) (vc_Get b m)"
    by (simp add: vc_Get_val vc_Merge_val [OF assms(1,2)] sup_max)
qed (use vcl.merge_not_before [OF assms(1,2)] vcl.merge_commute [OF assms(1,2)] vcl.merge_assoc [OF assms]
     in \<open>simp_all add: vc_Get_val HappenedBefore_def\<close>)

text \<open>
  \<open>Increment\<close> returns the old value plus one, leaves every other member alone and moves
  the clock strictly forward, as long as the counter is below the largest \<open>int64\<close>; at that
  value the counter wraps and the new clock happened before the old one.
\<close>
lemma vc_Increment_advances:
  assumes "vc_ok vc" and "MinInt64 \<le> vc_Get vc k" and "vc_Get vc k \<le> MaxInt64" and "m \<noteq> k"
  shows "vc_Get (fst (vc_Increment k vc)) m = vc_Get vc m \<and>
    (if vc_Get vc k < MaxInt64
     then snd (vc_Increment k vc) = vc_Get vc k + 1 \<and> HappenedAfter (fst (vc_Increment k vc)) vc
     else snd (vc_Increment k vc) = MinInt64 \<and> HappenedBefore (fst (vc_Increment k vc)) vc)"
proof (rule conjI)
  show "vc_Get (fst (vc_Increment k vc)) m = vc_Get vc m"
    using assms(4) by (simp add: vc_Get_val vc_Increment_val)
  have snd: "snd (vc_Increment k vc) = wrap64 (vc_Get vc k + 1)"
    by (simp add: vc_Increment_def Let_def gm_get_put vc_Get_def)
  show "if vc_Get vc k < MaxInt64
     then snd (vc_Increment k vc) = vc_Get vc k + 1 \<and> HappenedAfter (fst (vc_Increment k vc)) vc
     else snd (vc_Increment k vc) = MinInt64 \<and> HappenedBefore (fst (vc_Increment k vc)) vc"
  proof (cases "vc_Get vc k < MaxInt64")
    case True
    then have "wrap64 (vc_Get vc k + 1) = vc_Get vc k + 1"
      using assms(2) by (intro wrap64_id) auto
    then show ?thesis
      using True snd assms(1) by (simp add: HappenedAfter_val vc_Increment_val vc_Get_val
          fun_less_upd [of "vc_val vc k"])
  next
    case False
    then have max: "vc_val vc k = MaxInt64"
      using assms(3) by (simp add: vc_Get_val)
    then have "(vc_val vc)(k := MinInt64) < vc_val vc"
      by (auto simp: less_fun_def le_fun_def MaxInt64_def MinInt64_def)
    then show ?thesis
      using snd assms(1) max by (simp add: HappenedBefore_val vc_Increment_val vc_Get_val wrap64_overflow)
  qed
qed

text \<open>
  \<open>Equal\<close> decides equality of the two maps when this clock holds no zero counter.
\<close>
lemma vc_Equal_iff:
  assumes "vc_ok a" and "vc_ok b" and nz: "\<forall>(k, v) \<in> set (vc_clocks a). v \<noteq> 0"
  shows "vc_Equal a (Some b) \<longleftrightarrow> map_of (vc_clocks a) = map_of (vc_clocks b)"
proof -
  let ?a = "vc_clocks a" and ?b = "gm_copy [] (vc_clocks b)"
  have mb: "map_of ?b = map_of (vc_clocks b)" and okb: "gm_ok ?b" and oka: "gm_ok ?a"
    using assms by (simp_all add: vc_ok_def map_of_gm_copy)
  have "(gm_get 0 ?b k = v) = (map_of ?b k = Some v)" if "(k, v) \<in> set ?a" for k v
    using nz that by (auto simp: gm_get_def split: option.splits)
  then have "list_all (\<lambda>(k, v). gm_get 0 ?b k = v) ?a \<longleftrightarrow> (\<forall>(k, v) \<in> set ?a. map_of ?b k = Some v)"
    unfolding list_all_iff by (intro ball_cong) auto
  then show ?thesis
    using gm_eq_iff [OF oka okb] by (simp add: vc_Equal_def Let_def mb)
qed

text \<open>
  Without that condition \<open>Equal\<close> is not an equality: on clocks of the same size it only
  looks at this clock's members, so a zero counter on one side hides a counter of the other
  side. It then returns true for clocks that \<open>Compare\<close> orders, and its answer depends on the
  argument order.
\<close>
lemma vc_Equal_not_symmetric:
  "let a = \<lparr>vc_clocks = [(''east'', 0)]\<rparr>; b = \<lparr>vc_clocks = [(''west'', 5)]\<rparr>
   in vc_ok a \<and> vc_ok b \<and> vc_Equal a (Some b) \<and> \<not> vc_Equal b (Some a) \<and> HappenedBefore a b"
  by (simp add: vc_ok_def gm_ok_def vc_Equal_def gm_copy_def gm_get_def HappenedBefore_def vc_Compare_def
      vc_members_def compare_member_def Let_def)

end
