(* ===== verification/Fed_Types.thy ===== *)
theory Fed_Types
  imports Vector_Clock
begin

section \<open>Federation types (\<open>internal/controller/federation/types.go\<close>)\<close>

text \<open>
  The data of the federation component, one record per Go struct and one datatype per
  enumeration, with the fields in the source's order (mutexes left out), the messages of
  \<open>api/proto/federation.proto\<close> the handlers read, and the comparison of two
  configurations that decides whether a running manager is reconfigured.
  A nil pointer is \<open>None\<close>. A nil map reads as the empty map; where the code distinguishes
  the two (\<open>Labels\<close>) the field is an option.
\<close>

subsection \<open>Data\<close>

type_synonym bytes = string
type_synonym labels = "(string, string) gomap option"

definition ModeHubSpoke :: string where "ModeHubSpoke = ''hub-spoke''"
definition ModeMesh :: string where "ModeMesh = ''mesh''"
definition ModeUnified :: string where "ModeUnified = ''unified''"
definition RepairModePull :: string where "RepairModePull = ''pull''"
definition RepairModePush :: string where "RepairModePush = ''push''"
definition RepairModeBidirectional :: string where "RepairModeBidirectional = ''bidirectional''"
definition StrategyLastWriterWins :: string where "StrategyLastWriterWins = ''LastWriterWins''"

record PeerInfo =
  pi_Name :: string
  pi_Endpoint :: string
  pi_Region :: string
  pi_Zone :: string
  pi_Priority :: int
  pi_Labels :: labels
  pi_TLSEnabled :: bool
  pi_TLSServerName :: string
  pi_InsecureSkipVerify :: bool
  pi_CACert :: bytes
  pi_ClientCert :: bytes
  pi_ClientKey :: bytes

text \<open>The literal \<open>PeerInfo{Name: name}\<close>.\<close>

definition PeerInfo_named :: "string \<Rightarrow> PeerInfo" where
  "PeerInfo_named name =
     \<lparr>pi_Name = name, pi_Endpoint = '''', pi_Region = '''', pi_Zone = '''', pi_Priority = 0,
      pi_Labels = None, pi_TLSEnabled = False, pi_TLSServerName = '''', pi_InsecureSkipVerify = False,
      pi_CACert = '''', pi_ClientCert = '''', pi_ClientKey = ''''\<rparr>"

record PeerState =
  ps_Info :: "PeerInfo option"
  ps_VectorClock :: "VectorClock option"
  ps_LastSeen :: gotime
  ps_LastSyncTime :: gotime
  ps_Healthy :: bool
  ps_Connected :: bool
  ps_AgentCount :: int
  ps_SyncLag :: duration
  ps_LastError :: string
  ps_ConsecutiveFailures :: int

text \<open>The zero value \<open>PeerState{}\<close>.\<close>

definition PeerState_zero :: PeerState where
  "PeerState_zero =
     \<lparr>ps_Info = None, ps_VectorClock = None, ps_LastSeen = time_zero, ps_LastSyncTime = time_zero,
      ps_Healthy = False, ps_Connected = False, ps_AgentCount = 0, ps_SyncLag = 0,
      ps_LastError = '''', ps_ConsecutiveFailures = 0\<rparr>"

record ResourceKey =
  rk_Kind :: string
  rk_Namespace :: string
  rk_Name :: string

definition rk_String :: "ResourceKey \<Rightarrow> string" where
  "rk_String k =
     (if rk_Namespace k = '''' then rk_Kind k @ ''/'' @ rk_Name k
      else rk_Kind k @ ''/'' @ rk_Namespace k @ ''/'' @ rk_Name k)"

record TrackedResource =
  tr_Key :: ResourceKey
  tr_ResourceVersion :: string
  tr_Hash :: string
  tr_Data :: bytes
  tr_VectorClock :: "(string, int) gomap"
  tr_OriginMember :: string
  tr_LastModified :: gotime
  tr_Labels :: labels

record Tombstone =
  tb_Key :: ResourceKey
  tb_DeletionTime :: gotime
  tb_VectorClock :: "(string, int) gomap"
  tb_OriginMember :: string

datatype ConflictResolutionType =
    ConflictResolutionNone
  | ConflictResolutionLastWriterWins
  | ConflictResolutionMerged
  | ConflictResolutionPendingManual
  | ConflictResolutionLocalWins
  | ConflictResolutionRemoteWins

record ConflictInfo =
  ci_Key :: ResourceKey
  ci_LocalVersion :: TrackedResource
  ci_RemoteVersion :: TrackedResource
  ci_DetectedAt :: gotime
  ci_Resolution :: ConflictResolutionType
  ci_RequiresManual :: bool

record SyncStats =
  st_TotalChangesReceived :: int
  st_TotalChangesSent :: int
  st_LastSyncDuration :: duration
  st_ConflictsDetected :: int
  st_ConflictsResolved :: int
  st_PendingChanges :: int
  st_FullSyncs :: int
  st_IncrementalSyncs :: int

definition SyncStats_zero :: SyncStats where
  "SyncStats_zero =
     \<lparr>st_TotalChangesReceived = 0, st_TotalChangesSent = 0, st_LastSyncDuration = 0,
      st_ConflictsDetected = 0, st_ConflictsResolved = 0, st_PendingChanges = 0,
      st_FullSyncs = 0, st_IncrementalSyncs = 0\<rparr>"

datatype Phase = PhaseInitializing | PhaseSyncing | PhaseHealthy | PhaseDegraded | PhasePartitioned

datatype ChangeType = ChangeTypeCreated | ChangeTypeUpdated | ChangeTypeDeleted

record ChangeEntry =
  ce_ID :: string
  ce_Key :: ResourceKey
  ce_Type :: ChangeType
  ce_Resource :: "TrackedResource option"
  ce_Tombstone :: "Tombstone option"
  ce_VectorClock :: "(string, int) gomap"
  ce_Timestamp :: gotime
  ce_Acknowledged :: "(string, bool) gomap"

type_synonym QuorumMode = string

definition QuorumModeControllers :: QuorumMode where "QuorumModeControllers = ''Controllers''"
definition QuorumModeAgentAssisted :: QuorumMode where "QuorumModeAgentAssisted = ''AgentAssisted''"

text \<open>\<open>SplitBrainConfig\<close> of \<open>splitbrain.go\<close>.\<close>

record SplitBrainConfig =
  sb_PartitionTimeout :: duration
  sb_QuorumRequired :: bool
  sb_QuorumSize :: int
  sb_HealingGracePeriod :: duration
  sb_AutoResolveOnHeal :: bool
  sb_FencingEnabled :: bool
  sb_QuorumMode :: QuorumMode
  sb_AgentQuorumWeight :: int
  sb_ControllerQuorumWeight :: int
  sb_MinAgentsForQuorum :: int

record Config =
  cf_Mode :: string
  cf_FederationID :: string
  cf_LocalMember :: "PeerInfo option"
  cf_Peers :: "PeerInfo list"
  cf_SyncInterval :: duration
  cf_SyncTimeout :: duration
  cf_BatchSize :: int
  cf_CompressionEnabled :: bool
  cf_ResourceTypes :: "string list"
  cf_ExcludeNamespaces :: "string list"
  cf_ConflictResolutionStrategy :: string
  cf_VectorClocksEnabled :: bool
  cf_TombstoneTTL :: duration
  cf_HealthCheckInterval :: duration
  cf_HealthCheckTimeout :: duration
  cf_FailureThreshold :: int
  cf_SuccessThreshold :: int
  cf_SplitBrain :: "SplitBrainConfig option"

definition DefaultConfig :: Config where
  "DefaultConfig =
     \<lparr>cf_Mode = ModeMesh, cf_FederationID = '''', cf_LocalMember = None, cf_Peers = [],
      cf_SyncInterval = sec 5, cf_SyncTimeout = sec 30, cf_BatchSize = 100,
      cf_CompressionEnabled = True, cf_ResourceTypes = [], cf_ExcludeNamespaces = [],
      cf_ConflictResolutionStrategy = StrategyLastWriterWins, cf_VectorClocksEnabled = True,
      cf_TombstoneTTL = sec 86400, cf_HealthCheckInterval = sec 10, cf_HealthCheckTimeout = sec 5,
      cf_FailureThreshold = 3, cf_SuccessThreshold = 1, cf_SplitBrain = None\<rparr>"

subsection \<open>Messages\<close>

text \<open>A proto3 enumeration is open: a peer may send a number without a name.\<close>

datatype pbChangeType = CHANGE_TYPE_UNSPECIFIED | PB_CREATED | PB_UPDATED | PB_DELETED | PB_UNKNOWN int

record ResourceChange =
  rc_ChangeId :: string
  rc_VectorClock :: "(string, int) gomap"
  rc_ChangeType :: pbChangeType
  rc_ResourceType :: string
  rc_Namespace :: string
  rc_Name :: string
  rc_ResourceVersion :: string
  rc_ResourceData :: bytes
  rc_ResourceHash :: string
  rc_Timestamp :: int
  rc_OriginMember :: string
  rc_Labels :: labels

record SyncHandshake =
  hs_FederationId :: string
  hs_MemberName :: string
  hs_Region :: string
  hs_Zone :: string
  hs_VectorClock :: "(string, int) gomap"
  hs_ProtocolVersion :: int
  hs_Features :: "string list"
  hs_Compression :: bool

record Heartbeat =
  hb_VectorClock :: "(string, int) gomap"
  hb_Timestamp :: int
  hb_PendingChanges :: int
  hb_AgentCount :: int

record ChangeError =
  er_ChangeId :: string
  er_ErrorCode :: string
  er_ErrorMessage :: string
  er_Retryable :: bool

record SyncAck =
  ak_ChangeIds :: "string list"
  ak_VectorClock :: "(string, int) gomap"
  ak_Errors :: "ChangeError list"

datatype SyncMessage =
    MsgHandshake SyncHandshake
  | MsgChange ResourceChange
  | MsgAck SyncAck
  | MsgHeartbeat Heartbeat
  | MsgConflict ResourceKey

record FullSyncRequest =
  fr_FederationId :: string
  fr_RequesterMember :: string
  fr_ResourceTypes :: "string list"
  fr_Namespaces :: "string list"
  fr_VectorClock :: "(string, int) gomap"

record ResourceBatch =
  rb_BatchNumber :: int
  rb_IsLast :: bool
  rb_Resources :: "ResourceChange list"
  rb_TotalResources :: int
  rb_VectorClock :: "(string, int) gomap"

subsection \<open>Comparison of configurations\<close>

definition stringSliceEqual :: "string list \<Rightarrow> string list \<Rightarrow> bool" where
  "stringSliceEqual a b \<longleftrightarrow>
     length a = length b \<and> list_all (\<lambda>i. a ! i = b ! i) [0..<length a]"

text \<open>Ranging over a nil map is ranging over the empty map, and so is its length.\<close>

definition labels_map :: "labels \<Rightarrow> (string, string) gomap" where
  "labels_map l = (case l of None \<Rightarrow> [] | Some m \<Rightarrow> m)"

definition stringMapEqual :: "labels \<Rightarrow> labels \<Rightarrow> bool" where
  "stringMapEqual a b \<longleftrightarrow>
     length (labels_map a) = length (labels_map b) \<and>
     list_all (\<lambda>(k, v). map_of (labels_map b) k = Some v) (labels_map a)"

definition peerInfoEqual :: "PeerInfo option \<Rightarrow> PeerInfo option \<Rightarrow> bool" where
  "peerInfoEqual x y =
     (case (x, y) of
        (None, None) \<Rightarrow> True
      | (Some a, Some b) \<Rightarrow>
          if pi_Name a \<noteq> pi_Name b \<or> pi_Endpoint a \<noteq> pi_Endpoint b \<or> pi_Region a \<noteq> pi_Region b
             \<or> pi_Zone a \<noteq> pi_Zone b \<or> pi_Priority a \<noteq> pi_Priority b
             \<or> pi_TLSEnabled a \<noteq> pi_TLSEnabled b \<or> pi_TLSServerName a \<noteq> pi_TLSServerName b
             \<or> pi_InsecureSkipVerify a \<noteq> pi_InsecureSkipVerify b
          then False
          else if \<not> stringMapEqual (pi_Labels a) (pi_Labels b) then False
          else if pi_CACert a \<noteq> pi_CACert b \<or> pi_ClientCert a \<noteq> pi_ClientCert b
             \<or> pi_ClientKey a \<noteq> pi_ClientKey b
          then False
          else True
      | _ \<Rightarrow> False)"

definition scalarFieldsEqual :: "Config \<Rightarrow> Config \<Rightarrow> bool" where
  "scalarFieldsEqual c d \<longleftrightarrow>
     cf_Mode c = cf_Mode d \<and>
     cf_FederationID c = cf_FederationID d \<and>
     cf_SyncInterval c = cf_SyncInterval d \<and>
     cf_SyncTimeout c = cf_SyncTimeout d \<and>
     cf_BatchSize c = cf_BatchSize d \<and>
     cf_CompressionEnabled c = cf_CompressionEnabled d \<and>
     cf_ConflictResolutionStrategy c = cf_ConflictResolutionStrategy d \<and>
     cf_VectorClocksEnabled c = cf_VectorClocksEnabled d \<and>
     cf_TombstoneTTL c = cf_TombstoneTTL d \<and>
     cf_HealthCheckInterval c = cf_HealthCheckInterval d \<and>
     cf_HealthCheckTimeout c = cf_HealthCheckTimeout d \<and>
     cf_FailureThreshold c = cf_FailureThreshold d \<and>
     cf_SuccessThreshold c = cf_SuccessThreshold d"

text \<open>\<open>peerMap[p.Name] = p\<close> over a slice of peers: the last peer of a name stays.\<close>

definition peer_map :: "PeerInfo list \<Rightarrow> (string, PeerInfo) gomap" where
  "peer_map ps = fold (\<lambda>p. gm_put (pi_Name p) p) ps []"

definition peersEqual :: "PeerInfo list \<Rightarrow> PeerInfo list \<Rightarrow> bool" where
  "peersEqual a b \<longleftrightarrow>
     length a = length b \<and>
     list_all (\<lambda>p. case map_of (peer_map a) (pi_Name p) of
                     None \<Rightarrow> False
                   | Some existing \<Rightarrow> peerInfoEqual (Some existing) (Some p)) b"

definition splitBrainConfigEqual :: "SplitBrainConfig option \<Rightarrow> SplitBrainConfig option \<Rightarrow> bool" where
  "splitBrainConfigEqual x y =
     (case (x, y) of
        (None, None) \<Rightarrow> True
      | (Some a, Some b) \<Rightarrow>
          sb_PartitionTimeout a = sb_PartitionTimeout b \<and>
          sb_QuorumRequired a = sb_QuorumRequired b \<and>
          sb_QuorumSize a = sb_QuorumSize b \<and>
          sb_HealingGracePeriod a = sb_HealingGracePeriod b \<and>
          sb_AutoResolveOnHeal a = sb_AutoResolveOnHeal b \<and>
          sb_FencingEnabled a = sb_FencingEnabled b \<and>
          sb_QuorumMode a = sb_QuorumMode b \<and>
          sb_AgentQuorumWeight a = sb_AgentQuorumWeight b \<and>
          sb_ControllerQuorumWeight a = sb_ControllerQuorumWeight b \<and>
          sb_MinAgentsForQuorum a = sb_MinAgentsForQuorum b
      | _ \<Rightarrow> False)"

text \<open>
  \<open>Config.Equal\<close> starts with a comparison of the two pointers; \<open>same\<close> says whether they are
  the same pointer.
\<close>

definition config_Equal :: "bool \<Rightarrow> Config option \<Rightarrow> Config option \<Rightarrow> bool" where
  "config_Equal same x y =
     (if same then True
      else case (x, y) of
        (None, None) \<Rightarrow> True
      | (Some c, Some d) \<Rightarrow>
          scalarFieldsEqual c d \<and>
          peerInfoEqual (cf_LocalMember c) (cf_LocalMember d) \<and>
          peersEqual (cf_Peers c) (cf_Peers d) \<and>
          stringSliceEqual (cf_ResourceTypes c) (cf_ResourceTypes d) \<and>
          stringSliceEqual (cf_ExcludeNamespaces c) (cf_ExcludeNamespaces d) \<and>
          splitBrainConfigEqual (cf_SplitBrain c) (cf_SplitBrain d)
      | _ \<Rightarrow> False)"

subsection \<open>What the comparisons decide\<close>

definition labels_ok :: "labels \<Rightarrow> bool" where
  "labels_ok l \<longleftrightarrow> gm_ok (labels_map l)"

text \<open>A peer up to the representation of its labels.\<close>

definition peer_view :: "PeerInfo \<Rightarrow> string list \<times> int \<times> bool list \<times> (string \<rightharpoonup> string)" where
  "peer_view p =
     ([pi_Name p, pi_Endpoint p, pi_Region p, pi_Zone p, pi_TLSServerName p,
       pi_CACert p, pi_ClientCert p, pi_ClientKey p],
      pi_Priority p, [pi_TLSEnabled p, pi_InsecureSkipVerify p], map_of (labels_map (pi_Labels p)))"

lemma stringSliceEqual_iff: "stringSliceEqual a b \<longleftrightarrow> a = b"
  unfolding stringSliceEqual_def list_all_iff by (auto intro: nth_equalityI)

lemma stringMapEqual_iff:
  "labels_ok a \<Longrightarrow> labels_ok b \<Longrightarrow>
   stringMapEqual a b \<longleftrightarrow> map_of (labels_map a) = map_of (labels_map b)"
  by (simp add: stringMapEqual_def labels_ok_def gm_eq_iff list_all_iff)

lemma peerInfoEqual_iff:
  "labels_ok (pi_Labels p) \<Longrightarrow> labels_ok (pi_Labels q) \<Longrightarrow>
   peerInfoEqual (Some p) (Some q) \<longleftrightarrow> peer_view p = peer_view q"
  by (simp add: peerInfoEqual_def stringMapEqual_iff peer_view_def)

lemma peer_view_Name: "peer_view p = peer_view q \<Longrightarrow> pi_Name p = pi_Name q"
  by (simp add: peer_view_def)

lemma fold_peer_put:
  "distinct (map pi_Name ps) \<Longrightarrow>
   map_of (fold (\<lambda>p. gm_put (pi_Name p) p) ps m) n = Some q \<longleftrightarrow>
     q \<in> set ps \<and> pi_Name q = n \<or> n \<notin> pi_Name ` set ps \<and> map_of m n = Some q"
proof (induction ps arbitrary: m)
  case Nil
  then show ?case by simp
next
  case (Cons p ps)
  then show ?case
    using Cons.IH [of "gm_put (pi_Name p) p m"] by (auto simp: update_conv' split: if_splits)
qed

lemma peer_map_Some_iff:
  "distinct (map pi_Name ps) \<Longrightarrow> map_of (peer_map ps) n = Some q \<longleftrightarrow> q \<in> set ps \<and> pi_Name q = n"
  by (simp add: peer_map_def fold_peer_put)

lemma peersEqual_subset:
  assumes "distinct (map pi_Name a)" and "\<forall>p \<in> set a \<union> set b. labels_ok (pi_Labels p)"
  shows "peersEqual a b \<longleftrightarrow> length a = length b \<and> peer_view ` set b \<subseteq> peer_view ` set a"
proof -
  have eq: "peerInfoEqual (Some q) (Some p) \<longleftrightarrow> peer_view q = peer_view p"
    if "q \<in> set a" and "p \<in> set b" for p q
    using assms(2) that by (intro peerInfoEqual_iff) auto
  have "(case map_of (peer_map a) (pi_Name p) of None \<Rightarrow> False
         | Some existing \<Rightarrow> peerInfoEqual (Some existing) (Some p))
        \<longleftrightarrow> peer_view p \<in> peer_view ` set a" if "p \<in> set b" for p
  proof -
    have "(case map_of (peer_map a) (pi_Name p) of None \<Rightarrow> False
         | Some existing \<Rightarrow> peerInfoEqual (Some existing) (Some p))
        \<longleftrightarrow> (\<exists>q. map_of (peer_map a) (pi_Name p) = Some q \<and> peerInfoEqual (Some q) (Some p))"
      by (simp split: option.splits)
    also have "\<dots> \<longleftrightarrow> (\<exists>q \<in> set a. pi_Name q = pi_Name p \<and> peer_view q = peer_view p)"
      unfolding peer_map_Some_iff [OF assms(1)] using eq that by blast
    also have "\<dots> \<longleftrightarrow> peer_view p \<in> peer_view ` set a"
      unfolding image_iff by (intro bex_cong refl) (auto dest: peer_view_Name)
    finally show ?thesis .
  qed
  then show ?thesis
    unfolding peersEqual_def list_all_iff image_subset_iff by (intro arg_cong2 [of _ _ _ _ "(\<and>)"] ball_cong refl)
qed

subsection \<open>Properties\<close>

text \<open>
  On slices without repeated peer names, \<open>peersEqual\<close> decides whether the two slices hold
  the same peers, whatever their order.
\<close>
lemma peersEqual_same_peers:
  assumes "distinct (map pi_Name a)" and "distinct (map pi_Name b)"
    and "\<forall>p \<in> set a \<union> set b. labels_ok (pi_Labels p)"
  shows "peersEqual a b \<longleftrightarrow> peer_view ` set a = peer_view ` set b"
proof -
  have card: "card (peer_view ` set xs) = length xs" if "distinct (map pi_Name xs)" for xs
  proof -
    have "distinct (map peer_view xs)"
      using that by (auto simp: distinct_map inj_on_def dest: peer_view_Name)
    from distinct_card [OF this] show ?thesis by simp
  qed
  show ?thesis
    unfolding peersEqual_subset [OF assms(1,3)] card [OF assms(1), symmetric] card [OF assms(2), symmetric]
    using card_subset_eq [of "peer_view ` set a" "peer_view ` set b"] by fastforce
qed

text \<open>
  With a repeated peer name the comparison is not symmetric: \<open>peersEqual\<close> only looks the
  peers of the second slice up in the first, so two configurations with different peers can
  compare equal in one direction.
\<close>
lemma peersEqual_not_symmetric:
  "let p = PeerInfo_named ''a''; q = PeerInfo_named ''b''
   in peersEqual [p, q] [p, p] \<and> \<not> peersEqual [p, p] [p, q]"
  by (simp add: PeerInfo_named_def peersEqual_def peer_map_def peerInfoEqual_def stringMapEqual_def
      labels_map_def)

end
