(* ===== verification/Endpoint_Cache.thy ===== *)
theory Endpoint_Cache
  imports Go_Prelude
begin

section \<open>Remote endpoint cache (\<open>internal/controller/federation/endpoints.go\<close>)\<close>

text \<open>
  The cache of service endpoints received from federated clusters: a map from cluster names to
  maps from "namespace/service" keys to endpoints. \<open>ec_abs\<close> is its abstraction to one partial
  function of two keys; the interface \<open>endpoint_store\<close> states how every operation acts on it.
\<close>

subsection \<open>Data and operations\<close>

record Endpoint =
  ep_Address :: string
  ep_Port :: int
  ep_Ready :: bool
  ep_Labels :: "(string, string) gomap option"
  ep_Weight :: int

record ServiceEndpoints =
  se_ServiceName :: string
  se_Namespace :: string
  se_ClusterName :: string
  se_Region :: string
  se_Zone :: string
  se_Endpoints :: "Endpoint list"

record RemoteEndpointCache =
  ec_endpoints :: "(string, (string, ServiceEndpoints) gomap) gomap"

definition NewRemoteEndpointCache :: RemoteEndpointCache where
  "NewRemoteEndpointCache = \<lparr>ec_endpoints = []\<rparr>"

definition serviceKey :: "string \<Rightarrow> string \<Rightarrow> string" where
  "serviceKey namespace serviceName = namespace @ ''/'' @ serviceName"

text \<open>
  The inner map is shared by reference in the source: writing into it is storing the updated
  inner map under the cluster.
\<close>

definition ec_Update ::
  "string \<Rightarrow> ServiceEndpoints option \<Rightarrow> RemoteEndpointCache \<Rightarrow> RemoteEndpointCache" where
  "ec_Update cluster endpoints c =
     (case endpoints of
        None \<Rightarrow> c
      | Some e \<Rightarrow>
          (let clusterMap = (case map_of (ec_endpoints c) cluster of None \<Rightarrow> [] | Some m \<Rightarrow> m);
               key = serviceKey (se_Namespace e) (se_ServiceName e)
           in c\<lparr>ec_endpoints := gm_put cluster (gm_put key e clusterMap) (ec_endpoints c)\<rparr>))"

definition ec_Delete ::
  "string \<Rightarrow> string \<Rightarrow> string \<Rightarrow> RemoteEndpointCache \<Rightarrow> RemoteEndpointCache" where
  "ec_Delete cluster namespace serviceName c =
     (case map_of (ec_endpoints c) cluster of
        None \<Rightarrow> c
      | Some clusterMap \<Rightarrow>
          (let key = serviceKey namespace serviceName;
               clusterMap' = gm_del key clusterMap
           in if length clusterMap' = 0
              then c\<lparr>ec_endpoints := gm_del cluster (ec_endpoints c)\<rparr>
              else c\<lparr>ec_endpoints := gm_put cluster clusterMap' (ec_endpoints c)\<rparr>))"

definition ec_DeleteCluster :: "string \<Rightarrow> RemoteEndpointCache \<Rightarrow> RemoteEndpointCache" where
  "ec_DeleteCluster cluster c = c\<lparr>ec_endpoints := gm_del cluster (ec_endpoints c)\<rparr>"

definition ec_GetForService :: "string \<Rightarrow> string \<Rightarrow> RemoteEndpointCache \<Rightarrow> ServiceEndpoints list" where
  "ec_GetForService namespace serviceName c =
     (let key = serviceKey namespace serviceName
      in fold (\<lambda>(_, clusterMap) result.
                 case map_of clusterMap key of
                   None \<Rightarrow> result
                 | Some ep \<Rightarrow> result @ [ep])
           (ec_endpoints c) [])"

definition ec_collect ::
  "(string, ServiceEndpoints) gomap \<Rightarrow> (string, ServiceEndpoints list) gomap
   \<Rightarrow> (string, ServiceEndpoints list) gomap" where
  "ec_collect clusterMap result =
     fold (\<lambda>(key, ep) res. gm_put key (gm_get [] res key @ [ep]) res) clusterMap result"

definition ec_GetAll :: "RemoteEndpointCache \<Rightarrow> (string, ServiceEndpoints list) gomap" where
  "ec_GetAll c = fold (\<lambda>(_, clusterMap). ec_collect clusterMap) (ec_endpoints c) []"

subsection \<open>Abstraction and invariant\<close>

definition ec_abs :: "RemoteEndpointCache \<Rightarrow> string \<Rightarrow> string \<Rightarrow> ServiceEndpoints option" where
  "ec_abs c cluster key = (case map_of (ec_endpoints c) cluster of None \<Rightarrow> None | Some m \<Rightarrow> map_of m key)"

text \<open>Distinct keys on both levels, and no cluster is kept with an empty map.\<close>

definition ec_ok :: "RemoteEndpointCache \<Rightarrow> bool" where
  "ec_ok c \<longleftrightarrow> gm_ok (ec_endpoints c) \<and> gm_all (\<lambda>_ m. gm_ok m \<and> m \<noteq> []) (ec_endpoints c)"

lemma ec_ok_inner: "ec_ok c \<Longrightarrow> map_of (ec_endpoints c) cl = Some m \<Longrightarrow> gm_ok m \<and> m \<noteq> []"
  unfolding ec_ok_def by (blast dest: gm_all_lookup [of "\<lambda>_ m. gm_ok m \<and> m \<noteq> []"])

lemma ec_ok_New: "ec_ok NewRemoteEndpointCache"
  by (simp add: ec_ok_def NewRemoteEndpointCache_def)

lemma ec_ok_put:
  "ec_ok c \<Longrightarrow> gm_ok m \<Longrightarrow> m \<noteq> [] \<Longrightarrow> ec_ok (c\<lparr>ec_endpoints := gm_put cl m (ec_endpoints c)\<rparr>)"
  by (simp add: ec_ok_def)

lemma ec_ok_del: "ec_ok c \<Longrightarrow> ec_ok (c\<lparr>ec_endpoints := gm_del cl (ec_endpoints c)\<rparr>)"
  by (simp add: ec_ok_def)

lemma ec_ok_Update: "ec_ok c \<Longrightarrow> ec_ok (ec_Update cl e c)"
  by (cases e; cases "map_of (ec_endpoints c) cl")
    (simp_all add: ec_Update_def Let_def ec_ok_put ec_ok_inner gm_ok_def [of "[_]"])

lemma ec_ok_Delete: "ec_ok c \<Longrightarrow> ec_ok (ec_Delete cl ns svc c)"
  by (cases "map_of (ec_endpoints c) cl")
    (simp_all add: ec_Delete_def Let_def ec_ok_put ec_ok_del ec_ok_inner)

lemma ec_ok_DeleteCluster: "ec_ok c \<Longrightarrow> ec_ok (ec_DeleteCluster cl c)"
  by (simp add: ec_DeleteCluster_def ec_ok_def)

lemma ec_abs_New: "ec_abs NewRemoteEndpointCache = (\<lambda>_. Map.empty)"
  by (simp add: ec_abs_def NewRemoteEndpointCache_def fun_eq_iff)

lemma ec_abs_Update:
  "ec_abs (ec_Update cl (Some e) c) =
     (ec_abs c)(cl := (ec_abs c cl)(serviceKey (se_Namespace e) (se_ServiceName e) \<mapsto> e))"
  by (auto simp: ec_abs_def ec_Update_def Let_def fun_eq_iff update_conv' split: option.splits)

lemma ec_abs_Delete:
  "ec_abs (ec_Delete cl ns svc c) = (ec_abs c)(cl := (ec_abs c cl)(serviceKey ns svc := None))"
proof (intro ext)
  fix cl' k
  show "ec_abs (ec_Delete cl ns svc c) cl' k
        = ((ec_abs c)(cl := (ec_abs c cl)(serviceKey ns svc := None))) cl' k"
  proof (cases "map_of (ec_endpoints c) cl")
    case None
    then show ?thesis by (auto simp: ec_abs_def ec_Delete_def)
  next
    case (Some m)
    have "map_of (gm_del (serviceKey ns svc) m) k = ((map_of m)(serviceKey ns svc := None)) k"
      by (simp add: delete_conv')
    then show ?thesis using Some
      by (cases "gm_del (serviceKey ns svc) m = []")
        (auto simp: ec_abs_def ec_Delete_def Let_def update_conv' delete_conv' split: if_splits)
  qed
qed

lemma ec_abs_DeleteCluster: "ec_abs (ec_DeleteCluster cl c) = (ec_abs c)(cl := Map.empty)"
  by (auto simp: ec_abs_def ec_DeleteCluster_def fun_eq_iff delete_conv')

lemma fold_collect_map:
  "fold (\<lambda>(_, m) result. case map_of m k of None \<Rightarrow> result | Some ep \<Rightarrow> result @ [ep]) xs acc
   = acc @ List.map_filter (\<lambda>(_, m). map_of m k) xs"
  by (induction xs arbitrary: acc) (auto simp: map_filter_simps split: option.splits)

lemma ec_GetForService_filter:
  "ec_GetForService ns svc c = List.map_filter (\<lambda>(_, m). map_of m (serviceKey ns svc)) (ec_endpoints c)"
  by (simp add: ec_GetForService_def Let_def fold_collect_map)

lemma set_GetForService:
  assumes "ec_ok c"
  shows "set (ec_GetForService ns svc c) = {e. \<exists>cl. ec_abs c cl (serviceKey ns svc) = Some e}"
proof -
  have "set (ec_GetForService ns svc c)
        = {e. \<exists>cl m. (cl, m) \<in> set (ec_endpoints c) \<and> map_of m (serviceKey ns svc) = Some e}"
    unfolding ec_GetForService_filter map_filter_def by force
  also have "\<dots> = {e. \<exists>cl. ec_abs c cl (serviceKey ns svc) = Some e}"
    using assms by (auto simp: ec_ok_def ec_abs_def gm_mem_iff split: option.splits)
  finally show ?thesis .
qed

lemma gm_get_ec_collect:
  assumes "gm_ok m"
  shows "gm_get [] (ec_collect m res) k = gm_get [] res k @ (case map_of m k of None \<Rightarrow> [] | Some e \<Rightarrow> [e])"
  using assms
proof (induction m arbitrary: res)
  case Nil
  then show ?case by (simp add: ec_collect_def)
next
  case (Cons kv m)
  obtain k' e where kv: "kv = (k', e)" by (cases kv)
  with Cons.prems have "gm_ok m" and "map_of m k' = None"
    by (auto simp: gm_ok_def map_of_eq_None_iff)
  then show ?case
    using Cons.IH [of "gm_put k' (gm_get [] res k' @ [e]) res"]
    by (auto simp: kv ec_collect_def gm_get_put)
qed

lemma gm_get_GetAll:
  assumes "gm_all (\<lambda>_ m. gm_ok m) xs"
  shows "gm_get [] (fold (\<lambda>(_, m). ec_collect m) xs res) k
         = gm_get [] res k @ List.map_filter (\<lambda>(_, m). map_of m k) xs"
  using assms
  by (induction xs arbitrary: res)
    (auto simp: gm_all_def gm_get_ec_collect map_filter_simps split: option.splits)

subsection \<open>The contract of an endpoint store\<close>

text \<open>
  \<open>look s c k\<close> is what the store \<open>s\<close> holds for cluster \<open>c\<close> under key \<open>k\<close>; \<open>mk\<close> builds the key of
  a namespace and a name, and \<open>key\<close> is the key an endpoint message is stored under.
\<close>

locale endpoint_store =
  fixes look :: "'s \<Rightarrow> 'c \<Rightarrow> 'k \<Rightarrow> 'e option"
    and upd :: "'c \<Rightarrow> 'e \<Rightarrow> 's \<Rightarrow> 's"
    and del :: "'c \<Rightarrow> 'n \<Rightarrow> 'n \<Rightarrow> 's \<Rightarrow> 's"
    and dropc :: "'c \<Rightarrow> 's \<Rightarrow> 's"
    and services :: "'n \<Rightarrow> 'n \<Rightarrow> 's \<Rightarrow> 'e list"
    and ok :: "'s \<Rightarrow> bool"
    and mk :: "'n \<Rightarrow> 'n \<Rightarrow> 'k"
    and key :: "'e \<Rightarrow> 'k"
  assumes look_upd: "look (upd c e s) = (look s)(c := (look s c)(key e \<mapsto> e))"
    and look_del: "look (del c n m s) = (look s)(c := (look s c)(mk n m := None))"
    and look_dropc: "look (dropc c s) = (look s)(c := Map.empty)"
    and ok_upd: "ok s \<Longrightarrow> ok (upd c e s)"
    and ok_del: "ok s \<Longrightarrow> ok (del c n m s)"
    and ok_dropc: "ok s \<Longrightarrow> ok (dropc c s)"
    and services_look: "ok s \<Longrightarrow> set (services n m s) = {e. \<exists>c. look s c (mk n m) = Some e}"
begin

lemma isolation:
  assumes "c' \<noteq> c"
  shows "look (upd c e s) c' = look s c' \<and> look (del c n m s) c' = look s c' \<and> look (dropc c s) c' = look s c'"
  using assms by (simp add: look_upd look_del look_dropc)

lemma services_upd: "ok s \<Longrightarrow> key e = mk n m \<Longrightarrow> e \<in> set (services n m (upd c e s))"
  by (auto simp: services_look ok_upd look_upd)

lemma services_dropc:
  "ok s \<Longrightarrow> set (services n m (dropc c s)) = {e. \<exists>c'. c' \<noteq> c \<and> look s c' (mk n m) = Some e}"
  by (auto simp: services_look ok_dropc look_dropc split: if_splits)

lemma services_del:
  "ok s \<Longrightarrow> set (services n m (del c n m s)) = set (services n m (dropc c s))"
  by (auto simp: services_look ok_del ok_dropc look_del look_dropc split: if_splits)

end

interpretation ecs: endpoint_store ec_abs "\<lambda>c e. ec_Update c (Some e)" ec_Delete ec_DeleteCluster
  ec_GetForService ec_ok serviceKey "\<lambda>e. serviceKey (se_Namespace e) (se_ServiceName e)"
  by unfold_locales
    (simp_all only: ec_abs_Update ec_abs_Delete ec_abs_DeleteCluster ec_ok_Update ec_ok_Delete
      ec_ok_DeleteCluster set_GetForService)

subsection \<open>Properties\<close>

text \<open>
  C22. The cache implements its contract: \<open>Update\<close> stores the message under its cluster and its
  "namespace/service" key and touches nothing else, \<open>Delete\<close> removes exactly that entry,
  \<open>DeleteCluster\<close> removes exactly one cluster, and every operation keeps the key maps
  well-formed and free of empty cluster maps.
\<close>
theorem ec_operations_refine:
  assumes "ec_ok c"
  shows "ec_abs (ec_Update cl (Some e) c) =
      (ec_abs c)(cl := (ec_abs c cl)(serviceKey (se_Namespace e) (se_ServiceName e) \<mapsto> e)) \<and>
    ec_abs (ec_Delete cl ns svc c) = (ec_abs c)(cl := (ec_abs c cl)(serviceKey ns svc := None)) \<and>
    ec_abs (ec_DeleteCluster cl c) = (ec_abs c)(cl := Map.empty) \<and>
    ec_ok (ec_Update cl (Some e) c) \<and> ec_ok (ec_Delete cl ns svc c) \<and> ec_ok (ec_DeleteCluster cl c)"
  using assms by (simp add: ecs.look_upd ecs.look_del ecs.look_dropc ecs.ok_upd ecs.ok_del ecs.ok_dropc)

theorem ec_operations_refine_witness:
  "ec_ok (ec_Delete ''west'' ''default'' ''web''
     (ec_Update ''west'' (Some \<lparr>se_ServiceName = ''web'', se_Namespace = ''default'', se_ClusterName = '''',
        se_Region = '''', se_Zone = '''', se_Endpoints = []\<rparr>) NewRemoteEndpointCache))"
  using ec_operations_refine [OF ec_ok_Update [OF ec_ok_New]] by simp

text \<open>
  \<open>GetForService\<close> returns exactly the messages the clusters hold for the service, and
  \<open>GetAll\<close> groups the cache by service: its list for a service is what \<open>GetForService\<close> returns.
\<close>
lemma ec_queries_agree:
  assumes "ec_ok c"
  shows "set (ec_GetForService ns svc c) = {e. \<exists>cl. ec_abs c cl (serviceKey ns svc) = Some e} \<and>
    gm_get [] (ec_GetAll c) (serviceKey ns svc) = ec_GetForService ns svc c"
proof
  have "gm_all (\<lambda>_ m. gm_ok m) (ec_endpoints c)"
    using assms unfolding ec_ok_def by (auto elim: gm_all_mono)
  then show "gm_get [] (ec_GetAll c) (serviceKey ns svc) = ec_GetForService ns svc c"
    using gm_get_GetAll [of "ec_endpoints c" "[]" "serviceKey ns svc"]
    by (simp add: ec_GetAll_def ec_GetForService_filter gm_get_notin)
qed (rule ecs.services_look [OF assms])

end
