(* ===== verification/Fed_Server.thy ===== *)
theory Fed_Server
  imports Fed_Types Endpoint_Cache
begin

section \<open>The federation server (\<open>internal/controller/federation/server.go\<close>)\<close>

text \<open>
  The state of the federation server and its handlers as state transformers. A handler returns
  the new state even when it fails, because the source mutates the state before it returns an
  error. Panics of the source (a nil \<open>LocalMember\<close>, slice bounds) are error values.

  What comes from outside is an argument: the clock (\<open>now\<close>), fresh UUIDs, whether a stream
  operation succeeds, and \<open>fed_env\<close>, the JSON and protobuf codecs. A registered callback is a
  number; \<open>sv_notified\<close> is the sequence of calls the server has started. Not modelled: locking,
  the semaphore that bounds concurrent callbacks, the rate limiter, logging.
\<close>

subsection \<open>Environment, errors and state\<close>

text \<open>A decoded JSON value: an object, or anything else, which the code only copies.\<close>

datatype json = JObject "(string \<times> json) list" | JOther string

record fed_env =
  env_jsonUnmarshal :: "bytes \<Rightarrow> (string, json) gomap option"
  env_jsonMarshal :: "(string, json) gomap \<Rightarrow> bytes option"
  env_protoUnmarshal :: "bytes \<Rightarrow> ServiceEndpoints option"

datatype fed_error =
    ErrUnmarshalLocal
  | ErrUnmarshalRemote
  | ErrMarshal
  | ErrConflictNotFound string
  | ErrNoPeerOutbox string
  | ErrStream
  | InvalidArgument
  | PermissionDenied
  | FailedPrecondition
  | ResourceExhausted
  | Internal
  | Panic_NilDereference
  | Panic_SliceBounds

definition ProtocolVersion :: int where "ProtocolVersion = 1"
definition fullSyncCooldown :: duration where "fullSyncCooldown = sec 30"

text \<open>The capacity of the channel \<open>SyncStream\<close> makes for a peer.\<close>

definition outboxCapacity :: nat where "outboxCapacity = 1000"

record Server =
  sv_config :: Config
  sv_vectorClock :: VectorClock
  sv_peerStates :: "(string, PeerState) gomap"
  sv_resources :: "(string, TrackedResource) gomap"
  sv_tombstones :: "(string, Tombstone) gomap"
  sv_peerOutboxes :: "(string, ChangeEntry list) gomap"
  sv_conflicts :: "(string, ConflictInfo) gomap"
  sv_stats :: SyncStats
  sv_activeStreams :: "(string, bool) gomap"
  sv_fullSyncCooldowns :: "(string, gotime) gomap"
  sv_endpointCache :: RemoteEndpointCache
  sv_changeCallbacks :: "nat list"
  sv_agentCount :: int
  sv_notified :: "(nat \<times> ResourceKey \<times> ChangeType \<times> bytes) list"

definition NewServer :: "Config option \<Rightarrow> Server" where
  "NewServer config =
     (let cfg = (case config of None \<Rightarrow> DefaultConfig | Some c \<Rightarrow> c);
          vc = (case cf_LocalMember cfg of
                  None \<Rightarrow> NewVectorClock
                | Some m \<Rightarrow> fst (vc_Increment (pi_Name m) NewVectorClock))
      in \<lparr>sv_config = cfg, sv_vectorClock = vc, sv_peerStates = [], sv_resources = [],
          sv_tombstones = [], sv_peerOutboxes = [], sv_conflicts = [], sv_stats = SyncStats_zero,
          sv_activeStreams = [], sv_fullSyncCooldowns = [],
          sv_endpointCache = NewRemoteEndpointCache, sv_changeCallbacks = [], sv_agentCount = 0,
          sv_notified = []\<rparr>)"

subsection \<open>Helpers\<close>

definition updatePeerState :: "string \<Rightarrow> (PeerState \<Rightarrow> PeerState) \<Rightarrow> Server \<Rightarrow> Server" where
  "updatePeerState peerName updateFn s =
     s\<lparr>sv_peerStates :=
         gm_put peerName (updateFn (gm_get PeerState_zero (sv_peerStates s) peerName)) (sv_peerStates s)\<rparr>"

definition notifyChange :: "ResourceKey \<Rightarrow> ChangeType \<Rightarrow> bytes \<Rightarrow> Server \<Rightarrow> Server" where
  "notifyChange key change data s =
     s\<lparr>sv_notified := sv_notified s @ map (\<lambda>cb. (cb, key, change, data)) (sv_changeCallbacks s)\<rparr>"

definition OnChange :: "nat \<Rightarrow> Server \<Rightarrow> Server" where
  "OnChange callback s = s\<lparr>sv_changeCallbacks := sv_changeCallbacks s @ [callback]\<rparr>"

definition SetAgentCount :: "int \<Rightarrow> Server \<Rightarrow> Server" where
  "SetAgentCount n s = s\<lparr>sv_agentCount := n\<rparr>"

definition applyServiceEndpoints :: "fed_env \<Rightarrow> bytes \<Rightarrow> string \<Rightarrow> Server \<Rightarrow> Server" where
  "applyServiceEndpoints env data peerName s =
     (case env_protoUnmarshal env data of
        None \<Rightarrow> s
      | Some svcEndpoints \<Rightarrow>
          (let cluster = (if se_ClusterName svcEndpoints = '''' then peerName
                          else se_ClusterName svcEndpoints)
           in s\<lparr>sv_endpointCache := ec_Update cluster (Some svcEndpoints) (sv_endpointCache s)\<rparr>))"

definition deleteServiceEndpoints :: "string \<Rightarrow> string \<Rightarrow> string \<Rightarrow> Server \<Rightarrow> Server" where
  "deleteServiceEndpoints namespace name peerName s =
     s\<lparr>sv_endpointCache := ec_Delete peerName namespace name (sv_endpointCache s)\<rparr>"

text \<open>The counters of \<open>SyncStats\<close> are \<open>int64\<close>.\<close>

definition stat_received :: "Server \<Rightarrow> Server" where
  "stat_received s = s\<lparr>sv_stats := (sv_stats s)
     \<lparr>st_TotalChangesReceived := wrap64 (st_TotalChangesReceived (sv_stats s) + 1)\<rparr>\<rparr>"

definition stat_sent :: "Server \<Rightarrow> Server" where
  "stat_sent s = s\<lparr>sv_stats := (sv_stats s)
     \<lparr>st_TotalChangesSent := wrap64 (st_TotalChangesSent (sv_stats s) + 1)\<rparr>\<rparr>"

definition stat_detected :: "Server \<Rightarrow> Server" where
  "stat_detected s = s\<lparr>sv_stats := (sv_stats s)
     \<lparr>st_ConflictsDetected := wrap64 (st_ConflictsDetected (sv_stats s) + 1)\<rparr>\<rparr>"

definition stat_resolved :: "Server \<Rightarrow> Server" where
  "stat_resolved s = s\<lparr>sv_stats := (sv_stats s)
     \<lparr>st_ConflictsResolved := wrap64 (st_ConflictsResolved (sv_stats s) + 1)\<rparr>\<rparr>"

definition stat_fullSync :: "Server \<Rightarrow> Server" where
  "stat_fullSync s = s\<lparr>sv_stats := (sv_stats s)
     \<lparr>st_FullSyncs := wrap64 (st_FullSyncs (sv_stats s) + 1)\<rparr>\<rparr>"

subsection \<open>Conflicts\<close>

function mergeMaps :: "(string, json) gomap \<Rightarrow> (string, json) gomap \<Rightarrow> (string, json) gomap" where
  "mergeMaps base overlay =
     fold (\<lambda>(k, v) result.
             case map_of result k of
               Some (JObject baseMap) \<Rightarrow>
                 (case v of
                    JObject overlayMap \<Rightarrow> gm_put k (JObject (mergeMaps baseMap overlayMap)) result
                  | JOther _ \<Rightarrow> gm_put k v result)
             | _ \<Rightarrow> gm_put k v result)
       overlay (gm_copy [] base)"
  by pat_completeness auto
termination
proof (relation "measure (\<lambda>(_, overlay). size (JObject overlay))", simp)
  fix base overlay :: "(string, json) gomap" and x k v result baseMap om and y a b
  show "((baseMap, om), (base, overlay)) \<in> measure (\<lambda>(_, overlay). size (JObject overlay))"
    if "x \<in> set overlay" "(k, v) = x" "v = JObject om"
    using that size_list_estimation' [of x overlay "size (JObject om)" "size_prod (\<lambda>_. 0) size"]
    by auto
qed

definition mergeLabelMaps :: "labels \<Rightarrow> labels \<Rightarrow> labels" where
  "mergeLabelMaps base overlay =
     (if base = None \<and> overlay = None then None
      else Some (gm_copy (gm_copy [] (labels_map base)) (labels_map overlay)))"

definition mergeResources ::
  "fed_env \<Rightarrow> gotime \<Rightarrow> Config \<Rightarrow> TrackedResource \<Rightarrow> TrackedResource \<Rightarrow> fed_error + TrackedResource" where
  "mergeResources env now cfg local remote =
     (case env_jsonUnmarshal env (tr_Data local) of
        None \<Rightarrow> Inl ErrUnmarshalLocal
      | Some localData \<Rightarrow>
     (case env_jsonUnmarshal env (tr_Data remote) of
        None \<Rightarrow> Inl ErrUnmarshalRemote
      | Some remoteData \<Rightarrow>
     (case env_jsonMarshal env (mergeMaps localData remoteData) of
        None \<Rightarrow> Inl ErrMarshal
      | Some mergedData \<Rightarrow>
     (case cf_LocalMember cfg of
        None \<Rightarrow> Inl Panic_NilDereference
      | Some me \<Rightarrow>
          (let mergedVC = fst (vc_Increment (pi_Name me)
                 (vc_MergeMap (tr_VectorClock remote) (NewVectorClockFromMap (tr_VectorClock local))))
           in Inr \<lparr>tr_Key = tr_Key local, tr_ResourceVersion = '''', tr_Hash = '''',
                    tr_Data = mergedData, tr_VectorClock = vc_ToMap mergedVC,
                    tr_OriginMember = pi_Name me, tr_LastModified = now,
                    tr_Labels = mergeLabelMaps (tr_Labels local) (tr_Labels remote)\<rparr>)))))"

text \<open>The resource an incoming change describes (built alike in both handlers).\<close>

definition change_key :: "ResourceChange \<Rightarrow> ResourceKey" where
  "change_key change =
     \<lparr>rk_Kind = rc_ResourceType change, rk_Namespace = rc_Namespace change, rk_Name = rc_Name change\<rparr>"

definition change_resource :: "ResourceKey \<Rightarrow> ResourceChange \<Rightarrow> TrackedResource" where
  "change_resource key change =
     \<lparr>tr_Key = key, tr_ResourceVersion = rc_ResourceVersion change, tr_Hash = rc_ResourceHash change,
      tr_Data = rc_ResourceData change, tr_VectorClock = rc_VectorClock change,
      tr_OriginMember = rc_OriginMember change, tr_LastModified = rc_Timestamp change,
      tr_Labels = rc_Labels change\<rparr>"

definition handleConflict ::
  "fed_env \<Rightarrow> gotime \<Rightarrow> ResourceKey \<Rightarrow> TrackedResource \<Rightarrow> ResourceChange \<Rightarrow> Server
   \<Rightarrow> Server \<times> fed_error option" where
  "handleConflict env now key local remote s0 =
     (let keyStr = rk_String key;
          s = stat_detected s0;
          remoteResource = change_resource key remote;
          conflict = \<lparr>ci_Key = key, ci_LocalVersion = local, ci_RemoteVersion = remoteResource,
                      ci_DetectedAt = now, ci_Resolution = ConflictResolutionNone,
                      ci_RequiresManual = False\<rparr>;
          manual = conflict\<lparr>ci_RequiresManual := True, ci_Resolution := ConflictResolutionPendingManual\<rparr>;
          strategy = cf_ConflictResolutionStrategy (sv_config s)
      in if strategy = StrategyLastWriterWins then
           (if tr_LastModified remoteResource > tr_LastModified local
            then (stat_resolved (notifyChange key ChangeTypeUpdated (tr_Data remoteResource)
                    (s\<lparr>sv_resources := gm_put keyStr remoteResource (sv_resources s)\<rparr>)), None)
            else (stat_resolved s, None))
         else if strategy = ''Merge'' then
           (case mergeResources env now (sv_config s) local remoteResource of
              Inl Panic_NilDereference \<Rightarrow> (s, Some Panic_NilDereference)
            | Inl err \<Rightarrow> (s\<lparr>sv_conflicts := gm_put keyStr manual (sv_conflicts s)\<rparr>, Some err)
            | Inr merged \<Rightarrow>
                (notifyChange key ChangeTypeUpdated (tr_Data merged)
                   (stat_resolved (s\<lparr>sv_resources := gm_put keyStr merged (sv_resources s)\<rparr>)), None))
         else if strategy = ''Manual'' then
           (s\<lparr>sv_conflicts := gm_put keyStr manual (sv_conflicts s)\<rparr>, None)
         else (s, None))"

subsection \<open>Incoming messages\<close>

text \<open>The switch over the change type (\<open>handleResourceChange\<close> from "Apply the change" on).\<close>

definition applyChange ::
  "fed_env \<Rightarrow> string \<Rightarrow> ResourceChange \<Rightarrow> Server \<Rightarrow> Server" where
  "applyChange env peerName change s =
     (let key = change_key change;
          keyStr = rk_String key;
          stored = s\<lparr>sv_resources := gm_put keyStr (change_resource key change) (sv_resources s),
                     sv_tombstones := gm_del keyStr (sv_tombstones s)\<rparr>;
          stored' = (if rc_ResourceType change = ''ServiceEndpoints''
                     then applyServiceEndpoints env (rc_ResourceData change) peerName stored else stored);
          tombstone = \<lparr>tb_Key = key, tb_DeletionTime = rc_Timestamp change,
                       tb_VectorClock = rc_VectorClock change, tb_OriginMember = rc_OriginMember change\<rparr>;
          removed = s\<lparr>sv_resources := gm_del keyStr (sv_resources s),
                      sv_tombstones := gm_put keyStr tombstone (sv_tombstones s)\<rparr>;
          removed' = (if rc_ResourceType change = ''ServiceEndpoints''
                      then deleteServiceEndpoints (rc_Namespace change) (rc_Name change) peerName removed
                      else removed)
      in case rc_ChangeType change of
           CHANGE_TYPE_UNSPECIFIED \<Rightarrow> s
         | PB_CREATED \<Rightarrow> stat_received (notifyChange key ChangeTypeCreated (rc_ResourceData change) stored')
         | PB_UPDATED \<Rightarrow> stat_received (notifyChange key ChangeTypeUpdated (rc_ResourceData change) stored')
         | PB_DELETED \<Rightarrow> stat_received (notifyChange key ChangeTypeDeleted '''' removed')
         | PB_UNKNOWN _ \<Rightarrow> stat_received s)"

definition handleResourceChange ::
  "fed_env \<Rightarrow> gotime \<Rightarrow> string \<Rightarrow> ResourceChange \<Rightarrow> Server \<Rightarrow> Server \<times> fed_error option" where
  "handleResourceChange env now peerName change s0 =
     (let key = change_key change;
          keyStr = rk_String key;
          s = s0\<lparr>sv_vectorClock := vc_MergeMap (rc_VectorClock change) (sv_vectorClock s0)\<rparr>
      in case map_of (sv_resources s) keyStr of
           Some existingRes \<Rightarrow>
             (let existingVC = NewVectorClockFromMap (tr_VectorClock existingRes);
                  incomingVC = NewVectorClockFromMap (rc_VectorClock change)
              in if Concurrent existingVC incomingVC then handleConflict env now key existingRes change s
                 else if HappenedBefore incomingVC existingVC then (s, None)
                 else (applyChange env peerName change s, None))
         | None \<Rightarrow> (applyChange env peerName change s, None))"

definition handleSyncAck :: "gotime \<Rightarrow> string \<Rightarrow> SyncAck \<Rightarrow> Server \<Rightarrow> Server" where
  "handleSyncAck now peerName ack =
     updatePeerState peerName
       (\<lambda>st. st\<lparr>ps_VectorClock := Some (NewVectorClockFromMap (ak_VectorClock ack)), ps_LastSyncTime := now\<rparr>)"

definition handleHeartbeat :: "gotime \<Rightarrow> string \<Rightarrow> Heartbeat \<Rightarrow> Server \<Rightarrow> Server" where
  "handleHeartbeat now peerName heartbeat =
     updatePeerState peerName
       (\<lambda>st. st\<lparr>ps_VectorClock := Some (NewVectorClockFromMap (hb_VectorClock heartbeat)),
                ps_LastSeen := now, ps_Healthy := True, ps_AgentCount := hb_AgentCount heartbeat\<rparr>)"

text \<open>\<open>handleConflictNotification\<close> only logs.\<close>

definition handleConflictNotification :: "string \<Rightarrow> ResourceKey \<Rightarrow> Server \<Rightarrow> Server" where
  "handleConflictNotification peerName key s = s"

text \<open>One iteration of the loop of \<open>handleIncomingMessages\<close>, after a message has been received.\<close>

definition handleIncomingMessage ::
  "fed_env \<Rightarrow> gotime \<Rightarrow> string \<Rightarrow> SyncMessage \<Rightarrow> Server \<Rightarrow> Server \<times> fed_error option" where
  "handleIncomingMessage env now peerName msg s0 =
     (let s = updatePeerState peerName (\<lambda>st. st\<lparr>ps_LastSeen := now\<rparr>) s0
      in case msg of
           MsgChange change \<Rightarrow> handleResourceChange env now peerName change s
         | MsgAck ack \<Rightarrow> (handleSyncAck now peerName ack s, None)
         | MsgHeartbeat hb \<Rightarrow> (handleHeartbeat now peerName hb s, None)
         | MsgConflict key \<Rightarrow> (handleConflictNotification peerName key s, None)
         | MsgHandshake _ \<Rightarrow> (s, None))"

subsection \<open>Streams\<close>

text \<open>
  \<open>SyncStream\<close> up to the start of its two goroutines. \<open>recv\<close> is the first message (\<open>None\<close> when
  receiving fails) and \<open>sendOk\<close> says whether sending our handshake succeeds. On success the
  result is our handshake. The deferred update of the peer state runs on every exit after it
  has been registered, a panic included.
\<close>

definition SyncStream_open ::
  "gotime \<Rightarrow> SyncMessage option \<Rightarrow> bool \<Rightarrow> Server \<Rightarrow> Server \<times> (fed_error + SyncHandshake)" where
  "SyncStream_open now recv sendOk s =
     (case recv of
        Some (MsgHandshake handshake) \<Rightarrow>
          (let cfg = sv_config s;
               peerName = hs_MemberName handshake;
               s1 = updatePeerState peerName
                      (\<lambda>st. st\<lparr>ps_Connected := True, ps_Healthy := True, ps_LastSeen := now,
                               ps_VectorClock := Some (NewVectorClockFromMap (hs_VectorClock handshake))\<rparr>) s;
               closed = updatePeerState peerName (\<lambda>st. st\<lparr>ps_Connected := False\<rparr>) s1
           in if hs_FederationId handshake \<noteq> cf_FederationID cfg then (s, Inl PermissionDenied)
              else if hs_ProtocolVersion handshake \<noteq> ProtocolVersion then (s, Inl FailedPrecondition)
              else case cf_LocalMember cfg of
                     None \<Rightarrow> (closed, Inl Panic_NilDereference)
                   | Some me \<Rightarrow>
                       if sendOk
                       then (s1\<lparr>sv_peerOutboxes := gm_put peerName [] (sv_peerOutboxes s1),
                                sv_activeStreams := gm_put peerName True (sv_activeStreams s1)\<rparr>,
                             Inr \<lparr>hs_FederationId = cf_FederationID cfg, hs_MemberName = pi_Name me,
                                  hs_Region = pi_Region me, hs_Zone = pi_Zone me,
                                  hs_VectorClock = vc_ToMap (sv_vectorClock s1),
                                  hs_ProtocolVersion = ProtocolVersion, hs_Features = [],
                                  hs_Compression = cf_CompressionEnabled cfg\<rparr>)
                       else (closed, Inl Internal))
      | _ \<Rightarrow> (s, Inl InvalidArgument))"

text \<open>The deferred calls of \<open>SyncStream\<close>, last registered first.\<close>

definition SyncStream_close :: "string \<Rightarrow> Server \<Rightarrow> Server" where
  "SyncStream_close peerName s =
     updatePeerState peerName (\<lambda>st. st\<lparr>ps_Connected := False\<rparr>)
       (s\<lparr>sv_activeStreams := gm_del peerName (sv_activeStreams s),
          sv_peerOutboxes := gm_del peerName (sv_peerOutboxes s)\<rparr>)"

definition changeEntryToProto :: "ChangeEntry \<Rightarrow> ResourceChange" where
  "changeEntryToProto entry =
     (let change0 = \<lparr>rc_ChangeId = ce_ID entry, rc_VectorClock = ce_VectorClock entry,
            rc_ChangeType = (case ce_Type entry of
                               ChangeTypeCreated \<Rightarrow> PB_CREATED
                             | ChangeTypeUpdated \<Rightarrow> PB_UPDATED
                             | ChangeTypeDeleted \<Rightarrow> PB_DELETED),
            rc_ResourceType = rk_Kind (ce_Key entry), rc_Namespace = rk_Namespace (ce_Key entry),
            rc_Name = rk_Name (ce_Key entry), rc_ResourceVersion = '''', rc_ResourceData = '''',
            rc_ResourceHash = '''', rc_Timestamp = unix_nano (ce_Timestamp entry),
            rc_OriginMember = '''', rc_Labels = None\<rparr>;
          change1 = (case ce_Resource entry of
                       None \<Rightarrow> change0
                     | Some r \<Rightarrow> change0\<lparr>rc_ResourceData := tr_Data r, rc_ResourceHash := tr_Hash r,
                                         rc_ResourceVersion := tr_ResourceVersion r,
                                         rc_OriginMember := tr_OriginMember r,
                                         rc_Labels := tr_Labels r\<rparr>)
      in case ce_Tombstone entry of
           None \<Rightarrow> change1
         | Some t \<Rightarrow> change1\<lparr>rc_OriginMember := tb_OriginMember t\<rparr>)"

text \<open>
  The two branches of the loop of \<open>handleOutgoingMessages\<close>. The first is the heartbeat. The
  second takes the oldest entry from the peer's channel: \<open>None\<close> when there is nothing to take,
  otherwise the new state and the message sent, if any.
\<close>

definition outgoingHeartbeat :: "gotime \<Rightarrow> string \<Rightarrow> Server \<Rightarrow> fed_error + Heartbeat" where
  "outgoingHeartbeat now peerName s =
     (case map_of (sv_peerOutboxes s) peerName of
        None \<Rightarrow> Inl (ErrNoPeerOutbox peerName)
      | Some peerCh \<Rightarrow>
          Inr \<lparr>hb_VectorClock = vc_ToMap (sv_vectorClock s), hb_Timestamp = unix_nano now,
               hb_PendingChanges = SafeIntToInt32 (int (length peerCh)), hb_AgentCount = sv_agentCount s\<rparr>)"

definition outgoingChange ::
  "string \<Rightarrow> bool \<Rightarrow> Server \<Rightarrow> (Server \<times> ResourceChange option \<times> fed_error option) option" where
  "outgoingChange peerName sendOk s =
     (case map_of (sv_peerOutboxes s) peerName of
        Some (change # rest) \<Rightarrow>
          (let s' = s\<lparr>sv_peerOutboxes := gm_put peerName rest (sv_peerOutboxes s)\<rparr>
           in if (case ce_Resource change of None \<Rightarrow> False | Some r \<Rightarrow> tr_OriginMember r = peerName)
              then Some (s', None, None)
              else if (case ce_Tombstone change of None \<Rightarrow> False | Some t \<Rightarrow> tb_OriginMember t = peerName)
              then Some (s', None, None)
              else if sendOk then Some (stat_sent s', Some (changeEntryToProto change), None)
              else Some (s', None, Some ErrStream))
      | _ \<Rightarrow> None)"

subsection \<open>Local changes\<close>

text \<open>\<open>RecordLocalChange\<close> reads the clock for the entry (\<open>t1\<close>) and again for the stored value (\<open>t2\<close>).\<close>

definition fanOut :: "ChangeEntry \<Rightarrow> (string, ChangeEntry list) gomap \<Rightarrow> (string, ChangeEntry list) gomap" where
  "fanOut entry outboxes =
     map (\<lambda>(peer, ch). (peer, if length ch < outboxCapacity then ch @ [entry] else ch)) outboxes"

definition RecordLocalChange ::
  "gotime \<Rightarrow> gotime \<Rightarrow> string \<Rightarrow> ResourceKey \<Rightarrow> ChangeType \<Rightarrow> bytes \<Rightarrow> labels \<Rightarrow> Server
   \<Rightarrow> Server \<times> fed_error option" where
  "RecordLocalChange t1 t2 uuid key changeType data labels s0 =
     (case cf_LocalMember (sv_config s0) of
        None \<Rightarrow> (s0, Some Panic_NilDereference)
      | Some me \<Rightarrow>
          (let s = s0\<lparr>sv_vectorClock := fst (vc_Increment (pi_Name me) (sv_vectorClock s0))\<rparr>;
               clock = vc_ToMap (sv_vectorClock s);
               entry = \<lparr>ce_ID = uuid, ce_Key = key, ce_Type = changeType, ce_Resource = None,
                        ce_Tombstone = None, ce_VectorClock = clock, ce_Timestamp = t1,
                        ce_Acknowledged = []\<rparr>;
               keyStr = rk_String key;
               tombstone = \<lparr>tb_Key = key, tb_DeletionTime = t2, tb_VectorClock = clock,
                            tb_OriginMember = pi_Name me\<rparr>;
               resource = \<lparr>tr_Key = key, tr_ResourceVersion = '''', tr_Hash = '''', tr_Data = data,
                           tr_VectorClock = clock, tr_OriginMember = pi_Name me,
                           tr_LastModified = t2, tr_Labels = labels\<rparr>
           in if changeType = ChangeTypeDeleted
              then (s\<lparr>sv_tombstones := gm_put keyStr tombstone (sv_tombstones s),
                      sv_resources := gm_del keyStr (sv_resources s),
                      sv_peerOutboxes := fanOut (entry\<lparr>ce_Tombstone := Some tombstone\<rparr>) (sv_peerOutboxes s)\<rparr>,
                    None)
              else (s\<lparr>sv_resources := gm_put keyStr resource (sv_resources s),
                      sv_tombstones := gm_del keyStr (sv_tombstones s),
                      sv_peerOutboxes := fanOut (entry\<lparr>ce_Resource := Some resource\<rparr>) (sv_peerOutboxes s)\<rparr>,
                    None)))"

definition ResolveConflict :: "string \<Rightarrow> bool \<Rightarrow> Server \<Rightarrow> Server \<times> fed_error option" where
  "ResolveConflict keyStr useLocal s =
     (case map_of (sv_conflicts s) keyStr of
        None \<Rightarrow> (s, Some (ErrConflictNotFound keyStr))
      | Some conflict \<Rightarrow>
          (let s' = (if useLocal then s
                     else notifyChange (ci_Key conflict) ChangeTypeUpdated (tr_Data (ci_RemoteVersion conflict))
                            (s\<lparr>sv_resources := gm_put keyStr (ci_RemoteVersion conflict) (sv_resources s)\<rparr>))
           in (stat_resolved (s'\<lparr>sv_conflicts := gm_del keyStr (sv_conflicts s')\<rparr>), None)))"

text \<open>One tick of \<open>cleanupTombstones\<close>.\<close>

definition cleanupTombstones :: "gotime \<Rightarrow> Server \<Rightarrow> Server" where
  "cleanupTombstones now s =
     fold (\<lambda>(key, tombstone) st.
             if time_sub now (tb_DeletionTime tombstone) > cf_TombstoneTTL (sv_config st)
             then st\<lparr>sv_tombstones := gm_del key (sv_tombstones st)\<rparr> else st)
       (sv_tombstones s) s"

subsection \<open>Full synchronisation\<close>

definition resourceMatchesFilter :: "TrackedResource \<Rightarrow> string list \<Rightarrow> string list \<Rightarrow> bool" where
  "resourceMatchesFilter res resourceTypes namespaces =
     (if length resourceTypes > 0 \<and> \<not> list_ex (\<lambda>rt. rk_Kind (tr_Key res) = rt) resourceTypes then False
      else if length namespaces > 0 \<and> \<not> list_ex (\<lambda>ns. rk_Namespace (tr_Key res) = ns) namespaces then False
      else True)"

text \<open>\<open>uuids n\<close> is the n-th fresh UUID.\<close>

definition fullSyncChange :: "string \<Rightarrow> TrackedResource \<Rightarrow> ResourceChange" where
  "fullSyncChange uuid res =
     \<lparr>rc_ChangeId = uuid, rc_VectorClock = tr_VectorClock res, rc_ChangeType = PB_UPDATED,
      rc_ResourceType = rk_Kind (tr_Key res), rc_Namespace = rk_Namespace (tr_Key res),
      rc_Name = rk_Name (tr_Key res), rc_ResourceVersion = tr_ResourceVersion res,
      rc_ResourceData = tr_Data res, rc_ResourceHash = tr_Hash res,
      rc_Timestamp = unix_nano (tr_LastModified res), rc_OriginMember = tr_OriginMember res,
      rc_Labels = tr_Labels res\<rparr>"

definition collectFullSyncResources ::
  "(nat \<Rightarrow> string) \<Rightarrow> FullSyncRequest \<Rightarrow> Server \<Rightarrow> ResourceChange list" where
  "collectFullSyncResources uuids req s =
     (let requesterVC = NewVectorClockFromMap (fr_VectorClock req)
      in fold (\<lambda>(_, res) resources.
                 if \<not> resourceMatchesFilter res (fr_ResourceTypes req) (fr_Namespaces req) then resources
                 else let resVC = NewVectorClockFromMap (tr_VectorClock res)
                      in if \<not> HappenedAfter resVC requesterVC \<and> \<not> Concurrent resVC requesterVC then resources
                         else resources @ [fullSyncChange (uuids (length resources)) res])
           (sv_resources s) [])"

text \<open>
  The loop of \<open>sendFullSyncBatches\<close>; \<open>sendOk n\<close> says whether the n-th send succeeds, and the result
  is the batches sent with the error, if any. \<open>None\<close> is a loop that never ends.
\<close>

partial_function (option) sendBatches ::
  "(nat \<Rightarrow> bool) \<Rightarrow> int \<Rightarrow> (string, int) gomap \<Rightarrow> ResourceChange list \<Rightarrow> int \<Rightarrow> int \<Rightarrow> ResourceBatch list
   \<Rightarrow> (ResourceBatch list \<times> fed_error option) option" where
  [code]: "sendBatches sendOk batchSize vc resources i batchNum sent =
     (if i < int (length resources) then
        (let stop = (if i + batchSize > int (length resources) then int (length resources) else i + batchSize)
         in if stop < i then Some (sent, Some Panic_SliceBounds)
            else
              (let batch = \<lparr>rb_BatchNumber = SafeIntToInt32 batchNum,
                            rb_IsLast = (stop = int (length resources)),
                            rb_Resources = take (nat (stop - i)) (drop (nat i) resources),
                            rb_TotalResources = SafeIntToInt32 (int (length resources)),
                            rb_VectorClock = vc\<rparr>
               in if sendOk (length sent)
                  then sendBatches sendOk batchSize vc resources (i + batchSize) (batchNum + 1) (sent @ [batch])
                  else Some (sent, Some ErrStream)))
      else Some (sent, None))"

definition sendFullSyncBatches ::
  "(nat \<Rightarrow> bool) \<Rightarrow> ResourceChange list \<Rightarrow> Server \<Rightarrow> (ResourceBatch list \<times> fed_error option) option" where
  "sendFullSyncBatches sendOk resources s =
     (let vc = vc_ToMap (sv_vectorClock s)
      in if length resources = 0
         then (let batch = \<lparr>rb_BatchNumber = 0, rb_IsLast = True, rb_Resources = [], rb_TotalResources = 0,
                            rb_VectorClock = vc\<rparr>
               in Some (if sendOk 0 then ([batch], None) else ([], Some ErrStream)))
         else (let batchSize = (if cf_BatchSize (sv_config s) = 0 then int (length resources)
                                else cf_BatchSize (sv_config s))
               in sendBatches sendOk batchSize vc resources 0 0 []))"

definition checkFullSyncCooldown :: "gotime \<Rightarrow> string \<Rightarrow> Server \<Rightarrow> Server \<times> fed_error option" where
  "checkFullSyncCooldown now peerName s =
     (case map_of (sv_fullSyncCooldowns s) peerName of
        Some lastTime \<Rightarrow>
          if time_sub now lastTime < fullSyncCooldown then (s, Some ResourceExhausted)
          else (s\<lparr>sv_fullSyncCooldowns := gm_put peerName now (sv_fullSyncCooldowns s)\<rparr>, None)
      | None \<Rightarrow> (s\<lparr>sv_fullSyncCooldowns := gm_put peerName now (sv_fullSyncCooldowns s)\<rparr>, None))"

definition RequestFullSync ::
  "gotime \<Rightarrow> (nat \<Rightarrow> string) \<Rightarrow> (nat \<Rightarrow> bool) \<Rightarrow> FullSyncRequest \<Rightarrow> Server
   \<Rightarrow> (Server \<times> ResourceBatch list \<times> fed_error option) option" where
  "RequestFullSync now uuids sendOk req s =
     (if fr_FederationId req \<noteq> cf_FederationID (sv_config s) then Some (s, [], Some PermissionDenied)
      else case checkFullSyncCooldown now (fr_RequesterMember req) s of
             (s1, Some err) \<Rightarrow> Some (s1, [], Some err)
           | (s1, None) \<Rightarrow>
               (case sendFullSyncBatches sendOk (collectFullSyncResources uuids req s1) s1 of
                  None \<Rightarrow> None
                | Some (batches, Some err) \<Rightarrow> Some (s1, batches, Some err)
                | Some (batches, None) \<Rightarrow> Some (stat_fullSync s1, batches, None)))"

subsection \<open>Queries\<close>

definition getPhase :: "Server \<Rightarrow> Phase" where
  "getPhase s =
     (let connectedCount = length (filter (\<lambda>(_, st). ps_Connected st) (sv_peerStates s));
          healthyCount = length (filter (\<lambda>(_, st). ps_Healthy st) (sv_peerStates s));
          totalPeers = length (cf_Peers (sv_config s))
      in if totalPeers = 0 then PhaseHealthy
         else if connectedCount = 0 then PhasePartitioned
         else if healthyCount = totalPeers then PhaseHealthy
         else PhaseDegraded)"

record GetStateResponse =
  gs_MemberName :: string
  gs_Region :: string
  gs_Zone :: string
  gs_VectorClock :: "(string, int) gomap"
  gs_LastSyncTimes :: "(string, int) gomap"
  gs_ResourceCounts :: "(string, int) gomap"
  gs_Healthy :: bool
  gs_Phase :: Phase
  gs_AgentCount :: int
  gs_ConflictsPending :: int

definition GetState :: "string \<Rightarrow> Server \<Rightarrow> fed_error + GetStateResponse" where
  "GetState federationId s =
     (if federationId \<noteq> cf_FederationID (sv_config s) then Inl PermissionDenied
      else case cf_LocalMember (sv_config s) of
             None \<Rightarrow> Inl Panic_NilDereference
           | Some me \<Rightarrow>
               (let counts = fold (\<lambda>(_, res) m. gm_put (rk_Kind (tr_Key res))
                                     (wrap32 (gm_get 0 m (rk_Kind (tr_Key res)) + 1)) m)
                               (sv_resources s) [];
                    times = fold (\<lambda>(k, st) m. if ps_LastSyncTime st = time_zero then m
                                              else gm_put k (unix_nano (ps_LastSyncTime st)) m)
                              (sv_peerStates s) [];
                    conflictCount = fold (\<lambda>_ n. wrap32 (n + 1)) (sv_conflicts s) 0
                in Inr \<lparr>gs_MemberName = pi_Name me, gs_Region = pi_Region me, gs_Zone = pi_Zone me,
                        gs_VectorClock = vc_ToMap (sv_vectorClock s), gs_LastSyncTimes = times,
                        gs_ResourceCounts = counts, gs_Healthy = True, gs_Phase = getPhase s,
                        gs_AgentCount = sv_agentCount s, gs_ConflictsPending = conflictCount\<rparr>))"

text \<open>\<open>Ping\<close> answers with our name and the time.\<close>

definition Ping :: "gotime \<Rightarrow> string \<Rightarrow> Server \<Rightarrow> fed_error + string \<times> int \<times> bool" where
  "Ping now federationId s =
     (if federationId \<noteq> cf_FederationID (sv_config s) then Inl PermissionDenied
      else case cf_LocalMember (sv_config s) of
             None \<Rightarrow> Inl Panic_NilDereference
           | Some me \<Rightarrow> Inr (pi_Name me, unix_nano now, True))"

definition GetPeerStates :: "Server \<Rightarrow> (string, PeerState) gomap" where
  "GetPeerStates s = fold (\<lambda>(k, st) m. gm_put k st m) (sv_peerStates s) []"

definition GetConflicts :: "Server \<Rightarrow> ConflictInfo list" where
  "GetConflicts s = fold (\<lambda>(_, conflict) acc. acc @ [conflict]) (sv_conflicts s) []"

end
