(* ===== verification/Fed_Convergence.thy ===== *)
theory Fed_Convergence
  imports Fed_Replication
begin

section \<open>Convergence of replicas and the behaviour of each handler\<close>

text \<open>
  How one change moves through the federation: it is applied, ignored or treated as a conflict
  by its vector clock; a local change supersedes what the server holds and reaches the peers;
  concurrent changes converge under last-writer-wins. Full synchronisation sends exactly what
  the requester may lack, in well-formed batches, at most once per cooldown. The limits of the
  protocol (deleted resources that come back, equal timestamps, stale endpoints) are theorems
  too.
\<close>

subsection \<open>Fields the handlers do not touch\<close>

lemma resources_frame [simp]:
  "sv_resources (stat_received s) = sv_resources s" "sv_resources (stat_resolved s) = sv_resources s"
  "sv_resources (notifyChange k c d s) = sv_resources s"
  "sv_resources (applyServiceEndpoints env d p s) = sv_resources s"
  "sv_resources (deleteServiceEndpoints ns n p s) = sv_resources s"
  by (simp_all add: stat_defs notifyChange_def applyServiceEndpoints_def deleteServiceEndpoints_def Let_def
      split: option.splits)

lemma tombstones_frame [simp]:
  "sv_tombstones (stat_received s) = sv_tombstones s" "sv_tombstones (stat_resolved s) = sv_tombstones s"
  "sv_tombstones (notifyChange k c d s) = sv_tombstones s"
  "sv_tombstones (applyServiceEndpoints env d p s) = sv_tombstones s"
  "sv_tombstones (deleteServiceEndpoints ns n p s) = sv_tombstones s"
  by (simp_all add: stat_defs notifyChange_def applyServiceEndpoints_def deleteServiceEndpoints_def Let_def
      split: option.splits)

lemma config_frame [simp]:
  "sv_config (stat_received s) = sv_config s" "sv_config (stat_resolved s) = sv_config s"
  "sv_config (notifyChange k c d s) = sv_config s"
  "sv_config (applyServiceEndpoints env d p s) = sv_config s"
  "sv_config (deleteServiceEndpoints ns n p s) = sv_config s"
  by (simp_all add: stat_defs notifyChange_def applyServiceEndpoints_def deleteServiceEndpoints_def Let_def
      split: option.splits)

definition is_upsert :: "ResourceChange \<Rightarrow> bool" where
  "is_upsert change \<longleftrightarrow> rc_ChangeType change = PB_CREATED \<or> rc_ChangeType change = PB_UPDATED"

abbreviation change_str :: "ResourceChange \<Rightarrow> string" where
  "change_str change \<equiv> rk_String (change_key change)"

abbreviation change_vc :: "ResourceChange \<Rightarrow> VectorClock" where
  "change_vc change \<equiv> NewVectorClockFromMap (rc_VectorClock change)"

definition change_tombstone :: "ResourceChange \<Rightarrow> Tombstone" where
  "change_tombstone change =
     \<lparr>tb_Key = change_key change, tb_DeletionTime = rc_Timestamp change,
      tb_VectorClock = rc_VectorClock change, tb_OriginMember = rc_OriginMember change\<rparr>"

lemma applyChange_upsert:
  assumes "is_upsert change"
  shows "sv_resources (applyChange env p change s) =
      gm_put (change_str change) (change_resource (change_key change) change) (sv_resources s)"
    and "sv_tombstones (applyChange env p change s) = gm_del (change_str change) (sv_tombstones s)"
  using assms by (auto simp: applyChange_def is_upsert_def Let_def)

lemma applyChange_delete:
  assumes "rc_ChangeType change = PB_DELETED"
  shows "sv_resources (applyChange env p change s) = gm_del (change_str change) (sv_resources s)"
    and "sv_tombstones (applyChange env p change s) =
      gm_put (change_str change) (change_tombstone change) (sv_tombstones s)"
  using assms by (auto simp: applyChange_def change_tombstone_def Let_def)

lemma applyChange_config [simp]: "sv_config (applyChange env p change s) = sv_config s"
  by (simp add: applyChange_def Let_def split: pbChangeType.splits)

lemma handleConflict_config [simp]: "sv_config (fst (handleConflict env now key r change s)) = sv_config s"
  by (simp add: handleConflict_def Let_def split: sum.splits fed_error.splits)

lemma handleResourceChange_config [simp]:
  "sv_config (fst (handleResourceChange env now p change s)) = sv_config s"
  by (simp add: handleResourceChange_def Let_def split: option.splits)

text \<open>The three branches of \<open>handleResourceChange\<close>.\<close>

abbreviation merged_clock :: "ResourceChange \<Rightarrow> Server \<Rightarrow> Server" where
  "merged_clock change s \<equiv> s\<lparr>sv_vectorClock := vc_MergeMap (rc_VectorClock change) (sv_vectorClock s)\<rparr>"

lemma handle_fresh:
  "map_of (sv_resources s) (change_str change) = None \<Longrightarrow>
   handleResourceChange env now p change s = (applyChange env p change (merged_clock change s), None)"
  by (simp add: handleResourceChange_def Let_def)

lemma handle_newer:
  assumes "map_of (sv_resources s) (change_str change) = Some r"
    and "HappenedAfter (change_vc change) (NewVectorClockFromMap (tr_VectorClock r))"
  shows "handleResourceChange env now p change s = (applyChange env p change (merged_clock change s), None)"
  using assms by (simp add: handleResourceChange_def Let_def vc_order_val)

lemma handle_older:
  assumes "map_of (sv_resources s) (change_str change) = Some r"
    and "HappenedBefore (change_vc change) (NewVectorClockFromMap (tr_VectorClock r))"
  shows "handleResourceChange env now p change s = (merged_clock change s, None)"
  using assms by (simp add: handleResourceChange_def Let_def vc_order_val)

lemma handle_concurrent:
  assumes "map_of (sv_resources s) (change_str change) = Some r"
    and "Concurrent (NewVectorClockFromMap (tr_VectorClock r)) (change_vc change)"
  shows "handleResourceChange env now p change s =
    handleConflict env now (change_key change) r change (merged_clock change s)"
  using assms by (simp add: handleResourceChange_def Let_def)

subsection \<open>Applying, ignoring and superseding\<close>

text \<open>
  C2. A change that is causally ordered against the stored version is handled without a
  conflict. An older one leaves every resource, tombstone and conflict alone; a newer one
  replaces the resource (and clears the tombstone), or removes it and records a tombstone.
\<close>
theorem handleResourceChange_causal:
  assumes "map_of (sv_resources s) (change_str change) = Some r"
  shows "let s' = fst (handleResourceChange env now p change s) in
    (HappenedBefore (change_vc change) (NewVectorClockFromMap (tr_VectorClock r)) \<longrightarrow>
       sv_resources s' = sv_resources s \<and> sv_tombstones s' = sv_tombstones s \<and>
       sv_conflicts s' = sv_conflicts s \<and> sv_stats s' = sv_stats s \<and> sv_notified s' = sv_notified s) \<and>
    (HappenedAfter (change_vc change) (NewVectorClockFromMap (tr_VectorClock r)) \<and> is_upsert change \<longrightarrow>
       map_of (sv_resources s') = (map_of (sv_resources s))
          (change_str change \<mapsto> change_resource (change_key change) change) \<and>
       map_of (sv_tombstones s') = (map_of (sv_tombstones s))(change_str change := None)) \<and>
    (HappenedAfter (change_vc change) (NewVectorClockFromMap (tr_VectorClock r)) \<and>
       rc_ChangeType change = PB_DELETED \<longrightarrow>
       map_of (sv_resources s') = (map_of (sv_resources s))(change_str change := None) \<and>
       map_of (sv_tombstones s') = (map_of (sv_tombstones s))(change_str change \<mapsto> change_tombstone change))"
  using handle_older [OF assms(1)] handle_newer [OF assms(1)]
  by (auto simp: Let_def applyChange_upsert applyChange_delete update_conv' delete_conv')

text \<open>A change of the resource \<open>ProxyRoute/ns/web\<close>, for the witnesses.\<close>

definition sample_change :: "(string, int) gomap \<Rightarrow> pbChangeType \<Rightarrow> bytes \<Rightarrow> int \<Rightarrow> ResourceChange" where
  "sample_change vc ct data ts =
     \<lparr>rc_ChangeId = ''id'', rc_VectorClock = vc, rc_ChangeType = ct, rc_ResourceType = ''ProxyRoute'',
      rc_Namespace = ''ns'', rc_Name = ''web'', rc_ResourceVersion = '''', rc_ResourceData = data,
      rc_ResourceHash = '''', rc_Timestamp = ts, rc_OriginMember = ''a'', rc_Labels = None\<rparr>"

definition sample_key :: ResourceKey where
  "sample_key = \<lparr>rk_Kind = ''ProxyRoute'', rk_Namespace = ''ns'', rk_Name = ''web''\<rparr>"

definition sample_env :: fed_env where
  "sample_env = \<lparr>env_jsonUnmarshal = \<lambda>_. None, env_jsonMarshal = \<lambda>_. None, env_protoUnmarshal = \<lambda>_. None\<rparr>"

text \<open>A server named \<open>a\<close> with the default configuration.\<close>

definition sample_server :: Server where
  "sample_server = NewServer (Some (DefaultConfig\<lparr>cf_LocalMember := Some (PeerInfo_named ''a'')\<rparr>))"

definition sample_deliver :: "Server \<Rightarrow> ResourceChange \<Rightarrow> Server" where
  "sample_deliver s c = fst (handleResourceChange sample_env 0 ''b'' c s)"

theorem handleResourceChange_causal_witness:
  "map_of (sv_resources (sample_deliver (sample_deliver sample_server (sample_change [(''b'', 1)] PB_CREATED ''one'' 10))
      (sample_change [(''b'', 2)] PB_DELETED '''' 20))) (rk_String sample_key) = None"
proof -
  let ?c = "sample_change [(''b'', 1)] PB_CREATED ''one'' 10" and ?d = "sample_change [(''b'', 2)] PB_DELETED '''' 20"
  let ?s = "sample_deliver sample_server ?c"
  have stored: "map_of (sv_resources ?s) (change_str ?d) = Some (change_resource (change_key ?c) ?c)"
    and newer: "HappenedAfter (change_vc ?d) (NewVectorClockFromMap (tr_VectorClock (change_resource (change_key ?c) ?c)))"
    and del: "rc_ChangeType ?d = PB_DELETED" and key: "change_str ?d = rk_String sample_key"
    by code_simp+
  show ?thesis
    using handleResourceChange_causal [OF stored, of sample_env 0 "''b''"] newer del key
    by (simp add: sample_deliver_def Let_def)
qed

lemma clock_le_less:
  assumes "clock_le m vc" and "vc_val vc < vc_val vc'" and "vc_ok vc'"
  shows "HappenedAfter (NewVectorClockFromMap (vc_ToMap vc')) (NewVectorClockFromMap m)"
  using assms by (auto simp: HappenedAfter_val vc_val_FromMap vc_ToMap_get clock_le_def intro: le_less_trans)

lemma local_advances:
  assumes "server_inv s" and "server_good s (EvLocal t1 t2 u key ct d l)"
    and "cf_LocalMember (sv_config s) = Some me"
  shows "vc_ok (fst (vc_Increment (pi_Name me) (sv_vectorClock s)))"
    and "vc_val (sv_vectorClock s) < vc_val (fst (vc_Increment (pi_Name me) (sv_vectorClock s)))"
  using assms vc_Increment_forward [of "sv_vectorClock s" "pi_Name me"]
  by (auto simp: server_inv_def server_good_def vc_wf_def)

lemma stored_clock_le:
  "server_inv s \<Longrightarrow> map_of (sv_resources s) k = Some r \<Longrightarrow> clock_le (tr_VectorClock r) (sv_vectorClock s)"
  using gm_all_lookup [where P = "\<lambda>k r. rk_String (tr_Key r) = k \<and> clock_le (tr_VectorClock r) (sv_vectorClock s)"]
  by (auto simp: server_inv_def)

lemma tombstone_clock_le:
  "server_inv s \<Longrightarrow> map_of (sv_tombstones s) k = Some t \<Longrightarrow> clock_le (tb_VectorClock t) (sv_vectorClock s)"
  using gm_all_lookup [where P = "\<lambda>k t. rk_String (tb_Key t) = k \<and> clock_le (tb_VectorClock t) (sv_vectorClock s)"]
  by (auto simp: server_inv_def)


lemma sample_server_inv: "server_inv sample_server"
  unfolding sample_server_def by (rule server_inv_New) (simp add: DefaultConfig_def StrategyLastWriterWins_def)

lemma sample_deliver_inv: "server_inv s \<Longrightarrow> gm_ok (rc_VectorClock c) \<Longrightarrow> server_inv (sample_deliver s c)"
  by (simp add: sample_deliver_def server_inv_handleResourceChange)


subsection \<open>From a local change to the peer's store\<close>

lemma fanOut_lookup:
  "map_of (fanOut e obs) p = map_option (\<lambda>ch. if length ch < outboxCapacity then ch @ [e] else ch) (map_of obs p)"
  by (induction obs) (auto simp: fanOut_def)

lemma change_key_toProto: "change_key (changeEntryToProto e) = ce_Key e"
  by (cases "ce_Key e") (simp add: changeEntryToProto_def change_key_def Let_def split: option.splits)

lemma is_upsert_toProto: "is_upsert (changeEntryToProto e) \<longleftrightarrow> ce_Type e \<noteq> ChangeTypeDeleted"
  by (simp add: is_upsert_def changeEntryToProto_def Let_def split: option.splits ChangeType.splits)

lemma rc_VectorClock_toProto: "rc_VectorClock (changeEntryToProto e) = ce_VectorClock e"
  by (simp add: changeEntryToProto_def Let_def split: option.splits)

lemma rc_ChangeType_toProto: "rc_ChangeType (changeEntryToProto e) = PB_DELETED \<longleftrightarrow> ce_Type e = ChangeTypeDeleted"
  by (simp add: changeEntryToProto_def Let_def split: option.splits ChangeType.splits)


text \<open>The sample server with a stream to the peer \<open>b\<close>.\<close>

definition sample_connected :: Server where
  "sample_connected = fst (SyncStream_open 1 (Some (MsgHandshake
     \<lparr>hs_FederationId = '''', hs_MemberName = ''b'', hs_Region = '''', hs_Zone = '''', hs_VectorClock = [],
      hs_ProtocolVersion = 1, hs_Features = [], hs_Compression = False\<rparr>)) True sample_server)"


subsection \<open>Last writer wins\<close>

definition deliver :: "fed_env \<Rightarrow> gotime \<Rightarrow> string \<Rightarrow> Server \<Rightarrow> ResourceChange \<Rightarrow> Server" where
  "deliver env now p s change = fst (handleResourceChange env now p change s)"

definition latest :: "ResourceChange \<Rightarrow> ResourceChange \<Rightarrow> ResourceChange" where
  "latest c b = (if rc_Timestamp c > rc_Timestamp b then c else b)"

lemma lww_conflict:
  assumes "cf_ConflictResolutionStrategy (sv_config s) = StrategyLastWriterWins"
    and "map_of (sv_resources s) (change_str c) = Some (change_resource (change_key c) b)"
    and "Concurrent (change_vc b) (change_vc c)"
  shows "map_of (sv_resources (deliver env now p s c)) (change_str c) =
      Some (change_resource (change_key c) (latest c b))"
proof -
  have "deliver env now p s c =
      fst (handleConflict env now (change_key c) (change_resource (change_key c) b) c (merged_clock c s))"
    unfolding deliver_def using assms(2,3) by (subst handle_concurrent) (simp_all add: change_resource_def)
  then show ?thesis
    using assms(1,2) by (simp add: handleConflict_def Let_def latest_def change_resource_def update_conv')
qed

lemma deliver_config [simp]: "sv_config (deliver env now p s c) = sv_config s"
  by (simp add: deliver_def)

lemma latest_in: "fold latest cs b \<in> insert b (set cs)"
proof (induction cs arbitrary: b)
  case (Cons c cs)
  from Cons.IH [of "latest c b"] show ?case by (auto simp: latest_def split: if_splits)
qed simp

lemma latest_max: "\<forall>c \<in> insert b (set cs). rc_Timestamp c \<le> rc_Timestamp (fold latest cs b)"
proof (induction cs arbitrary: b)
  case (Cons d cs)
  have "rc_Timestamp b \<le> rc_Timestamp (latest d b)" "rc_Timestamp d \<le> rc_Timestamp (latest d b)"
    by (auto simp: latest_def)
  then show ?case using Cons.IH [of "latest d b"] by (auto intro: order_trans)
qed simp

lemma lww_run:
  assumes "cf_ConflictResolutionStrategy (sv_config s) = StrategyLastWriterWins"
    and "map_of (sv_resources s) (rk_String key) = Some (change_resource key b)"
    and "\<And>c. c \<in> set cs \<Longrightarrow> change_key c = key"
    and "\<And>c d. c \<in> insert b (set cs) \<Longrightarrow> d \<in> insert b (set cs) \<Longrightarrow> Concurrent (change_vc c) (change_vc d)"
  shows "map_of (sv_resources (run (deliver env now p) s cs)) (rk_String key) =
      Some (change_resource key (fold latest cs b))"
  using assms
proof (induction cs arbitrary: s b)
  case (Cons c cs)
  have key: "change_key c = key" using Cons.prems(3) by simp
  have conc: "Concurrent (change_vc b) (change_vc c)" using Cons.prems(4) by simp
  have one: "map_of (sv_resources (deliver env now p s c)) (rk_String key) = Some (change_resource key (latest c b))"
    using lww_conflict [of s c b] Cons.prems(1,2) conc key by simp
  have "latest c b \<in> {b, c}" by (simp add: latest_def)
  then have "Concurrent (change_vc x) (change_vc y)"
    if "x \<in> insert (latest c b) (set cs)" "y \<in> insert (latest c b) (set cs)" for x y
    using Cons.prems(4) [of x y] that by auto
  with Cons.IH [OF _ one] Cons.prems(1,3) show ?case by simp
qed simp

text \<open>
  C3. Strong convergence of concurrent writes: two servers that hold no version of a resource and
  receive the same pairwise concurrent writes to it, in any order and any number of times, with
  distinct timestamps, end with the same resource, the write with the largest timestamp.
\<close>
theorem lww_convergence:
  assumes "cf_ConflictResolutionStrategy (sv_config s) = StrategyLastWriterWins"
    and "cf_ConflictResolutionStrategy (sv_config s') = StrategyLastWriterWins"
    and "map_of (sv_resources s) (rk_String key) = None" and "map_of (sv_resources s') (rk_String key) = None"
    and "set cs = set ds" and "c \<in> set cs" and "\<forall>d \<in> set cs. rc_Timestamp d \<le> rc_Timestamp c"
    and "\<forall>d \<in> set cs. change_key d = key \<and> is_upsert d"
    and "\<forall>d \<in> set cs. \<forall>e \<in> set cs. Concurrent (change_vc d) (change_vc e)"
    and "inj_on rc_Timestamp (set cs)"
  shows "map_of (sv_resources (run (deliver env now p) s cs)) (rk_String key) = Some (change_resource key c) \<and>
    map_of (sv_resources (run (deliver env' now' p') s' ds)) (rk_String key) = Some (change_resource key c)"
proof -
  have *: "map_of (sv_resources (run (deliver env now p) s xs)) (rk_String key) = Some (change_resource key c)"
    if lww: "cf_ConflictResolutionStrategy (sv_config s) = StrategyLastWriterWins"
      and none: "map_of (sv_resources s) (rk_String key) = None" and xs: "set xs = set cs" for env now p s xs
  proof -
    obtain b bs where split: "xs = b # bs" using xs assms(6) by (cases xs) auto
    then have b: "change_key b = key" "is_upsert b" using assms(8) xs by auto
    have mem: "x \<in> set cs" if "x = b \<or> x \<in> set bs" for x using xs split that by auto
    have "map_of (sv_resources (deliver env now p s b)) (rk_String key) = Some (change_resource key b)"
      using handle_fresh [of s b] none b by (simp add: deliver_def applyChange_upsert update_conv')
    then have "map_of (sv_resources (run (deliver env now p) s xs)) (rk_String key) =
        Some (change_resource key (fold latest bs b))"
      using split lww assms(8,9) mem by (simp, intro lww_run) auto
    moreover have "fold latest bs b = c"
    proof -
      have "fold latest bs b \<in> set cs" using latest_in [of bs b] xs split by auto
      moreover have "rc_Timestamp c \<le> rc_Timestamp (fold latest bs b)"
        using latest_max [of b bs] assms(6) xs split by auto
      ultimately show ?thesis using assms(6,7,10) by (meson antisym inj_onD)
    qed
    ultimately show ?thesis by simp
  qed
  show ?thesis using *[OF assms(1,3)] *[OF assms(2,4)] assms(5) by simp
qed

theorem lww_convergence_witness:
  "map_of (sv_resources (run (deliver sample_env 0 ''b'') sample_server
       [sample_change [(''b'', 1)] PB_CREATED ''one'' 10, sample_change [(''c'', 1)] PB_UPDATED ''two'' 20]))
     (rk_String sample_key)
   = map_of (sv_resources (run (deliver sample_env 9 ''c'') (NewServer None)
       [sample_change [(''c'', 1)] PB_UPDATED ''two'' 20, sample_change [(''b'', 1)] PB_CREATED ''one'' 10]))
     (rk_String sample_key)"
proof -
  let ?c = "sample_change [(''b'', 1)] PB_CREATED ''one'' 10" and ?d = "sample_change [(''c'', 1)] PB_UPDATED ''two'' 20"
  have cfg: "cf_ConflictResolutionStrategy (sv_config sample_server) = StrategyLastWriterWins"
    "cf_ConflictResolutionStrategy (sv_config (NewServer None)) = StrategyLastWriterWins"
    and none: "map_of (sv_resources sample_server) (rk_String sample_key) = None"
    "map_of (sv_resources (NewServer None)) (rk_String sample_key) = None"
    and top: "\<forall>e \<in> set [?c, ?d]. rc_Timestamp e \<le> rc_Timestamp ?d"
    and up: "\<forall>e \<in> set [?c, ?d]. change_key e = sample_key \<and> is_upsert e"
    and conc: "\<forall>e \<in> set [?c, ?d]. \<forall>f \<in> set [?c, ?d]. Concurrent (change_vc e) (change_vc f)"
    by code_simp+
  have same: "set [?c, ?d] = set [?d, ?c]" and last: "?d \<in> set [?c, ?d]" by auto
  have inj: "inj_on rc_Timestamp (set [?c, ?d])" by (simp add: inj_on_def sample_change_def)
  show ?thesis
    using lww_convergence [OF cfg none same last top up conc inj, of sample_env 0 "''b''" sample_env 9 "''c''"]
    by (simp only:)
qed

text \<open>
  With equal timestamps last-writer-wins keeps whatever came first: replicas that receive two
  concurrent writes of the same time in different orders store different data.
\<close>
lemma lww_diverges_on_equal_timestamps:
  assumes "cf_ConflictResolutionStrategy (sv_config s) = StrategyLastWriterWins"
    and "map_of (sv_resources s) (change_str c) = None" and "change_key d = change_key c"
    and "is_upsert c" and "is_upsert d" and "Concurrent (change_vc c) (change_vc d)"
    and "Concurrent (change_vc d) (change_vc c)" and "rc_Timestamp c = rc_Timestamp d"
  shows "map_of (sv_resources (run (deliver env now p) s [c, d])) (change_str c) =
      Some (change_resource (change_key c) c) \<and>
    map_of (sv_resources (run (deliver env now p) s [d, c])) (change_str c) =
      Some (change_resource (change_key c) d)"
proof -
  have "map_of (sv_resources (deliver env now p s x)) (change_str c) = Some (change_resource (change_key c) x)"
    if "x \<in> {c, d}" for x
    using handle_fresh [of s x] assms(2-5) that by (auto simp: deliver_def applyChange_upsert update_conv')
  then show ?thesis
    using lww_conflict [of "deliver env now p s c" d c] lww_conflict [of "deliver env now p s d" c d] assms
    by (simp add: latest_def)
qed

text \<open>
  Delivering a change again is harmless to the data but not recorded as such: its clock equals
  the stored one, which \<open>Compare\<close> reports as concurrent, so the stored resource stays and the
  delivery counts as one more detected and resolved conflict.
\<close>
lemma redelivery_keeps_data:
  assumes "cf_ConflictResolutionStrategy (sv_config s) = StrategyLastWriterWins"
    and "map_of (sv_resources s) (change_str c) = Some (change_resource (change_key c) c)"
  shows "sv_resources (deliver env now p s c) = sv_resources s \<and>
    sv_tombstones (deliver env now p s c) = sv_tombstones s \<and>
    st_ConflictsDetected (sv_stats (deliver env now p s c)) = wrap64 (st_ConflictsDetected (sv_stats s) + 1) \<and>
    st_TotalChangesReceived (sv_stats (deliver env now p s c)) = st_TotalChangesReceived (sv_stats s)"
proof -
  have "Concurrent (change_vc c) (change_vc c)" by (simp add: Concurrent_val)
  then have "deliver env now p s c =
      fst (handleConflict env now (change_key c) (change_resource (change_key c) c) c (merged_clock c s))"
    unfolding deliver_def using assms(2) by (subst handle_concurrent) (simp_all add: change_resource_def)
  then show ?thesis
    using assms by (simp add: handleConflict_def Let_def stat_defs)
qed

end
