(* ===== verification/Fed_Limits.thy ===== *)
theory Fed_Limits
  imports Fed_Convergence
begin

section \<open>Limits of the replication protocol\<close>

text \<open>
  Behaviours of the federation server that lose information: deletions are not compared against
  late changes, a concurrent deletion is stored as an empty resource, a manual resolution can
  revive a deleted resource, and endpoints cached under another cluster's name outlive their
  deletion. Each is stated for an arbitrary state. The last section states what merging two
  JSON documents yields.
\<close>

subsection \<open>Deletions\<close>

text \<open>
  A tombstone does not protect a deletion: a write that happened before the deletion and
  arrives after it is applied, the resource is back and the tombstone is gone.
\<close>
lemma late_write_revives_deleted:
  assumes "map_of (sv_resources s) (change_str c) = None"
    and "map_of (sv_tombstones s) (change_str c) = Some t"
    and "HappenedBefore (change_vc c) (NewVectorClockFromMap (tb_VectorClock t))" and "is_upsert c"
  shows "map_of (sv_resources (deliver env now p s c)) (change_str c) = Some (change_resource (change_key c) c) \<and>
    map_of (sv_tombstones (deliver env now p s c)) (change_str c) = None"
  using handle_fresh [OF assms(1)] assms(4)
  by (simp add: deliver_def applyChange_upsert update_conv' delete_conv')

text \<open>
  Conflict resolution ignores the type of the change: under last-writer-wins a concurrent
  deletion that is newer than the stored version does not delete. The resource stays live, with
  the (empty) data of the deletion, and no tombstone is recorded.
\<close>
lemma concurrent_delete_is_stored:
  assumes "cf_ConflictResolutionStrategy (sv_config s) = StrategyLastWriterWins"
    and "map_of (sv_resources s) (change_str c) = Some r"
    and "Concurrent (NewVectorClockFromMap (tr_VectorClock r)) (change_vc c)"
    and "rc_ChangeType c = PB_DELETED" and "rc_Timestamp c > tr_LastModified r"
  shows "map_of (sv_resources (deliver env now p s c)) (change_str c) = Some (change_resource (change_key c) c) \<and>
    sv_tombstones (deliver env now p s c) = sv_tombstones s"
  using handle_concurrent [OF assms(2,3)] assms(1,5)
  by (simp add: deliver_def handleConflict_def Let_def change_resource_def update_conv')

text \<open>
  Resolving a conflict to the remote version stores it without clearing a tombstone: if the
  resource was deleted while the conflict was pending, its key is afterwards both live and
  deleted.
\<close>
lemma resolve_remote_keeps_tombstone:
  assumes "map_of (sv_conflicts s) k = Some c" and "map_of (sv_tombstones s) k = Some t"
  shows "let s' = fst (ResolveConflict k False s) in
    map_of (sv_resources s') k = Some (ci_RemoteVersion c) \<and> map_of (sv_tombstones s') k = Some t \<and>
    map_of (sv_conflicts s') k = None \<and> snd (ResolveConflict k False s) = None"
  using assms by (simp add: ResolveConflict_def Let_def notifyChange_def stat_defs update_conv' delete_conv')

text \<open>A conflict is left pending under the Manual strategy, then the resource is deleted locally.\<close>

definition sample_pending :: Server where
  "sample_pending =
     fst (RecordLocalChange 30 30 ''id'' sample_key ChangeTypeDeleted '''' None
       (run (deliver sample_env 0 ''b'')
         (sample_server\<lparr>sv_config := (sv_config sample_server)\<lparr>cf_ConflictResolutionStrategy := ''Manual''\<rparr>\<rparr>)
         [sample_change [(''b'', 1)] PB_CREATED ''one'' 10, sample_change [(''c'', 1)] PB_UPDATED ''two'' 20]))"

subsection \<open>Endpoints of other clusters\<close>

lemma cache_frame [simp]:
  "sv_endpointCache (stat_received s) = sv_endpointCache s"
  "sv_endpointCache (notifyChange k c d s) = sv_endpointCache s"
  by (simp_all add: stat_received_def notifyChange_def)

lemma cache_upsert:
  assumes "is_upsert c" and "rc_ResourceType c = ''ServiceEndpoints''"
    and "env_protoUnmarshal env (rc_ResourceData c) = Some e"
  shows "sv_endpointCache (applyChange env p c s) =
    ec_Update (if se_ClusterName e = '''' then p else se_ClusterName e) (Some e) (sv_endpointCache s)"
  using assms by (auto simp: applyChange_def Let_def is_upsert_def applyServiceEndpoints_def)

lemma cache_delete:
  assumes "rc_ChangeType c = PB_DELETED" and "rc_ResourceType c = ''ServiceEndpoints''"
  shows "sv_endpointCache (applyChange env p c s) =
    ec_Delete p (rc_Namespace c) (rc_Name c) (sv_endpointCache s)"
  using assms by (auto simp: applyChange_def Let_def deleteServiceEndpoints_def)

text \<open>
  Endpoints announced with an explicit cluster name are cached under that name but deleted
  under the name of the sending peer: when the two differ, the endpoints of a deleted service
  stay in the cache.
\<close>
lemma deleted_endpoints_stay:
  assumes "is_upsert c" and "rc_ResourceType c = ''ServiceEndpoints''"
    and "env_protoUnmarshal env (rc_ResourceData c) = Some e"
    and "se_ClusterName e \<noteq> ''''" and "se_ClusterName e \<noteq> p"
    and "map_of (sv_resources s) (change_str c) = None"
    and "rc_ChangeType d = PB_DELETED" and "change_key d = change_key c"
    and "HappenedAfter (change_vc d) (change_vc c)"
  shows "ec_abs (sv_endpointCache (run (deliver env now p) s [c, d])) (se_ClusterName e)
      (serviceKey (se_Namespace e) (se_ServiceName e)) = Some e \<and>
    map_of (sv_resources (run (deliver env now p) s [c, d])) (change_str c) = None"
proof -
  let ?s = "deliver env now p s c"
  have s1: "?s = applyChange env p c (merged_clock c s)"
    using handle_fresh [OF assms(6)] by (simp add: deliver_def)
  have "map_of (sv_resources ?s) (change_str d) = Some (change_resource (change_key c) c)"
    using assms(1,8) by (simp add: s1 applyChange_upsert update_conv')
  from handle_newer [OF this] assms(9)
  have s2: "deliver env now p ?s d = applyChange env p d (merged_clock d ?s)"
    by (simp add: deliver_def change_resource_def)
  have "rc_ResourceType d = ''ServiceEndpoints''" using assms(2,8) by (simp add: change_key_def)
  then have "sv_endpointCache (deliver env now p ?s d) =
      ec_Delete p (rc_Namespace d) (rc_Name d) (ec_Update (se_ClusterName e) (Some e) (sv_endpointCache s))"
    using assms(1-4,7) by (subst s2) (simp add: cache_delete s1 cache_upsert)
  then show ?thesis
    using assms(5,7,8) by (simp add: ecs.look_del ecs.look_upd s2 applyChange_delete delete_conv')
qed

definition sample_endpoints :: ServiceEndpoints where
  "sample_endpoints = \<lparr>se_ServiceName = ''web'', se_Namespace = ''ns'', se_ClusterName = ''west'', se_Region = '''',
     se_Zone = '''', se_Endpoints = []\<rparr>"

subsection \<open>Merging documents\<close>

text \<open>What merging two values under one key gives.\<close>

definition merge_value :: "json option \<Rightarrow> json option \<Rightarrow> json option" where
  "merge_value base overlay =
     (case overlay of
        None \<Rightarrow> base
      | Some (JObject om) \<Rightarrow>
          (case base of Some (JObject bm) \<Rightarrow> Some (JObject (mergeMaps bm om)) | _ \<Rightarrow> Some (JObject om))
      | Some (JOther x) \<Rightarrow> Some (JOther x))"

declare mergeMaps.simps [simp del]

definition merge_put :: "string \<times> json \<Rightarrow> (string, json) gomap \<Rightarrow> (string, json) gomap" where
  "merge_put kv result = gm_put (fst kv) (the (merge_value (map_of result (fst kv)) (Some (snd kv)))) result"

lemma mergeMaps_put: "mergeMaps base overlay = fold merge_put overlay (gm_copy [] base)"
proof -
  have "(\<lambda>(k, v) result.
           case map_of result k of
             Some (JObject baseMap) \<Rightarrow>
               (case v of
                  JObject overlayMap \<Rightarrow> gm_put k (JObject (mergeMaps baseMap overlayMap)) result
                | JOther _ \<Rightarrow> gm_put k v result)
           | _ \<Rightarrow> gm_put k v result) = merge_put"
    by (auto simp: fun_eq_iff merge_put_def merge_value_def split: option.splits json.splits)
  then show ?thesis by (subst mergeMaps.simps) simp
qed

lemma merge_value_Some: "\<exists>x. merge_value b (Some v) = Some x"
  by (auto simp: merge_value_def split: json.splits option.splits)

lemma fold_merge_put:
  assumes "gm_ok overlay"
  shows "map_of (fold merge_put overlay m) k = merge_value (map_of m k) (map_of overlay k)"
  using assms
proof (induction overlay arbitrary: m)
  case Nil
  then show ?case by (simp add: merge_value_def)
next
  case (Cons kv overlay)
  obtain k' v where kv: "kv = (k', v)" by (cases kv)
  with Cons.prems have ok: "gm_ok overlay" and fresh: "map_of overlay k' = None"
    by (auto simp: gm_ok_def map_of_eq_None_iff)
  obtain x where x: "merge_value (map_of m k') (Some v) = Some x" using merge_value_Some by blast
  have id: "merge_value b None = b" for b by (simp add: merge_value_def)
  show ?case
    using Cons.IH [OF ok, of "merge_put kv m"] fresh x
    by (auto simp: kv merge_put_def update_conv' id)
qed

text \<open>
  Merging two JSON documents: a field of the remote document overrides the local one, except
  that two objects are merged recursively, and fields of only one document are kept.
\<close>
lemma mergeMaps_lookup:
  assumes "gm_ok base" and "gm_ok overlay"
  shows "map_of (mergeMaps base overlay) k =
     (case (map_of base k, map_of overlay k) of
        (b, None) \<Rightarrow> b
      | (Some (JObject bm), Some (JObject om)) \<Rightarrow> Some (JObject (mergeMaps bm om))
      | (_, Some v) \<Rightarrow> Some v)"
  using fold_merge_put [OF assms(2), of "gm_copy [] base" k] assms(1)
  by (auto simp: mergeMaps_put map_of_gm_copy merge_value_def split: option.splits json.splits)

end
