(* ===== verification/Merkle_Tree.thy ===== *)
theory Merkle_Tree
  imports Go_Prelude
begin

section \<open>The hash tree of anti-entropy (\<open>internal/controller/federation/antientropy.go\<close>)\<close>

text \<open>
  \<open>MerkleNode\<close>, \<open>MerkleTree\<close> and their operations. The digest (the hexadecimal form of the first
  16 bytes of SHA-256 in the source) is the argument \<open>digest\<close> of the operations, from the bytes
  written to the digest; every lemma holds for every function, SHA-256 included. A range loop over
  the buckets follows the order in which they were created; \<open>node_hash_order\<close> shows that the hash
  of a node does not depend on that order. The tree's lock is not modelled.
\<close>

subsection \<open>Nodes and trees\<close>

datatype MerkleNode =
  MerkleNode (nd_Hash: string) (nd_Level: int) (nd_Prefix: string) (nd_IsLeaf: bool)
    (nd_Children: "(string \<times> MerkleNode) list") (nd_ChildHashes: "(string \<times> string) list")
    (nd_Resources: "string list")

record MerkleTree =
  mt_root :: "MerkleNode option"
  mt_resources :: "(string, string) gomap"
  mt_depth :: int

definition MerkleTreeDepth :: int where "MerkleTreeDepth = 4"

definition NewMerkleTree :: "int \<Rightarrow> MerkleTree" where
  "NewMerkleTree depth =
     \<lparr>mt_root = None, mt_resources = [], mt_depth = (if depth \<le> 0 then MerkleTreeDepth else depth)\<rparr>"

text \<open>The bytes a leaf writes to the digest, and the loop that splits keys into buckets.\<close>

definition leaf_bytes :: "(string, string) gomap \<Rightarrow> string list \<Rightarrow> string" where
  "leaf_bytes resources keys = fold (\<lambda>key h. h @ key @ gm_get '''' resources key) keys ''''"

definition bucket_of :: "string \<Rightarrow> string \<Rightarrow> string" where
  "bucket_of prefix key =
     (if length key > length prefix then take 1 (drop (length prefix) key) else '''')"

definition make_buckets :: "string \<Rightarrow> string list \<Rightarrow> (string, string list) gomap" where
  "make_buckets prefix keys =
     fold (\<lambda>key buckets. gm_put (bucket_of prefix key)
                           (gm_get [] buckets (bucket_of prefix key) @ [key]) buckets) keys []"

text \<open>
  The rest of \<open>buildNode\<close> once the children are built, \<open>None\<close> for a nil child: the maps of the node,
  the sorted child hashes and the hash over them.
\<close>

definition add_child ::
  "string \<times> MerkleNode option
   \<Rightarrow> (string, MerkleNode) gomap \<times> (string, string) gomap \<times> string list
   \<Rightarrow> (string, MerkleNode) gomap \<times> (string, string) gomap \<times> string list" where
  "add_child built st =
     (case built of
        (childPrefix, None) \<Rightarrow> st
      | (childPrefix, Some child) \<Rightarrow>
          (case st of (children, hashes, childHashes) \<Rightarrow>
             (gm_put childPrefix child children, gm_put childPrefix (nd_Hash child) hashes,
              childHashes @ [nd_Hash child])))"

definition inner_node ::
  "(string \<Rightarrow> string) \<Rightarrow> int \<Rightarrow> string \<Rightarrow> (string \<times> MerkleNode option) list \<Rightarrow> MerkleNode" where
  "inner_node digest level prefix built =
     (case fold add_child built ([], [], []) of
        (children, hashes, childHashes) \<Rightarrow>
          MerkleNode (digest (concat (sort childHashes))) level prefix False children hashes [])"

function buildNode ::
  "(string \<Rightarrow> string) \<Rightarrow> (string, string) gomap \<Rightarrow> int \<Rightarrow> string list \<Rightarrow> int \<Rightarrow> string \<Rightarrow> MerkleNode option" where
  "buildNode digest resources depth keys level prefix =
     (if keys = [] then None
      else if level \<ge> depth \<or> length keys \<le> 4
      then Some (MerkleNode (digest (leaf_bytes resources keys)) level prefix True [] [] keys)
      else Some (inner_node digest level prefix
             (map (\<lambda>(bucket, bucketKeys).
                     (prefix @ bucket,
                      buildNode digest resources depth bucketKeys (level + 1) (prefix @ bucket)))
                (make_buckets prefix keys))))"
  by pat_completeness auto
termination
  by (relation "measure (\<lambda>(_, _, depth, _, level, _). nat (depth - level))") auto

declare buildNode.simps [simp del]

definition rebuild :: "(string \<Rightarrow> string) \<Rightarrow> MerkleTree \<Rightarrow> MerkleTree" where
  "rebuild digest t =
     (if length (mt_resources t) = 0 then t\<lparr>mt_root := None\<rparr>
      else t\<lparr>mt_root := buildNode digest (mt_resources t) (mt_depth t) (sort (gm_keys (mt_resources t))) 0 ''''\<rparr>)"

definition mt_Update :: "(string \<Rightarrow> string) \<Rightarrow> string \<Rightarrow> string \<Rightarrow> MerkleTree \<Rightarrow> MerkleTree" where
  "mt_Update digest key hash t = rebuild digest (t\<lparr>mt_resources := gm_put key hash (mt_resources t)\<rparr>)"

definition mt_Remove :: "(string \<Rightarrow> string) \<Rightarrow> string \<Rightarrow> MerkleTree \<Rightarrow> MerkleTree" where
  "mt_Remove digest key t = rebuild digest (t\<lparr>mt_resources := gm_del key (mt_resources t)\<rparr>)"

definition GetRoot :: "MerkleTree \<Rightarrow> string" where
  "GetRoot t = (case mt_root t of None \<Rightarrow> '''' | Some n \<Rightarrow> nd_Hash n)"

fun findNode :: "MerkleNode \<Rightarrow> string \<Rightarrow> MerkleNode option"
  and findChild :: "(string \<times> MerkleNode) list \<Rightarrow> string \<Rightarrow> MerkleNode option" where
  "findNode (MerkleNode h l p leaf children hs rs) prefix =
     (if p = prefix then Some (MerkleNode h l p leaf children hs rs)
      else if leaf then None
      else findChild children prefix)"
| "findChild [] prefix = None"
| "findChild ((childPrefix, child) # children) prefix =
     (if childPrefix = prefix then Some child
      else if length prefix > length childPrefix \<and> take (length childPrefix) prefix = childPrefix
      then (case findNode child prefix of
              Some result \<Rightarrow> Some result
            | None \<Rightarrow> findChild children prefix)
      else findChild children prefix)"

definition GetNodeAt :: "string \<Rightarrow> MerkleTree \<Rightarrow> MerkleNode option" where
  "GetNodeAt prefix t = (case mt_root t of None \<Rightarrow> None | Some n \<Rightarrow> findNode n prefix)"

definition mt_Compare :: "MerkleTree \<Rightarrow> MerkleTree option \<Rightarrow> string list" where
  "mt_Compare t other =
     (case other of
        None \<Rightarrow> gm_keys (mt_resources t)
      | Some ot \<Rightarrow>
          (if (case (mt_root t, mt_root ot) of (Some a, Some b) \<Rightarrow> nd_Hash a = nd_Hash b | _ \<Rightarrow> False) then []
           else
             fold (\<lambda>(key, _) diffs. if map_of (mt_resources t) key = None then diffs @ [key] else diffs)
               (mt_resources ot)
               (fold (\<lambda>(key, hash) diffs.
                        case map_of (mt_resources ot) key of
                          None \<Rightarrow> diffs @ [key]
                        | Some otherHash \<Rightarrow> if otherHash \<noteq> hash then diffs @ [key] else diffs)
                  (mt_resources t) [])))"

definition GetResourceHashes :: "MerkleTree \<Rightarrow> (string, string) gomap" where
  "GetResourceHashes t = gm_copy [] (mt_resources t)"


subsection \<open>Buckets and inner nodes\<close>

lemma make_buckets_fold:
  "gm_ok m \<Longrightarrow> gm_ok (fold (\<lambda>key buckets. gm_put (f key) (gm_get [] buckets (f key) @ [key]) buckets) keys m)"
  "map_of (fold (\<lambda>key buckets. gm_put (f key) (gm_get [] buckets (f key) @ [key]) buckets) keys m) b =
     (if filter (\<lambda>k. f k = b) keys = [] then map_of m b else Some (gm_get [] m b @ filter (\<lambda>k. f k = b) keys))"
proof (induction keys arbitrary: m)
  case (Cons k keys)
  { case 1 then show ?case using Cons(1) by simp }
  { case 2 show ?case using Cons(2) by (auto simp: update_conv' gm_get_put) }
qed auto

lemma make_buckets_ok: "gm_ok (make_buckets p keys)"
  by (simp add: make_buckets_def make_buckets_fold)

lemma make_buckets_mem:
  "(b, ks) \<in> set (make_buckets p keys) \<longleftrightarrow> ks = filter (\<lambda>k. bucket_of p k = b) keys \<and> ks \<noteq> []"
proof -
  have "map_of (make_buckets p keys) b =
      (if filter (\<lambda>k. bucket_of p k = b) keys = [] then None else Some (filter (\<lambda>k. bucket_of p k = b) keys))"
    unfolding make_buckets_def by (subst make_buckets_fold(2)) (simp add: gm_get_def)
  then show ?thesis by (auto simp: gm_mem_iff [OF make_buckets_ok])
qed

lemma mset_concat_buckets:
  "distinct (map fst bs) \<Longrightarrow> (\<forall>(b, ks) \<in> set bs. ks = filter (\<lambda>k. f k = b) keys) \<Longrightarrow>
   (\<forall>k \<in> set keys. f k \<in> fst ` set bs) \<Longrightarrow> mset (concat (map snd bs)) = mset keys"
proof (induction bs arbitrary: keys)
  case (Cons bk bs)
  obtain b ks where bk: "bk = (b, ks)" by (cases bk)
  let ?rest = "filter (\<lambda>k. f k \<noteq> b) keys"
  have "mset (concat (map snd bs)) = mset ?rest"
  proof (rule Cons.IH)
    show "\<forall>(c, ks) \<in> set bs. ks = filter (\<lambda>k. f k = c) ?rest"
    proof clarify
      fix c cs assume m: "(c, cs) \<in> set bs"
      then have "c \<noteq> b" using Cons.prems(1) by (force simp: bk)
      then have "(\<lambda>k. f k = c \<and> f k \<noteq> b) = (\<lambda>k. f k = c)" by auto
      then show "cs = filter (\<lambda>k. f k = c) ?rest" using Cons.prems(2) m by (fastforce simp: conj_commute)
    qed
  qed (use Cons.prems in \<open>auto simp: bk\<close>)
  moreover have "ks = filter (\<lambda>k. f k = b) keys" using Cons.prems(2) by (simp add: bk)
  ultimately show ?case
    using multiset_partition [of "mset keys" "\<lambda>k. f k = b"] by (simp add: bk mset_filter)
qed simp

lemma mset_make_buckets: "mset (concat (map snd (make_buckets p keys))) = mset keys"
proof (rule mset_concat_buckets [where f = "bucket_of p"])
  show "\<forall>k \<in> set keys. bucket_of p k \<in> fst ` set (make_buckets p keys)"
  proof
    fix k assume "k \<in> set keys"
    then have "(bucket_of p k, filter (\<lambda>x. bucket_of p x = bucket_of p k) keys) \<in> set (make_buckets p keys)"
      by (auto simp: make_buckets_mem filter_empty_conv)
    then show "bucket_of p k \<in> fst ` set (make_buckets p keys)" by force
  qed
qed (use make_buckets_ok in \<open>auto simp: gm_ok_def make_buckets_mem\<close>)

lemma add_child_fold:
  assumes "distinct (map fst children @ map fst built)" and "map fst hashes = map fst children"
  shows "fold add_child (map (\<lambda>(p, c). (p, Some c)) built) (children, hashes, childHashes) =
    (children @ built, hashes @ map (\<lambda>(p, c). (p, nd_Hash c)) built, childHashes @ map (nd_Hash \<circ> snd) built)"
  using assms
proof (induction built arbitrary: children hashes childHashes)
  case (Cons pc built)
  obtain p c where pc: "pc = (p, c)" by (cases pc)
  have put: "gm_put p v m = m @ [(p, v)]" if "p \<notin> fst ` set m" for m :: "('a \<times> 'b) list" and p v
    using that by (induction m) auto
  have "p \<notin> fst ` set children" and "p \<notin> fst ` set hashes"
    using Cons.prems by (auto simp: pc simp flip: set_map)
  then show ?case
    using Cons.IH [of "children @ [(p, c)]" "hashes @ [(p, nd_Hash c)]"] Cons.prems
    by (simp add: pc add_child_def put)
qed simp

lemma inner_node_eq:
  "distinct (map fst built) \<Longrightarrow>
   inner_node digest level p (map (\<lambda>(p, c). (p, Some c)) built) =
     MerkleNode (digest (concat (sort (map (nd_Hash \<circ> snd) built)))) level p False built
       (map (\<lambda>(p, c). (p, nd_Hash c)) built) []"
  using add_child_fold [of "[]" built "[]" "[]"] by (simp add: inner_node_def)

text \<open>The hash of an inner node does not depend on the order in which its children are visited.\<close>

lemma node_hash_order:
  assumes "mset built = mset built'" and "distinct (map fst built)"
  shows "nd_Hash (inner_node digest level p (map (\<lambda>(p, c). (p, Some c)) built)) =
    nd_Hash (inner_node digest level p (map (\<lambda>(p, c). (p, Some c)) built'))"
proof -
  have "mset (map fst built) = mset (map fst built')"
    using assms(1) by simp
  then have d: "distinct (map fst built')"
    using assms(2) by (metis mset_eq_imp_distinct_iff)
  have "sort (map (nd_Hash \<circ> snd) built) = sort (map (nd_Hash \<circ> snd) built')"
    using assms(1) by (intro properties_for_sort) auto
  then show ?thesis by (simp add: inner_node_eq assms(2) d)
qed

subsection \<open>The shape of a built tree\<close>

fun node_keys :: "MerkleNode \<Rightarrow> string list" where
  "node_keys (MerkleNode h l p leaf cs hs keys) =
     (if leaf then keys else concat (map (\<lambda>(_, c). node_keys c) cs))"

text \<open>
  A node is well formed: a leaf is small or at the maximal depth and hashes its keys with their
  hashes; an inner node has children of distinct prefixes one level below it and hashes their sorted
  hashes; every key below a node extends its prefix.
\<close>

fun node_ok :: "(string \<Rightarrow> string) \<Rightarrow> (string, string) gomap \<Rightarrow> int \<Rightarrow> MerkleNode \<Rightarrow> bool" where
  "node_ok digest resources depth (MerkleNode h l p leaf cs hs keys) \<longleftrightarrow>
     list_all (\<lambda>k. take (length p) k = p) (node_keys (MerkleNode h l p leaf cs hs keys)) \<and>
     (if leaf
      then cs = [] \<and> keys \<noteq> [] \<and> (length keys \<le> 4 \<or> depth \<le> l) \<and> h = digest (leaf_bytes resources keys)
      else l < depth \<and> keys = [] \<and> distinct (map fst cs) \<and> hs = map (\<lambda>(q, c). (q, nd_Hash c)) cs \<and>
           h = digest (concat (sort (map (nd_Hash \<circ> snd) cs))) \<and>
           list_all (\<lambda>(q, c). nd_Prefix c = q \<and> nd_Level c = l + 1 \<and> node_ok digest resources depth c) cs)"

declare node_ok.simps [simp del]

text \<open>What \<open>buildNode\<close> yields for a non-empty list of keys, with every bucket's node named.\<close>

lemma buildNode_inner:
  assumes "level < depth" and "4 < length keys"
    and "\<And>b ks. (b, ks) \<in> set (make_buckets p keys) \<Longrightarrow>
      buildNode digest rs depth ks (level + 1) (p @ b) = Some (node b ks)"
  shows "buildNode digest rs depth keys level p =
    Some (let cs = map (\<lambda>(b, ks). (p @ b, node b ks)) (make_buckets p keys)
          in MerkleNode (digest (concat (sort (map (nd_Hash \<circ> snd) cs)))) level p False cs
               (map (\<lambda>(q, c). (q, nd_Hash c)) cs) [])"
proof -
  let ?cs = "map (\<lambda>(b, ks). (p @ b, node b ks)) (make_buckets p keys)"
  have built: "map (\<lambda>(b, ks). (p @ b, buildNode digest rs depth ks (level + 1) (p @ b))) (make_buckets p keys) =
      map (\<lambda>(q, c). (q, Some c)) ?cs"
    using assms(3) by (auto simp: split_def)
  have "map fst ?cs = map ((@) p) (map fst (make_buckets p keys))"
    by (auto simp: split_def)
  then have "distinct (map fst ?cs)"
    using make_buckets_ok [of p keys] by (simp add: gm_ok_def distinct_map inj_on_def)
  from inner_node_eq [OF this, of digest level p] show ?thesis
    using assms(1,2) by (subst buildNode.simps) (auto simp: Let_def built simp del: map_map)
qed

lemma bucket_extends:
  assumes "take (length p) k = p"
  shows "take (length (p @ bucket_of p k)) k = p @ bucket_of p k"
proof (cases "length k > length p")
  case True
  then have "take (Suc (length p)) k = p @ take 1 (drop (length p) k)"
    using assms take_add [of "length p" 1 k] by simp
  then show ?thesis using True by (simp add: bucket_of_def)
next
  case False
  then have "k = p" using assms by simp
  then show ?thesis by (simp add: bucket_of_def)
qed

lemma buildNode_leaf:
  "keys \<noteq> [] \<Longrightarrow> depth \<le> level \<or> length keys \<le> 4 \<Longrightarrow>
   buildNode digest rs depth keys level p =
     Some (MerkleNode (digest (leaf_bytes rs keys)) level p True [] [] keys)"
  by (subst buildNode.simps) auto

lemma buildNode_ok:
  assumes "keys \<noteq> []" and "\<forall>k \<in> set keys. take (length p) k = p"
  shows "\<exists>n. buildNode digest rs depth keys level p = Some n \<and> nd_Prefix n = p \<and> nd_Level n = level \<and>
    mset (node_keys n) = mset keys \<and> node_ok digest rs depth n"
  using assms
proof (induction digest rs depth keys level p rule: buildNode.induct)
  case (1 digest rs depth keys level p)
  show ?case
  proof (cases "depth \<le> level \<or> length keys \<le> 4")
    case True
    then show ?thesis
      using 1(2,3) by (auto simp: buildNode_leaf node_ok.simps list_all_iff)
  next
    case False
    let ?bs = "make_buckets p keys"
    let ?ok = "\<lambda>b ks n. buildNode digest rs depth ks (level + 1) (p @ b) = Some n \<and> nd_Prefix n = p @ b \<and>
      nd_Level n = level + 1 \<and> mset (node_keys n) = mset ks \<and> node_ok digest rs depth n"
    have "\<exists>n. ?ok b ks n" if m: "(b, ks) \<in> set ?bs" for b ks
      using 1(1) [OF 1(2) False m refl] 1(3) m bucket_extends [of p] by (auto simp: make_buckets_mem)
    then obtain node where node: "\<And>b ks. (b, ks) \<in> set ?bs \<Longrightarrow> ?ok b ks (node b ks)" by metis
    let ?cs = "map (\<lambda>(b, ks). (p @ b, node b ks)) ?bs"
    let ?n = "MerkleNode (digest (concat (sort (map (nd_Hash \<circ> snd) ?cs)))) level p False ?cs
               (map (\<lambda>(q, c). (q, nd_Hash c)) ?cs) []"
    have built: "buildNode digest rs depth keys level p = Some ?n"
      using buildNode_inner [of level depth keys p digest rs node] node False by (auto simp: Let_def)
    have "mset (concat (map (\<lambda>(_, c). node_keys c) ?cs)) = mset (concat (map snd ?bs))"
      using node by (auto simp: mset_concat split_def intro!: arg_cong [of _ _ sum_list])
    then have ks: "mset (node_keys ?n) = mset keys"
      by (simp add: mset_make_buckets)
    then have "set (node_keys ?n) = set keys" by (rule mset_eq_setD)
    then have ext: "list_all (\<lambda>k. take (length p) k = p) (node_keys ?n)"
      using 1(3) by (simp only: list_all_iff)
    have "map fst ?cs = map ((@) p) (map fst ?bs)" by (auto simp: split_def)
    then have "distinct (map fst ?cs)"
      using make_buckets_ok [of p keys] by (simp add: gm_ok_def distinct_map inj_on_def)
    then have "node_ok digest rs depth ?n"
      using ext node False by (subst node_ok.simps) (auto simp: list_all_iff)
    then show ?thesis using built ks by simp
  qed
qed

subsection \<open>Histories of updates\<close>

datatype merkle_event = MtUpdate string string | MtRemove string

definition merkle_step :: "(string \<Rightarrow> string) \<Rightarrow> MerkleTree \<Rightarrow> merkle_event \<Rightarrow> MerkleTree" where
  "merkle_step digest t e =
     (case e of MtUpdate key hash \<Rightarrow> mt_Update digest key hash t | MtRemove key \<Rightarrow> mt_Remove digest key t)"

text \<open>
  The tree is the one \<open>rebuild\<close> makes from its resources, it is empty exactly when there are none,
  and otherwise its root is well formed and its leaves hold every key exactly once.
\<close>

definition tree_ok :: "(string \<Rightarrow> string) \<Rightarrow> MerkleTree \<Rightarrow> bool" where
  "tree_ok digest t \<longleftrightarrow>
     gm_ok (mt_resources t) \<and> 0 < mt_depth t \<and> rebuild digest t = t \<and>
     (case mt_root t of
        None \<Rightarrow> mt_resources t = []
      | Some n \<Rightarrow> nd_Prefix n = '''' \<and> nd_Level n = 0 \<and> mset (node_keys n) = mset (gm_keys (mt_resources t)) \<and>
                  node_ok digest (mt_resources t) (mt_depth t) n)"

lemma rebuild_frame [simp]:
  "mt_resources (rebuild digest t) = mt_resources t" "mt_depth (rebuild digest t) = mt_depth t"
  "rebuild digest (rebuild digest t) = rebuild digest t"
  by (auto simp: rebuild_def)

lemma tree_ok_rebuild:
  assumes "gm_ok (mt_resources t)" and "0 < mt_depth t"
  shows "tree_ok digest (rebuild digest t)"
proof (cases "mt_resources t = []")
  case True
  then show ?thesis using assms by (simp add: tree_ok_def rebuild_def)
next
  case False
  then have ne: "sort (gm_keys (mt_resources t)) \<noteq> []" by (metis length_0_conv length_map length_sort)
  from buildNode_ok [OF ne, of "''''" digest "mt_resources t" "mt_depth t" 0] obtain n where
    "buildNode digest (mt_resources t) (mt_depth t) (sort (gm_keys (mt_resources t))) 0 '''' = Some n"
    "nd_Prefix n = ''''" "nd_Level n = 0" "mset (node_keys n) = mset (gm_keys (mt_resources t))"
    "node_ok digest (mt_resources t) (mt_depth t) n" by auto
  then show ?thesis using False assms by (simp add: tree_ok_def rebuild_def)
qed

lemma tree_ok_New: "tree_ok digest (NewMerkleTree d)"
  by (simp add: tree_ok_def NewMerkleTree_def rebuild_def MerkleTreeDepth_def)

lemma tree_ok_step: "tree_ok digest t \<Longrightarrow> tree_ok digest (merkle_step digest t e)"
  by (cases e)
    (simp_all add: merkle_step_def mt_Update_def mt_Remove_def, simp_all add: tree_ok_def tree_ok_rebuild [unfolded tree_ok_def])

interpretation mkt: invariant_system "merkle_step digest" "\<lambda>_ _. True" "tree_ok digest" for digest
  by unfold_locales (rule tree_ok_step)

lemma tree_ok_run: "tree_ok digest (run (merkle_step digest) (NewMerkleTree d) es)"
  by (rule mkt.run_inv [OF tree_ok_New good_run_True])

lemma depth_run: "mt_depth (run (merkle_step digest) t es) = mt_depth t"
  by (induction es arbitrary: t) (auto simp: merkle_step_def mt_Update_def mt_Remove_def split: merkle_event.split)

text \<open>
  C16. After any history of updates and removals the hash tree is well formed: it is empty exactly
  when it tracks nothing, and otherwise every tracked key is in exactly one leaf, each node lies
  within the configured depth and extends its parent's prefix, every leaf that could be split has
  at most four keys, and every hash is the digest of what is below it.
\<close>
theorem merkle_tree_well_formed:
  "tree_ok digest (run (merkle_step digest) (NewMerkleTree d) es)"
  by (rule tree_ok_run)

text \<open>Two trees over the same contents are equal, whatever their history.\<close>

lemma leaf_bytes_cong: "gm_get '''' rs = gm_get '''' rs' \<Longrightarrow> leaf_bytes rs = leaf_bytes rs'"
  by (simp add: leaf_bytes_def fun_eq_iff)

lemma buildNode_cong:
  "gm_get '''' rs = gm_get '''' rs' \<Longrightarrow>
   buildNode digest rs depth keys level p = buildNode digest rs' depth keys level p"
proof (induction digest rs depth keys level p rule: buildNode.induct)
  case (1 digest rs depth keys level p)
  have "map (\<lambda>(b, ks). (p @ b, buildNode digest rs depth ks (level + 1) (p @ b))) (make_buckets p keys) =
      map (\<lambda>(b, ks). (p @ b, buildNode digest rs' depth ks (level + 1) (p @ b))) (make_buckets p keys)"
    if "keys \<noteq> []" "\<not> (depth \<le> level \<or> length keys \<le> 4)"
    using 1(1) [OF that] 1(2) by auto
  then show ?case
    by (subst (1 2) buildNode.simps) (auto simp: leaf_bytes_cong [OF 1(2)] simp del: map_eq_conv)
qed

lemma rebuild_canonical:
  assumes "gm_ok (mt_resources t)" and "gm_ok (mt_resources t')" and "mt_depth t = mt_depth t'"
    and eq: "map_of (mt_resources t) = map_of (mt_resources t')"
  shows "mt_root (rebuild digest t) = mt_root (rebuild digest t')"
proof -
  have "set (gm_keys (mt_resources t)) = set (gm_keys (mt_resources t'))"
    using arg_cong [OF eq, of dom] by (simp add: dom_map_of_conv_image_fst)
  then have "sort (gm_keys (mt_resources t)) = sort (gm_keys (mt_resources t'))"
    using assms(1,2) by (metis gm_ok_def sorted_list_of_set_sort_remdups distinct_remdups_id)
  moreover have "mt_resources t = [] \<longleftrightarrow> mt_resources t' = []"
    using eq by (metis map_of_eq_empty_iff)
  ultimately show ?thesis
    using assms(3) buildNode_cong [OF gm_get_cong [OF eq]] by (simp add: rebuild_def)
qed

lemma Compare_lists:
  assumes "\<not> (case (mt_root t, mt_root ot) of (Some a, Some b) \<Rightarrow> nd_Hash a = nd_Hash b | _ \<Rightarrow> False)"
  shows "mt_Compare t (Some ot) =
    map fst (filter (\<lambda>(k, h). map_of (mt_resources ot) k \<noteq> Some h) (mt_resources t)) @
    filter (\<lambda>k. map_of (mt_resources t) k = None) (gm_keys (mt_resources ot))"
proof -
  have "fold (\<lambda>(key, hash) diffs. case m key of None \<Rightarrow> diffs @ [key]
          | Some otherHash \<Rightarrow> if otherHash \<noteq> hash then diffs @ [key] else diffs) xs acc =
        acc @ map fst (filter (\<lambda>(k, h). m k \<noteq> Some h) xs)" for m :: "string \<Rightarrow> string option" and xs acc
    by (induction xs arbitrary: acc) (auto split: option.splits)
  then show ?thesis
    using assms by (simp add: mt_Compare_def fold_collect_keys)
qed

lemma Compare_lists_set:
  assumes "gm_ok a" and "gm_ok b"
  shows "set (map fst (filter (\<lambda>(k, h). map_of b k \<noteq> Some h) a) @ filter (\<lambda>k. map_of a k = None) (gm_keys b)) =
    {k. map_of a k \<noteq> map_of b k}"
proof -
  have "k \<in> fst ` {x \<in> set a. case x of (k, h) \<Rightarrow> map_of b k \<noteq> Some h} \<longleftrightarrow>
      (\<exists>h. map_of a k = Some h \<and> map_of b k \<noteq> Some h)" for k
    by (force simp: gm_mem_iff [OF assms(1), symmetric])
  moreover have "k \<in> fst ` set b \<longleftrightarrow> map_of b k \<noteq> None" for k
    by (simp add: map_of_eq_None_iff)
  ultimately have "k \<in> set (map fst (filter (\<lambda>(k, h). map_of b k \<noteq> Some h) a) @
        filter (\<lambda>k. map_of a k = None) (gm_keys b)) \<longleftrightarrow>
      (\<exists>h. map_of a k = Some h \<and> map_of b k \<noteq> Some h) \<or> (map_of b k \<noteq> None \<and> map_of a k = None)" for k
    by (simp only: set_append set_map set_filter Un_iff mem_Collect_eq)
  then show ?thesis
    by (intro set_eqI) (simp only: mem_Collect_eq, metis option.exhaust option.distinct(1))
qed

lemma Compare_lists_distinct:
  "gm_ok a \<Longrightarrow> gm_ok b \<Longrightarrow>
   distinct (map fst (filter (\<lambda>(k, h). map_of b k \<noteq> Some h) a) @ filter (\<lambda>k. map_of a k = None) (gm_keys b))"
  by (auto simp: gm_ok_def distinct_map_filter map_of_eq_None_iff)

text \<open>
  C15. Comparing two trees of the same depth, whatever their histories: the result never repeats a
  key; trees over the same contents have the same root and are reported equal; and unless both
  are non-empty with the same root hash, the reported keys are exactly those on which the two
  resource maps differ.
\<close>
theorem mt_Compare_exact:
  "let t = run (merkle_step digest) (NewMerkleTree d) es;
       u = run (merkle_step digest) (NewMerkleTree d) fs
   in distinct (mt_Compare t (Some u)) \<and>
      (map_of (mt_resources t) = map_of (mt_resources u) \<longrightarrow> mt_root t = mt_root u \<and> mt_Compare t (Some u) = []) \<and>
      (mt_root t = None \<or> mt_root u = None \<or> GetRoot t \<noteq> GetRoot u \<longrightarrow>
         set (mt_Compare t (Some u)) = {k. map_of (mt_resources t) k \<noteq> map_of (mt_resources u) k})"
proof -
  define t where "t = run (merkle_step digest) (NewMerkleTree d) es"
  define u where "u = run (merkle_step digest) (NewMerkleTree d) fs"
  have ok: "gm_ok (mt_resources t)" "gm_ok (mt_resources u)" "rebuild digest t = t" "rebuild digest u = u"
    using tree_ok_run [of digest d es] tree_ok_run [of digest d fs] by (simp_all add: tree_ok_def t_def u_def)
  have same: "mt_root t = mt_root u" if "map_of (mt_resources t) = map_of (mt_resources u)"
    using rebuild_canonical [OF ok(1,2) _ that, of digest] ok(3,4) by (simp add: t_def u_def depth_run)
  note lists = Compare_lists [of t u] Compare_lists_set [OF ok(1,2)] Compare_lists_distinct [OF ok(1,2)]
  have "distinct (mt_Compare t (Some u))"
    using lists by (cases "case (mt_root t, mt_root u) of (Some a, Some b) \<Rightarrow> nd_Hash a = nd_Hash b | _ \<Rightarrow> False")
      (simp add: mt_Compare_def, simp only: not_False_eq_True)
  moreover have "mt_Compare t (Some u) = []" if "map_of (mt_resources t) = map_of (mt_resources u)"
  proof (cases "mt_root u")
    case None
    then have "mt_resources t = []" "mt_resources u = []"
      using ok(3,4) same [OF that] tree_ok_run [of digest d es] tree_ok_run [of digest d fs]
      by (simp_all add: tree_ok_def flip: t_def u_def)
    then show ?thesis by (simp add: mt_Compare_def)
  qed (simp add: mt_Compare_def same [OF that])
  moreover have "set (mt_Compare t (Some u)) = {k. map_of (mt_resources t) k \<noteq> map_of (mt_resources u) k}"
    if "mt_root t = None \<or> mt_root u = None \<or> GetRoot t \<noteq> GetRoot u"
  proof -
    have "\<not> (case (mt_root t, mt_root u) of (Some a, Some b) \<Rightarrow> nd_Hash a = nd_Hash b | _ \<Rightarrow> False)"
      using that by (auto simp: GetRoot_def split: option.splits)
    then show ?thesis using lists(1,2) by simp
  qed
  ultimately show ?thesis using same by (simp add: Let_def flip: t_def u_def)
qed

theorem mt_Compare_exact_witness:
  "let digest = (\<lambda>s. s);
       t = run (merkle_step digest) (NewMerkleTree 4) [MtUpdate ''VIP/a'' ''1'', MtUpdate ''VIP/b'' ''2''];
       u = run (merkle_step digest) (NewMerkleTree 4) [MtUpdate ''VIP/b'' ''3'', MtUpdate ''VIP/c'' ''4'']
   in GetRoot t \<noteq> GetRoot u \<and>
      set (mt_Compare t (Some u)) = {k. map_of (mt_resources t) k \<noteq> map_of (mt_resources u) k}"
proof -
  have ne: "GetRoot (run (merkle_step (\<lambda>s. s)) (NewMerkleTree 4) [MtUpdate ''VIP/a'' ''1'', MtUpdate ''VIP/b'' ''2'']) \<noteq>
      GetRoot (run (merkle_step (\<lambda>s. s)) (NewMerkleTree 4) [MtUpdate ''VIP/b'' ''3'', MtUpdate ''VIP/c'' ''4''])"
    by code_simp
  then show ?thesis
    using mt_Compare_exact [of "\<lambda>s. s" 4 "[MtUpdate ''VIP/a'' ''1'', MtUpdate ''VIP/b'' ''2'']"
        "[MtUpdate ''VIP/b'' ''3'', MtUpdate ''VIP/c'' ''4'']"]
    by (simp only: Let_def simp_thms)
qed

text \<open>
  The bytes of a leaf are its keys and hashes without a separator, so for every digest two
  trees with one resource each, of different keys, have the same root and are reported equal.
\<close>
lemma mt_Compare_misses_moved_bytes:
  "let t = run (merkle_step digest) (NewMerkleTree d) [MtUpdate key (c # hash)];
       u = run (merkle_step digest) (NewMerkleTree d) [MtUpdate (key @ [c]) hash]
   in mt_Compare t (Some u) = [] \<and> map_of (mt_resources t) key \<noteq> map_of (mt_resources u) key"
  by (simp add: merkle_step_def mt_Update_def rebuild_def NewMerkleTree_def buildNode_leaf leaf_bytes_def
      gm_get_def mt_Compare_def Let_def)

subsection \<open>Looking up a node\<close>

lemma findChild_SomeE:
  assumes "findChild cs p = Some n"
  shows "\<exists>x \<in> set cs. fst x = p \<and> n = snd x \<or>
    length (fst x) < length p \<and> take (length (fst x)) p = fst x \<and> findNode (snd x) p = Some n"
  using assms
proof (induction cs)
  case (Cons x cs)
  then show ?case by (cases x) (auto split: if_splits option.splits)
qed simp

lemma bucket_iff:
  assumes "take (length p) k = p"
  shows "bucket_of p k = b \<and> b \<noteq> [] \<longleftrightarrow> length b = 1 \<and> take (length (p @ b)) k = p @ b"
proof (cases "length k > length p")
  case True
  then have t: "take (Suc (length p)) k = p @ take 1 (drop (length p) k)" "length (take 1 (drop (length p) k)) = 1"
    using assms take_add [of "length p" 1 k] by auto
  show ?thesis
  proof (cases "length b = 1")
    case False
    then show ?thesis using t(2) True by (auto simp: bucket_of_def)
  next
    case b: True
    then have "take (length (p @ b)) k = p @ take 1 (drop (length p) k)" using t(1) by simp
    then show ?thesis using b True by (auto simp: bucket_of_def)
  qed
next
  case False
  then show ?thesis using assms by (auto simp: bucket_of_def)
qed

lemma bucket_node:
  assumes "(b, ks) \<in> set (make_buckets p keys)" and "\<forall>k \<in> set keys. take (length p) k = p"
  shows "\<exists>c. buildNode digest rs depth ks (level + 1) (p @ b) = Some c \<and> nd_Prefix c = p @ b \<and>
    set (node_keys c) = set ks \<and> node_ok digest rs depth c"
proof -
  have "ks \<noteq> []" and "\<forall>k \<in> set ks. take (length (p @ b)) k = p @ b"
    using assms bucket_extends [of p] by (auto simp: make_buckets_mem)
  from buildNode_ok [OF this, of digest rs depth "level + 1"] show ?thesis
    by (metis mset_eq_setD)
qed

text \<open>The bucket of the keys without a further character has one key, hence a leaf.\<close>

lemma empty_bucket_leaf:
  assumes "([], ks) \<in> set (make_buckets p keys)" and "\<forall>k \<in> set keys. take (length p) k = p"
    and "distinct keys" and "buildNode digest rs depth ks l p = Some c" and "p \<noteq> q"
  shows "findNode c q = None"
proof -
  have ks: "ks = filter (\<lambda>k. bucket_of p k = []) keys" "ks \<noteq> []"
    using assms(1) unfolding make_buckets_mem by blast+
  have "set ks \<subseteq> {p}" using assms(2) by (auto simp: ks(1) bucket_of_def split: if_splits)
  then have "card (set ks) \<le> 1" using card_mono [of "{p}" "set ks"] by simp
  then have "length ks \<le> 4" using distinct_card [of ks] assms(3) ks(1) by simp
  then show ?thesis using assms(4,5) ks(2) by (auto simp: buildNode_leaf)
qed

lemma findNode_sound:
  assumes "buildNode digest rs depth keys level p = Some n" and "distinct keys"
    and "\<forall>k \<in> set keys. take (length p) k = p" and "take (length p) q = p" and "findNode n q = Some m"
  shows "nd_Prefix m = q \<and> set (node_keys m) = {k \<in> set keys. take (length q) k = q} \<and> node_ok digest rs depth m"
  using assms
proof (induction digest rs depth keys level p arbitrary: n rule: buildNode.induct)
  case (1 digest rs depth keys level p)
  have ne: "keys \<noteq> []" using 1(2) by (auto simp: buildNode.simps [of _ _ _ "[]"])
  from buildNode_ok [OF ne 1(4), of digest rs depth level] 1(2)
  have n: "nd_Prefix n = p" "set (node_keys n) = set keys" "node_ok digest rs depth n"
    by (auto dest: mset_eq_setD)
  consider (here) "p = q" | (leaf) "p \<noteq> q" "depth \<le> level \<or> length keys \<le> 4"
    | (below) "p \<noteq> q" "\<not> (depth \<le> level \<or> length keys \<le> 4)" by blast
  then show ?case
  proof cases
    case here
    then have "m = n" using 1(6) n(1) by (cases n) auto
    then show ?thesis using n here 1(4) by auto
  next
    case leaf
    then show ?thesis using 1(2,6) ne by (auto simp: buildNode_leaf)
  next
    case below
    let ?bs = "make_buckets p keys"
    from bucket_node [OF _ 1(4), of _ _ digest rs depth level] obtain node where
      node: "\<And>b ks. (b, ks) \<in> set ?bs \<Longrightarrow>
        buildNode digest rs depth ks (level + 1) (p @ b) = Some (node b ks) \<and> nd_Prefix (node b ks) = p @ b \<and>
        set (node_keys (node b ks)) = set ks \<and> node_ok digest rs depth (node b ks)" by metis
    have "findChild (map (\<lambda>(b, ks). (p @ b, node b ks)) ?bs) q = Some m"
      using buildNode_inner [of level depth keys p digest rs node] node below 1(2,6) by (auto simp: Let_def)
    from findChild_SomeE [OF this] obtain b ks where b: "(b, ks) \<in> set ?bs" and
      found: "p @ b = q \<and> m = node b ks \<or>
        length (p @ b) < length q \<and> take (length (p @ b)) q = p @ b \<and> findNode (node b ks) q = Some m" by auto
    have ks: "ks = filter (\<lambda>k. bucket_of p k = b) keys" using b by (simp add: make_buckets_mem)
    have "b \<noteq> []"
      using found below(1) node [OF b] empty_bucket_leaf [OF _ 1(4,3), of ks digest rs depth "level + 1" _ q] b by auto
    then have one: "length b = 1" and bk: "\<And>k. k \<in> set keys \<Longrightarrow> bucket_of p k = b \<longleftrightarrow> take (length (p @ b)) k = p @ b"
      using b bucket_iff [of p _ b] 1(4) by (auto simp: make_buckets_mem filter_empty_conv)
    from found show ?thesis
    proof
      assume "p @ b = q \<and> m = node b ks"
      then show ?thesis using node [OF b] bk by (auto simp: ks)
    next
      assume deep: "length (p @ b) < length q \<and> take (length (p @ b)) q = p @ b \<and> findNode (node b ks) q = Some m"
      have "nd_Prefix m = q \<and> set (node_keys m) = {k \<in> set ks. take (length q) k = q} \<and> node_ok digest rs depth m"
        using 1(1) [OF ne below(2) b refl, of "node b ks"] node [OF b] 1(3) bk deep by (auto simp: ks)
      moreover have "take (length (p @ b)) k = p @ b" if "take (length q) k = q" for k
        using deep that by (metis less_imp_le min.absorb1 take_take)
      ultimately show ?thesis using bk by (auto simp: ks)
    qed
  qed
qed


text \<open>
  The node found at a prefix covers exactly the tracked keys with that prefix, and its hash is
  the one computed from them.
\<close>
lemma GetNodeAt_covers_prefix:
  assumes "t = run (merkle_step digest) (NewMerkleTree d) es" and "GetNodeAt prefix t = Some n"
  shows "nd_Prefix n = prefix \<and>
    set (node_keys n) = {k. map_of (mt_resources t) k \<noteq> None \<and> take (length prefix) k = prefix} \<and>
    node_ok digest (mt_resources t) (mt_depth t) n"
proof -
  have ok: "tree_ok digest t" unfolding assms(1) by (rule tree_ok_run)
  from assms(2) obtain r where r: "mt_root t = Some r" "findNode r prefix = Some n"
    by (auto simp: GetNodeAt_def split: option.splits)
  have "mt_root (rebuild digest t) = Some r" using ok r(1) by (simp add: tree_ok_def)
  then have "buildNode digest (mt_resources t) (mt_depth t) (sort (gm_keys (mt_resources t))) 0 '''' = Some r"
    by (auto simp: rebuild_def split: if_splits)
  moreover have "distinct (sort (gm_keys (mt_resources t)))"
    using ok by (simp add: tree_ok_def gm_ok_def)
  ultimately have "nd_Prefix n = prefix \<and>
      set (node_keys n) = {k \<in> set (sort (gm_keys (mt_resources t))). take (length prefix) k = prefix} \<and>
      node_ok digest (mt_resources t) (mt_depth t) n"
    using r(2) by (intro findNode_sound [where p = "''''"]) auto
  then show ?thesis by (auto simp: map_of_eq_None_iff simp flip: set_map)
qed

definition sample_tree :: MerkleTree where
  "sample_tree = run (merkle_step (\<lambda>s. s)) (NewMerkleTree 4)
     [MtUpdate ''a1'' ''u'', MtUpdate ''a2'' ''v'', MtUpdate ''b1'' ''w'', MtUpdate ''b2'' ''x'', MtUpdate ''b3'' ''y'']"

end
