(* ===== verification/Full_Sync.thy ===== *)
theory Full_Sync
  imports Fed_Convergence
begin

section \<open>Full synchronisation\<close>

text \<open>
  \<open>RequestFullSync\<close> of the federation server: which resources it selects, how it splits them into
  batches, how often a peer may ask, and what a new member holds after applying the batches.
\<close>

subsection \<open>Batches\<close>

text \<open>The reference definition: chunks of \<open>n\<close> resources, the last one flagged.\<close>

fun batch_list ::
  "nat \<Rightarrow> (string, int) gomap \<Rightarrow> int \<Rightarrow> int \<Rightarrow> ResourceChange list \<Rightarrow> ResourceBatch list" where
  "batch_list n vc tot num rs =
     (if n = 0 \<or> rs = [] then []
      else \<lparr>rb_BatchNumber = SafeIntToInt32 num, rb_IsLast = (length rs \<le> n), rb_Resources = take n rs,
            rb_TotalResources = tot, rb_VectorClock = vc\<rparr> # batch_list n vc tot (num + 1) (drop n rs))"

declare batch_list.simps [simp del]

lemma sendBatches_all:
  assumes "0 < n" and "k \<le> length rs"
  shows "sendBatches (\<lambda>_. True) (int n) vc rs (int k) num sent =
    Some (sent @ batch_list n vc (SafeIntToInt32 (int (length rs))) num (drop k rs), None)"
  using assms(2)
proof (induction "length rs - k" arbitrary: k num sent rule: less_induct)
  case less
  show ?case
  proof (cases "k < length rs")
    case False
    then show ?thesis using less.prems
      by (subst sendBatches.simps) (simp add: batch_list.simps [of _ _ _ _ "[]"])
  next
    case True
    let ?b = "\<lparr>rb_BatchNumber = SafeIntToInt32 num, rb_IsLast = (length (drop k rs) \<le> n),
      rb_Resources = take n (drop k rs), rb_TotalResources = SafeIntToInt32 (int (length rs)), rb_VectorClock = vc\<rparr>"
    show ?thesis
    proof (cases "k + n < length rs")
      case in_range: True
      then have not_last: "(length rs - k \<le> n) = False" by auto
      have "sendBatches (\<lambda>_. True) (int n) vc rs (int (k + n)) (num + 1) (sent @ [?b]) =
          Some ((sent @ [?b]) @ batch_list n vc (SafeIntToInt32 (int (length rs))) (num + 1) (drop (k + n) rs), None)"
        using in_range assms(1) by (intro less.hyps) auto
      then show ?thesis
        using in_range True assms(1)
        by (subst sendBatches.simps, subst batch_list.simps)
          (simp add: Let_def nat_diff_distrib add.commute not_last)
    next
      case last: False
      have rest: "batch_list n vc t m [] = []" for t m
        by (simp add: batch_list.simps)
      have is_last: "(length rs - k \<le> n) = True" using last by auto
      have stop: "sendBatches (\<lambda>_. True) (int n) vc rs (int k + int n) (num + 1) (sent @ [?b]) = Some (sent @ [?b], None)"
        using last by (subst sendBatches.simps) simp
      show ?thesis
        using last True assms(1) stop
        by (subst sendBatches.simps, subst batch_list.simps) (auto simp: Let_def rest is_last nat_diff_distrib)
    qed
  qed
qed

lemma batch_list_concat: "0 < n \<Longrightarrow> concat (map rb_Resources (batch_list n vc t num rs)) = rs"
proof (induction n vc t num rs rule: batch_list.induct)
  case (1 n vc t num rs)
  then show ?case by (subst batch_list.simps) simp
qed

lemma batch_list_size: "b \<in> set (batch_list n vc t num rs) \<Longrightarrow> rb_Resources b \<noteq> [] \<and> length (rb_Resources b) \<le> n"
proof (induction n vc t num rs rule: batch_list.induct)
  case (1 n vc t num rs)
  from 1(2) show ?case
    by (subst (asm) batch_list.simps) (use 1(1) in \<open>auto split: if_splits\<close>)
qed

lemma batch_list_last:
  "0 < n \<Longrightarrow> rs \<noteq> [] \<Longrightarrow> map rb_IsLast (batch_list n vc t num rs) =
     replicate (length (batch_list n vc t num rs) - 1) False @ [True]"
proof (induction n vc t num rs rule: batch_list.induct)
  case (1 n vc t num rs)
  show ?case
  proof (cases "length rs \<le> n")
    case True
    then have "batch_list n vc t (num + 1) (drop n rs) = []" by (simp add: batch_list.simps)
    then show ?thesis using 1(2,3) True by (subst (1 2) batch_list.simps) simp
  next
    case False
    then have "map rb_IsLast (batch_list n vc t (num + 1) (drop n rs)) =
        replicate (length (batch_list n vc t (num + 1) (drop n rs)) - 1) False @ [True]"
      using 1 by simp
    moreover have "length (batch_list n vc t (num + 1) (drop n rs)) > 0"
      using False 1(2) by (subst batch_list.simps) simp
    ultimately show ?thesis
      using False 1(2,3)
      by (subst (1 2) batch_list.simps) (simp add: Suc_diff_Suc flip: replicate_Suc)
  qed
qed

lemma sendFullSyncBatches_all:
  assumes "0 \<le> cf_BatchSize (sv_config s)"
  shows "\<exists>bs. sendFullSyncBatches (\<lambda>_. True) rs s = Some (bs, None) \<and>
    concat (map rb_Resources bs) = rs \<and>
    map rb_IsLast bs = replicate (length bs - 1) False @ [True] \<and>
    (rs \<noteq> [] \<longrightarrow> (\<forall>b \<in> set bs. rb_Resources b \<noteq> [] \<and>
       (0 < cf_BatchSize (sv_config s) \<longrightarrow> int (length (rb_Resources b)) \<le> cf_BatchSize (sv_config s))))"
proof (cases "rs = []")
  case True
  then show ?thesis by (simp add: sendFullSyncBatches_def Let_def)
next
  case False
  define n where "n = (if cf_BatchSize (sv_config s) = 0 then length rs else nat (cf_BatchSize (sv_config s)))"
  have n: "0 < n" and size: "0 < cf_BatchSize (sv_config s) \<Longrightarrow> int n = cf_BatchSize (sv_config s)"
    using False assms by (auto simp: n_def)
  have "(if cf_BatchSize (sv_config s) = 0 then int (length rs) else cf_BatchSize (sv_config s)) = int n"
    using assms by (simp add: n_def)
  then have "sendFullSyncBatches (\<lambda>_. True) rs s =
      Some (batch_list n (vc_ToMap (sv_vectorClock s)) (SafeIntToInt32 (int (length rs))) 0 rs, None)"
    using False sendBatches_all [OF n, of 0 rs "vc_ToMap (sv_vectorClock s)" 0 "[]"]
    by (simp add: sendFullSyncBatches_def Let_def)
  then show ?thesis
    using batch_list_concat [OF n] batch_list_last [OF n False] batch_list_size size
    by (metis (no_types, lifting) of_nat_le_iff)
qed

text \<open>
  Sending a full synchronisation terminates and is lossless for every batch size that is not
  negative: the batches put together are exactly the selected resources in order, no batch is
  empty or larger than the batch size (0 means one batch), and only the last one is flagged.
  With no resources one empty last batch is sent.
\<close>
lemma full_sync_batches_lossless:
  assumes "0 \<le> cf_BatchSize (sv_config s)"
  shows "\<exists>bs. sendFullSyncBatches (\<lambda>_. True) rs s = Some (bs, None) \<and>
    concat (map rb_Resources bs) = rs \<and>
    map rb_IsLast bs = replicate (length bs - 1) False @ [True] \<and>
    (rs \<noteq> [] \<longrightarrow> (\<forall>b \<in> set bs. rb_Resources b \<noteq> [] \<and>
       (0 < cf_BatchSize (sv_config s) \<longrightarrow> int (length (rb_Resources b)) \<le> cf_BatchSize (sv_config s))))"
  by (rule sendFullSyncBatches_all [OF assms])

text \<open>
  A negative batch size (the type \<open>int32\<close> allows it and nothing rejects it) makes the slice
  expression of the first batch panic as soon as there is a resource to send.
\<close>
lemma negative_batch_size_panics:
  assumes "cf_BatchSize (sv_config s) < 0" and "rs \<noteq> []"
  shows "sendFullSyncBatches sendOk rs s = Some ([], Some Panic_SliceBounds)"
  using assms by (simp add: sendFullSyncBatches_def Let_def) (subst sendBatches.simps, simp)

subsection \<open>Selection\<close>

definition selected :: "FullSyncRequest \<Rightarrow> TrackedResource \<Rightarrow> bool" where
  "selected req res \<longleftrightarrow>
     (fr_ResourceTypes req = [] \<or> rk_Kind (tr_Key res) \<in> set (fr_ResourceTypes req)) \<and>
     (fr_Namespaces req = [] \<or> rk_Namespace (tr_Key res) \<in> set (fr_Namespaces req)) \<and>
     \<not> HappenedBefore (NewVectorClockFromMap (tr_VectorClock res)) (NewVectorClockFromMap (fr_VectorClock req))"

lemma selected_iff:
  "selected req res \<longleftrightarrow> resourceMatchesFilter res (fr_ResourceTypes req) (fr_Namespaces req) \<and>
     (HappenedAfter (NewVectorClockFromMap (tr_VectorClock res)) (NewVectorClockFromMap (fr_VectorClock req)) \<or>
      Concurrent (NewVectorClockFromMap (tr_VectorClock res)) (NewVectorClockFromMap (fr_VectorClock req)))"
  by (auto simp: selected_def resourceMatchesFilter_def list_ex_iff vc_order_val)

primrec number_changes :: "(nat \<Rightarrow> string) \<Rightarrow> nat \<Rightarrow> TrackedResource list \<Rightarrow> ResourceChange list" where
  "number_changes uuids n [] = []"
| "number_changes uuids n (r # rs) = fullSyncChange (uuids n) r # number_changes uuids (Suc n) rs"

lemma number_changes_snoc:
  "number_changes uuids n (rs @ [r]) = number_changes uuids n rs @ [fullSyncChange (uuids (n + length rs)) r]"
  by (induction rs arbitrary: n) auto

lemma length_number_changes [simp]: "length (number_changes uuids n rs) = length rs"
  by (induction rs arbitrary: n) auto

lemma collect_number_changes:
  "collectFullSyncResources uuids req s = number_changes uuids 0 (filter (selected req) (map snd (sv_resources s)))"
proof -
  define f where "f = (\<lambda>(_ :: string, res) resources.
      if \<not> resourceMatchesFilter res (fr_ResourceTypes req) (fr_Namespaces req) then resources
      else let resVC = NewVectorClockFromMap (tr_VectorClock res)
           in if \<not> HappenedAfter resVC (NewVectorClockFromMap (fr_VectorClock req)) \<and>
                 \<not> Concurrent resVC (NewVectorClockFromMap (fr_VectorClock req)) then resources
              else resources @ [fullSyncChange (uuids (length resources)) res])"
  have step: "f (k, r) acc = (if selected req r then acc @ [fullSyncChange (uuids (length acc)) r] else acc)" for k r acc
    by (auto simp: f_def selected_iff Let_def)
  have "fold f kvs (number_changes uuids 0 rs) = number_changes uuids 0 (rs @ filter (selected req) (map snd kvs))" for kvs rs
  proof (induction kvs arbitrary: rs)
    case (Cons kv kvs)
    obtain k r where kv: "kv = (k, r)" by (cases kv)
    show ?case
      using Cons.IH [of rs] Cons.IH [of "rs @ [r]"] by (simp add: kv step number_changes_snoc)
  qed simp
  from this [of "sv_resources s" "[]"] show ?thesis
    unfolding collectFullSyncResources_def f_def [symmetric] by (simp add: f_def [symmetric] Let_def)
qed

lemma fullSyncChange_upsert: "is_upsert (fullSyncChange u r)"
  by (simp add: is_upsert_def fullSyncChange_def)

lemma fullSyncChange_roundtrip:
  assumes "MinInt64 \<le> tr_LastModified r" and "tr_LastModified r \<le> MaxInt64"
  shows "change_key (fullSyncChange u r) = tr_Key r"
    and "change_resource (change_key (fullSyncChange u r)) (fullSyncChange u r) = r"
proof -
  show key: "change_key (fullSyncChange u r) = tr_Key r"
    by (cases "tr_Key r") (simp add: change_key_def fullSyncChange_def)
  show "change_resource (change_key (fullSyncChange u r)) (fullSyncChange u r) = r"
    unfolding key using assms
    by (cases r) (simp add: change_resource_def fullSyncChange_def unix_nano_def wrap64_id)
qed

text \<open>
  C14. A full synchronisation brings a new member level: when the requester holds nothing, asks for
  everything and no stored version happened before its clock, applying the sent changes in order
  leaves it with exactly the resources of the server, every field included.
\<close>
theorem full_sync_copies_all:
  assumes "server_inv s" and "sv_resources b = []"
    and "fr_ResourceTypes req = []" and "fr_Namespaces req = []"
    and "\<forall>(k, r) \<in> set (sv_resources s). MinInt64 \<le> tr_LastModified r \<and> tr_LastModified r \<le> MaxInt64 \<and>
      \<not> HappenedBefore (NewVectorClockFromMap (tr_VectorClock r)) (NewVectorClockFromMap (fr_VectorClock req))"
  shows "map_of (sv_resources (run (deliver env now p) b (collectFullSyncResources uuids req s))) =
    map_of (sv_resources s)"
proof -
  have key: "rk_String (tr_Key r) = k" if "(k, r) \<in> set (sv_resources s)" for k r
    using assms(1) that by (auto simp: server_inv_def gm_all_def list_all_iff)
  have "filter (selected req) (map snd (sv_resources s)) = map snd (sv_resources s)"
    using assms(3-5) by (intro filter_True) (fastforce simp: selected_def)
  then have sent: "collectFullSyncResources uuids req s = number_changes uuids 0 (map snd (sv_resources s))"
    by (simp add: collect_number_changes)
  have ok: "distinct (map fst (sv_resources s))" using assms(1) by (simp add: server_inv_def gm_ok_def)
  have "map_of (sv_resources (run (deliver env now p) b (number_changes uuids n (map snd kvs)))) =
      map_of (sv_resources b) ++ map_of kvs"
    if "set kvs \<subseteq> set (sv_resources s)" "distinct (map fst kvs)"
      "\<forall>k \<in> fst ` set kvs. map_of (sv_resources b) k = None" for kvs n b
    using that
  proof (induction kvs arbitrary: n b)
    case (Cons kv kvs)
    obtain k r where kv: "kv = (k, r)" by (cases kv)
    let ?c = "fullSyncChange (uuids n) r"
    have mem: "(k, r) \<in> set (sv_resources s)" using Cons.prems(1) kv by simp
    have str: "change_str ?c = k" and res: "change_resource (change_key ?c) ?c = r"
      using fullSyncChange_roundtrip [of r "uuids n"] assms(5) mem key [OF mem] by auto
    let ?b = "deliver env now p b ?c"
    have put: "sv_resources ?b = gm_put k r (sv_resources b)"
      using handle_fresh [of b ?c] Cons.prems(3) str res
      by (simp add: kv deliver_def applyChange_upsert fullSyncChange_upsert)
    have new: "map_of kvs k = None" using Cons.prems(2) kv by (auto simp: map_of_eq_None_iff)
    have free: "\<forall>k' \<in> fst ` set kvs. map_of (sv_resources ?b) k' = None"
      using Cons.prems(2,3) by (auto simp: kv put update_conv' rev_image_eqI)
    have "map_of (sv_resources (run (deliver env now p) ?b (number_changes uuids (Suc n) (map snd kvs)))) =
        map_of (sv_resources ?b) ++ map_of kvs"
      using Cons.prems(1,2) by (intro Cons.IH free) auto
    then show ?case
      using new by (auto simp: kv put update_conv' fun_eq_iff map_add_def split: option.splits)
  qed simp
  from this [of "sv_resources s" b 0] show ?thesis using ok assms(2) by (simp add: sent)
qed

theorem full_sync_copies_all_witness:
  "map_of (sv_resources (run (deliver sample_env 0 ''a'') (NewServer None) (collectFullSyncResources (\<lambda>_. ''u'')
       \<lparr>fr_FederationId = '''', fr_RequesterMember = ''b'', fr_ResourceTypes = [], fr_Namespaces = [], fr_VectorClock = []\<rparr>
       (sample_deliver sample_server (sample_change [(''c'', 1)] PB_CREATED ''one'' 10)))))
   = map_of (sv_resources (sample_deliver sample_server (sample_change [(''c'', 1)] PB_CREATED ''one'' 10)))"
proof -
  let ?s = "sample_deliver sample_server (sample_change [(''c'', 1)] PB_CREATED ''one'' 10)"
  let ?req = "\<lparr>fr_FederationId = '''', fr_RequesterMember = ''b'', fr_ResourceTypes = [], fr_Namespaces = [], fr_VectorClock = []\<rparr>"
  have inv: "server_inv ?s"
    by (intro sample_deliver_inv sample_server_inv) (simp add: sample_change_def gm_ok_def)
  have b: "sv_resources (NewServer None) = []"
    and all: "\<forall>(k, r) \<in> set (sv_resources ?s). MinInt64 \<le> tr_LastModified r \<and> tr_LastModified r \<le> MaxInt64 \<and>
      \<not> HappenedBefore (NewVectorClockFromMap (tr_VectorClock r)) (NewVectorClockFromMap (fr_VectorClock ?req))"
    by code_simp+
  show ?thesis by (rule full_sync_copies_all [OF inv b _ _ all]) simp_all
qed

subsection \<open>Cooldown\<close>

text \<open>
  The times at which the requests of one peer are accepted, in a sequence of requests of any
  peers.
\<close>

primrec accepted :: "string \<Rightarrow> Server \<Rightarrow> (gotime \<times> string) list \<Rightarrow> gotime list" where
  "accepted p s [] = []"
| "accepted p s (tq # reqs) =
     (let r = checkFullSyncCooldown (fst tq) (snd tq) s
      in (if snd r = None \<and> snd tq = p then [fst tq] else []) @ accepted p (fst r) reqs)"

lemma cooldown_cases:
  "checkFullSyncCooldown t q s =
     (if \<exists>u. map_of (sv_fullSyncCooldowns s) q = Some u \<and> t - u < fullSyncCooldown then (s, Some ResourceExhausted)
      else (s\<lparr>sv_fullSyncCooldowns := gm_put q t (sv_fullSyncCooldowns s)\<rparr>, None))"
  by (auto simp: checkFullSyncCooldown_def time_sub_less fullSyncCooldown_def sec_def MaxInt64_def MinInt64_def
      split: option.splits)

lemma accepted_spaced:
  "successively (\<lambda>t u. fullSyncCooldown \<le> u - t)
     ((case map_of (sv_fullSyncCooldowns s) p of None \<Rightarrow> [] | Some u \<Rightarrow> [u]) @ accepted p s reqs)"
proof (induction reqs arbitrary: s)
  case Nil
  then show ?case by (simp split: option.splits)
next
  case (Cons tq reqs)
  obtain t q where tq: "tq = (t, q)" by (cases tq)
  show ?case
  proof (cases "snd (checkFullSyncCooldown t q s) = None")
    case False
    then obtain e where "checkFullSyncCooldown t q s = (s, Some e)" by (auto simp: cooldown_cases split: if_splits)
    then show ?thesis using Cons.IH [of s] by (simp add: tq)
  next
    case True
    let ?s = "fst (checkFullSyncCooldown t q s)"
    have s: "?s = s\<lparr>sv_fullSyncCooldowns := gm_put q t (sv_fullSyncCooldowns s)\<rparr>"
      and far: "map_of (sv_fullSyncCooldowns s) q = Some u \<Longrightarrow> fullSyncCooldown \<le> t - u" for u
      using True by (auto simp: cooldown_cases split: if_splits)
    have look: "map_of (sv_fullSyncCooldowns ?s) q = Some t" by (simp add: s update_conv')
    show ?thesis
    proof (cases "q = p")
      case True
      have "successively (\<lambda>t u. fullSyncCooldown \<le> u - t) (t # accepted p ?s reqs)"
        using Cons.IH [of ?s] look True by simp
      then show ?thesis
        using True far \<open>snd (checkFullSyncCooldown t q s) = None\<close>
        by (auto simp: tq Let_def successively_Cons split: option.splits)
    next
      case False
      then show ?thesis using Cons.IH [of ?s] True by (simp add: tq Let_def s update_conv')
    qed
  qed
qed

text \<open>
  Rate limit of full synchronisation: whatever the sequence of requests, two consecutive
  accepted requests of the same peer are at least 30 seconds apart, also when requests of other
  peers come in between.
\<close>
lemma full_sync_cooldown:
  "successively (\<lambda>t u. sec 30 \<le> u - t) (accepted p s reqs)"
proof -
  have "successively (\<lambda>t u. fullSyncCooldown \<le> u - t) (accepted p s reqs)"
    using accepted_spaced [of s p reqs] by (auto simp: successively_append_iff)
  then show ?thesis by (simp add: fullSyncCooldown_def)
qed

end
