(* ===== verification/Peer_Client.thy ===== *)
theory Peer_Client
  imports Full_Sync
begin

section \<open>The client of a peer (\<open>internal/controller/federation/client.go\<close>)\<close>

text \<open>
  \<open>PeerClient\<close>: the connection to one peer, its sync stream, and the calls made over it. What the
  network and the libraries answer is an argument: whether dialling, opening a stream or sending
  succeeds, what is received, and whether certificates parse (\<open>tls_env\<close>). A connection records the
  credentials it was opened with. A callback is a number, as in the server. The goroutine
  \<open>receiveLoop\<close> is modelled by its iterations. Locks, logging and gRPC options are not modelled.
\<close>

subsection \<open>State\<close>

record TLSConfig =
  tc_MinVersion :: int
  tc_InsecureSkipVerify :: bool
  tc_ServerName :: string
  tc_RootCAs :: "bytes option"
  tc_Certificates :: "(bytes \<times> bytes) list"

datatype Transport = Insecure | TransportTLS TLSConfig

record tls_env =
  env_AppendCertsFromPEM :: "bytes \<Rightarrow> bool"
  env_X509KeyPair :: "bytes \<Rightarrow> bytes \<Rightarrow> bool"

datatype client_error =
    ErrTLSConfig client_error
  | ErrParseCACertificate string
  | ErrClientCertificate string
  | ErrDial
  | ErrNotConnectedToPeer
  | ErrCreateStream
  | ErrSendHandshake
  | ErrReceiveHandshake
  | ErrExpectedHandshake
  | ErrSyncStreamNotEstablished
  | ErrSend
  | ErrRPC
  | ErrRequestFullSync
  | ErrFullSyncBatchLimitExceeded
  | Panic_NilLocalMember

record PeerClient =
  pc_peer :: PeerInfo
  pc_config :: Config
  pc_conn :: "Transport option"
  pc_client :: bool
  pc_stream :: bool
  pc_streamCancel :: bool
  pc_onMessage :: "nat option"
  pc_onDisconnect :: "nat option"
  pc_connected :: bool
  pc_healthy :: bool
  pc_lastPing :: gotime
  pc_pingLatency :: duration

definition NewPeerClient :: "PeerInfo \<Rightarrow> Config \<Rightarrow> PeerClient" where
  "NewPeerClient peer config =
     \<lparr>pc_peer = peer, pc_config = config, pc_conn = None, pc_client = False, pc_stream = False,
      pc_streamCancel = False, pc_onMessage = None, pc_onDisconnect = None, pc_connected = False,
      pc_healthy = False, pc_lastPing = time_zero, pc_pingLatency = 0\<rparr>"

definition setConnected :: "bool \<Rightarrow> PeerClient \<Rightarrow> PeerClient" where
  "setConnected connected c = c\<lparr>pc_connected := connected\<rparr>"

definition setHealthy :: "bool \<Rightarrow> PeerClient \<Rightarrow> PeerClient" where
  "setHealthy healthy c = c\<lparr>pc_healthy := healthy\<rparr>"

definition pc_OnMessage :: "nat \<Rightarrow> PeerClient \<Rightarrow> PeerClient" where
  "pc_OnMessage fn c = c\<lparr>pc_onMessage := Some fn\<rparr>"

definition pc_OnDisconnect :: "nat \<Rightarrow> PeerClient \<Rightarrow> PeerClient" where
  "pc_OnDisconnect fn c = c\<lparr>pc_onDisconnect := Some fn\<rparr>"

definition IsConnected :: "PeerClient \<Rightarrow> bool" where "IsConnected c = pc_connected c"
definition pc_IsHealthy :: "PeerClient \<Rightarrow> bool" where "pc_IsHealthy c = pc_healthy c"
definition GetLatency :: "PeerClient \<Rightarrow> duration" where "GetLatency c = pc_pingLatency c"

subsection \<open>Connecting\<close>

definition VersionTLS13 :: int where "VersionTLS13 = 772"

definition buildTLSConfig :: "tls_env \<Rightarrow> PeerClient \<Rightarrow> client_error + TLSConfig" where
  "buildTLSConfig env c =
     (let peer = pc_peer c;
          config = \<lparr>tc_MinVersion = VersionTLS13, tc_InsecureSkipVerify = pi_InsecureSkipVerify peer,
                    tc_ServerName = '''', tc_RootCAs = None, tc_Certificates = []\<rparr>;
          config1 = (if pi_TLSServerName peer \<noteq> '''' then config\<lparr>tc_ServerName := pi_TLSServerName peer\<rparr> else config)
      in if length (pi_CACert peer) > 0 \<and> \<not> env_AppendCertsFromPEM env (pi_CACert peer)
         then Inl (ErrParseCACertificate (pi_Name peer))
         else
           (let config2 = (if length (pi_CACert peer) > 0 then config1\<lparr>tc_RootCAs := Some (pi_CACert peer)\<rparr> else config1)
            in if length (pi_ClientCert peer) > 0 \<and> length (pi_ClientKey peer) > 0
               then (if env_X509KeyPair env (pi_ClientCert peer) (pi_ClientKey peer)
                     then Inr (config2\<lparr>tc_Certificates := [(pi_ClientCert peer, pi_ClientKey peer)]\<rparr>)
                     else Inl (ErrClientCertificate (pi_Name peer)))
               else Inr config2))"

definition Connect :: "tls_env \<Rightarrow> bool \<Rightarrow> PeerClient \<Rightarrow> PeerClient \<times> client_error option" where
  "Connect env dialOk c =
     (if pc_conn c \<noteq> None then (c, None)
      else
        (let creds = (if pi_TLSEnabled (pc_peer c)
                      then (case buildTLSConfig env c of
                              Inl err \<Rightarrow> Inl (ErrTLSConfig err)
                            | Inr tlsConfig \<Rightarrow> Inr (TransportTLS tlsConfig))
                      else Inr Insecure)
         in case creds of
              Inl err \<Rightarrow> (c, Some err)
            | Inr transport \<Rightarrow>
                if dialOk then (setConnected True (c\<lparr>pc_conn := Some transport, pc_client := True\<rparr>), None)
                else (c, Some ErrDial)))"

definition Disconnect :: "PeerClient \<Rightarrow> PeerClient" where
  "Disconnect c =
     (let c1 = (if pc_streamCancel c then c\<lparr>pc_streamCancel := False\<rparr> else c);
          c2 = (if pc_conn c1 \<noteq> None then c1\<lparr>pc_conn := None, pc_client := False\<rparr> else c1)
      in setHealthy False (setConnected False c2))"

text \<open>
  \<open>StartSyncStream\<close>. \<open>openOk\<close> and \<open>sendOk\<close> say whether the stream opens and the handshake is sent,
  \<open>recv\<close> is the answer. The result is the handshake that was sent. A cancelled stream keeps its
  cancel function, and the stream set before a failed handshake stays.
\<close>

definition StartSyncStream ::
  "bool \<Rightarrow> bool \<Rightarrow> SyncMessage option \<Rightarrow> (string, int) gomap \<Rightarrow> PeerClient
   \<Rightarrow> PeerClient \<times> (client_error + SyncHandshake)" where
  "StartSyncStream openOk sendOk recv localVectorClock c =
     (if \<not> pc_client c then (c, Inl ErrNotConnectedToPeer)
      else
        (let c1 = c\<lparr>pc_streamCancel := True\<rparr>
         in if \<not> openOk then (c1, Inl ErrCreateStream)
            else
              (let c2 = c1\<lparr>pc_stream := True\<rparr>
               in case cf_LocalMember (pc_config c) of
                    None \<Rightarrow> (c2, Inl Panic_NilLocalMember)
                  | Some me \<Rightarrow>
                      (let handshake = \<lparr>hs_FederationId = cf_FederationID (pc_config c), hs_MemberName = pi_Name me,
                              hs_Region = pi_Region me, hs_Zone = pi_Zone me, hs_VectorClock = localVectorClock,
                              hs_ProtocolVersion = ProtocolVersion, hs_Features = [],
                              hs_Compression = cf_CompressionEnabled (pc_config c)\<rparr>
                       in if \<not> sendOk then (c2, Inl ErrSendHandshake)
                          else case recv of
                                 None \<Rightarrow> (c2, Inl ErrReceiveHandshake)
                               | Some (MsgHandshake _) \<Rightarrow> (setHealthy True c2, Inr handshake)
                               | Some _ \<Rightarrow> (c2, Inl ErrExpectedHandshake)))))"

text \<open>
  One iteration of \<open>receiveLoop\<close>: it hands the message to the callback, if one is set, or it ends
  and runs its deferred function, which marks the client as disconnected and calls \<open>onDisconnect\<close>.
\<close>

datatype receive_result = Received "nat option" SyncMessage | Ended "nat option"

definition receiveLoop :: "bool \<Rightarrow> SyncMessage option \<Rightarrow> PeerClient \<Rightarrow> PeerClient \<times> receive_result" where
  "receiveLoop ctxDone recv c =
     (if ctxDone \<or> \<not> pc_stream c then (setConnected False c, Ended (pc_onDisconnect c))
      else case recv of
             None \<Rightarrow> (setConnected False c, Ended (pc_onDisconnect c))
           | Some msg \<Rightarrow> (c, Received (pc_onMessage c) msg))"

subsection \<open>Calls\<close>

definition SendMessage :: "bool \<Rightarrow> SyncMessage \<Rightarrow> PeerClient \<Rightarrow> client_error + SyncMessage" where
  "SendMessage sendOk msg c =
     (if \<not> pc_stream c then Inl ErrSyncStreamNotEstablished
      else if sendOk then Inr msg else Inl ErrSend)"

definition SendChange :: "bool \<Rightarrow> ResourceChange \<Rightarrow> PeerClient \<Rightarrow> client_error + SyncMessage" where
  "SendChange sendOk change c = SendMessage sendOk (MsgChange change) c"

definition SendHeartbeat ::
  "bool \<Rightarrow> gotime \<Rightarrow> (string, int) gomap \<Rightarrow> int \<Rightarrow> int \<Rightarrow> PeerClient \<Rightarrow> client_error + SyncMessage" where
  "SendHeartbeat sendOk now vectorClock pendingChanges agentCount c =
     SendMessage sendOk (MsgHeartbeat \<lparr>hb_VectorClock = vectorClock, hb_Timestamp = unix_nano now,
       hb_PendingChanges = pendingChanges, hb_AgentCount = agentCount\<rparr>) c"

definition SendAck ::
  "bool \<Rightarrow> string list \<Rightarrow> (string, int) gomap \<Rightarrow> ChangeError list \<Rightarrow> PeerClient \<Rightarrow> client_error + SyncMessage" where
  "SendAck sendOk changeIDs vectorClock errors c =
     SendMessage sendOk (MsgAck \<lparr>ak_ChangeIds = changeIDs, ak_VectorClock = vectorClock, ak_Errors = errors\<rparr>) c"

text \<open>\<open>Ping\<close> reads the clock before and after the call and once more to store the time of the ping.\<close>

definition pc_Ping ::
  "gotime \<Rightarrow> gotime \<Rightarrow> gotime \<Rightarrow> bool \<Rightarrow> PeerClient \<Rightarrow> PeerClient \<times> (client_error option \<times> duration)" where
  "pc_Ping start done stored ok c =
     (if \<not> pc_client c then (c, (Some ErrNotConnectedToPeer, 0))
      else if cf_LocalMember (pc_config c) = None then (c, (Some Panic_NilLocalMember, 0))
      else
        (let latency = time_sub done start
         in if ok then (setHealthy True (c\<lparr>pc_lastPing := stored, pc_pingLatency := latency\<rparr>), (None, latency))
            else (setHealthy False c, (Some ErrRPC, latency))))"

text \<open>\<open>GetState\<close>: the identifiers sent with the request.\<close>

definition pc_GetState :: "PeerClient \<Rightarrow> client_error + string \<times> string" where
  "pc_GetState c =
     (if \<not> pc_client c then Inl ErrNotConnectedToPeer
      else case cf_LocalMember (pc_config c) of
             None \<Rightarrow> Inl Panic_NilLocalMember
           | Some me \<Rightarrow> Inr (cf_FederationID (pc_config c), pi_Name me))"

text \<open>
  The loop of \<open>RequestFullSync\<close>: \<open>stream n\<close> is what the n-th call of \<open>Recv\<close> gives, for any
  stream, an endless one included. \<open>None\<close> is a loop that never ends.
\<close>

definition maxFullSyncBatches :: nat where "maxFullSyncBatches = 10000"

datatype stream_item = RecvBatch ResourceBatch | RecvEOF | RecvError

partial_function (option) collectBatches ::
  "(nat \<Rightarrow> stream_item) \<Rightarrow> ResourceBatch list \<Rightarrow> (ResourceBatch list \<times> client_error option) option" where
  [code]: "collectBatches stream batches =
     (case stream (length batches) of
        RecvEOF \<Rightarrow> Some (batches, None)
      | RecvError \<Rightarrow> Some (batches, Some ErrRPC)
      | RecvBatch batch \<Rightarrow>
          (let batches' = batches @ [batch]
           in if length batches' > maxFullSyncBatches then Some ([], Some ErrFullSyncBatchLimitExceeded)
              else if rb_IsLast batch then Some (batches', None)
              else collectBatches stream batches'))"

definition fullSyncRequest :: "string list \<Rightarrow> string list \<Rightarrow> (string, int) gomap \<Rightarrow> PeerInfo \<Rightarrow> PeerClient \<Rightarrow> FullSyncRequest" where
  "fullSyncRequest resourceTypes namespaces vectorClock me c =
     \<lparr>fr_FederationId = cf_FederationID (pc_config c), fr_RequesterMember = pi_Name me,
      fr_ResourceTypes = resourceTypes, fr_Namespaces = namespaces, fr_VectorClock = vectorClock\<rparr>"

text \<open>\<open>call\<close> is the peer: what the request leads to, \<open>None\<close> when the call itself fails.\<close>

definition pc_RequestFullSync ::
  "(FullSyncRequest \<Rightarrow> (nat \<Rightarrow> stream_item) option) \<Rightarrow> string list \<Rightarrow> string list \<Rightarrow> (string, int) gomap
   \<Rightarrow> PeerClient \<Rightarrow> (ResourceBatch list \<times> client_error option) option" where
  "pc_RequestFullSync call resourceTypes namespaces vectorClock c =
     (if \<not> pc_client c then Some ([], Some ErrNotConnectedToPeer)
      else case cf_LocalMember (pc_config c) of
             None \<Rightarrow> Some ([], Some Panic_NilLocalMember)
           | Some me \<Rightarrow>
               (case call (fullSyncRequest resourceTypes namespaces vectorClock me c) of
                  None \<Rightarrow> Some ([], Some ErrRequestFullSync)
                | Some stream \<Rightarrow> collectBatches stream []))"


subsection \<open>Connections and their credentials\<close>

datatype client_event =
    ClConnect bool
  | ClDisconnect
  | ClStartStream bool bool "SyncMessage option" "(string, int) gomap"
  | ClReceive bool "SyncMessage option"
  | ClPing gotime gotime gotime bool
  | ClOnMessage nat
  | ClOnDisconnect nat

definition client_step :: "tls_env \<Rightarrow> PeerClient \<Rightarrow> client_event \<Rightarrow> PeerClient" where
  "client_step env c e =
     (case e of
        ClConnect dialOk \<Rightarrow> fst (Connect env dialOk c)
      | ClDisconnect \<Rightarrow> Disconnect c
      | ClStartStream openOk sendOk recv vc \<Rightarrow> fst (StartSyncStream openOk sendOk recv vc c)
      | ClReceive ctxDone recv \<Rightarrow> fst (receiveLoop ctxDone recv c)
      | ClPing t1 t2 t3 ok \<Rightarrow> fst (pc_Ping t1 t2 t3 ok c)
      | ClOnMessage fn \<Rightarrow> pc_OnMessage fn c
      | ClOnDisconnect fn \<Rightarrow> pc_OnDisconnect fn c)"

text \<open>
  The credentials the configuration of the peer asks for: TLS 1.3 or later exactly when it is
  enabled, verification left out only when configured, the given CA as the only root and a client
  certificate when both its parts are given.
\<close>

definition transport_ok :: "tls_env \<Rightarrow> PeerInfo \<Rightarrow> Transport \<Rightarrow> bool" where
  "transport_ok env peer tr =
     (case tr of
        Insecure \<Rightarrow> \<not> pi_TLSEnabled peer
      | TransportTLS cfg \<Rightarrow>
          pi_TLSEnabled peer \<and> tc_MinVersion cfg = VersionTLS13 \<and>
          tc_InsecureSkipVerify cfg = pi_InsecureSkipVerify peer \<and> tc_ServerName cfg = pi_TLSServerName peer \<and>
          tc_RootCAs cfg = (if pi_CACert peer = '''' then None else Some (pi_CACert peer)) \<and>
          (pi_CACert peer \<noteq> '''' \<longrightarrow> env_AppendCertsFromPEM env (pi_CACert peer)) \<and>
          tc_Certificates cfg = (if pi_ClientCert peer = '''' \<or> pi_ClientKey peer = '''' then []
                                 else [(pi_ClientCert peer, pi_ClientKey peer)]))"

definition client_ok :: "tls_env \<Rightarrow> PeerInfo \<Rightarrow> Config \<Rightarrow> PeerClient \<Rightarrow> bool" where
  "client_ok env peer cfg c \<longleftrightarrow>
     pc_peer c = peer \<and> pc_config c = cfg \<and> (pc_client c \<longleftrightarrow> pc_conn c \<noteq> None) \<and>
     (\<forall>tr. pc_conn c = Some tr \<longrightarrow> transport_ok env peer tr) \<and>
     (pc_connected c \<or> pc_healthy c \<longrightarrow> pc_conn c \<noteq> None)"

lemma buildTLSConfig_ok:
  "pi_TLSEnabled (pc_peer c) \<Longrightarrow> buildTLSConfig env c = Inr cfg \<Longrightarrow> transport_ok env (pc_peer c) (TransportTLS cfg)"
  by (auto simp: buildTLSConfig_def transport_ok_def Let_def split: if_splits)

lemma client_ok_Connect:
  assumes "client_ok env peer cfg c"
  shows "client_ok env peer cfg (fst (Connect env dialOk c))"
proof (cases "pc_conn c")
  case None
  have "transport_ok env peer tr"
    if "(if pi_TLSEnabled (pc_peer c) then (case buildTLSConfig env c of Inl err \<Rightarrow> Inl (ErrTLSConfig err)
          | Inr tlsConfig \<Rightarrow> Inr (TransportTLS tlsConfig)) else Inr Insecure) = Inr tr" for tr
    using that assms buildTLSConfig_ok [of c env]
    by (auto simp: client_ok_def transport_ok_def [of _ _ Insecure] split: if_splits sum.splits)
  then show ?thesis
    using assms None by (auto simp: Connect_def Let_def client_ok_def setConnected_def split: sum.split)
qed (use assms in \<open>simp add: Connect_def\<close>)

lemma client_ok_step:
  assumes "client_ok env peer cfg c"
  shows "client_ok env peer cfg (client_step env c e)"
proof (cases e)
  case (ClConnect dialOk)
  then show ?thesis using assms by (simp add: client_step_def client_ok_Connect)
next
  case (ClStartStream o s r v)
  then show ?thesis using assms
    by (auto simp: client_step_def client_ok_def StartSyncStream_def Let_def setHealthy_def
        split: option.splits SyncMessage.splits)
qed (use assms in \<open>auto simp: client_step_def client_ok_def Disconnect_def receiveLoop_def pc_Ping_def Let_def
      setConnected_def setHealthy_def pc_OnMessage_def pc_OnDisconnect_def split: option.splits\<close>)

interpretation pcl: invariant_system "client_step env" "\<lambda>_ _. True" "client_ok env peer cfg" for env peer cfg
  by unfold_locales (rule client_ok_step)

lemma client_ok_New: "client_ok env peer cfg (NewPeerClient peer cfg)"
  by (simp add: client_ok_def NewPeerClient_def)

text \<open>
  C18. Whatever happens to a client, its connection has the credentials its peer's configuration
  asks for: it is in clear text only when TLS is off, and with TLS it requires version 1.3,
  verifies the peer unless configured otherwise, and trusts only the configured CA, if one is
  given. A client reports itself connected or healthy only while it holds a connection.
\<close>
theorem peer_connection_is_secured:
  "client_ok env peer cfg (run (client_step env) (NewPeerClient peer cfg) es)"
  by (rule pcl.run_inv [OF client_ok_New good_run_True])

text \<open>
  A client does not report a new connection: when its stream ends it is marked as
  disconnected but keeps the connection, so connecting again does nothing, and after the new
  stream is established it still says that it is not connected.
\<close>
lemma reconnected_client_not_connected:
  assumes "pc_conn c \<noteq> None" and "pc_client c" and "cf_LocalMember (pc_config c) = Some me"
  shows "let c1 = fst (receiveLoop False None c);
             c2 = fst (Connect env dialOk c1);
             (c3, hs) = StartSyncStream True True (Some (MsgHandshake h)) vc c2
         in snd (Connect env dialOk c1) = None \<and> (\<exists>sent. hs = Inr sent) \<and> pc_stream c3 \<and> pc_IsHealthy c3 \<and> \<not> IsConnected c3"
  using assms
  by (auto simp: receiveLoop_def Connect_def StartSyncStream_def setConnected_def setHealthy_def pc_IsHealthy_def
      IsConnected_def Let_def)

definition sample_tls :: tls_env where
  "sample_tls = \<lparr>env_AppendCertsFromPEM = (\<lambda>_. True), env_X509KeyPair = (\<lambda>_ _. True)\<rparr>"

definition sample_handshake :: SyncHandshake where
  "sample_handshake = \<lparr>hs_FederationId = ''fed'', hs_MemberName = ''b'', hs_Region = '''', hs_Zone = '''',
     hs_VectorClock = [], hs_ProtocolVersion = 1, hs_Features = [], hs_Compression = True\<rparr>"

definition sample_client :: PeerClient where
  "sample_client = fst (StartSyncStream True True (Some (MsgHandshake sample_handshake)) [] (fst (Connect sample_tls True
     (NewPeerClient (PeerInfo_named ''b'')
        (DefaultConfig\<lparr>cf_FederationID := ''fed'', cf_LocalMember := Some (PeerInfo_named ''a'')\<rparr>)))))"

subsection \<open>Receiving a full synchronisation\<close>

lemma collectBatches_returns:
  assumes "length bs \<le> maxFullSyncBatches"
  shows "\<exists>r err. collectBatches stream bs = Some (r, err) \<and> length r \<le> maxFullSyncBatches"
  using assms
proof (induction "maxFullSyncBatches - length bs" arbitrary: bs rule: less_induct)
  case less
  show ?case
  proof (cases "stream (length bs)")
    case (RecvBatch b)
    show ?thesis
    proof (cases "length (bs @ [b]) > maxFullSyncBatches \<or> rb_IsLast b")
      case True
      then show ?thesis using RecvBatch by (subst collectBatches.simps) (auto simp: Let_def)
    next
      case False
      then show ?thesis
        using RecvBatch less.hyps [of "bs @ [b]"]
        by (subst collectBatches.simps) (simp add: Let_def diff_less_mono2 Suc_le_lessD)
    qed
  qed (use less.prems in \<open>auto simp: collectBatches.simps [of stream bs]\<close>)
qed

lemma collectBatches_prefix:
  assumes "length bs \<le> maxFullSyncBatches" and "\<forall>n \<le> maxFullSyncBatches. stream n = stream' n"
  shows "collectBatches stream bs = collectBatches stream' bs"
  using assms(1)
proof (induction "maxFullSyncBatches - length bs" arbitrary: bs rule: less_induct)
  case less
  have "collectBatches stream (bs @ [b]) = collectBatches stream' (bs @ [b])"
    if "length (bs @ [b]) \<le> maxFullSyncBatches" for b
    using that less.hyps [of "bs @ [b]"] by auto
  then show ?case
    using less.prems assms(2) by (subst (1 2) collectBatches.simps) (auto simp: Let_def split: stream_item.splits)
qed

text \<open>
  C13. Requesting a full synchronisation always returns, also from a peer that sends batches
  without end: it keeps at most 10000 batches, and what a peer sends after the first 10001
  messages has no influence on the result.
\<close>
theorem full_sync_request_terminates:
  "(\<exists>bs err. pc_RequestFullSync call types nss vc c = Some (bs, err) \<and> length bs \<le> maxFullSyncBatches) \<and>
   ((\<forall>n \<le> maxFullSyncBatches. stream n = stream' n) \<longrightarrow>
    pc_RequestFullSync (\<lambda>_. Some stream) types nss vc c = pc_RequestFullSync (\<lambda>_. Some stream') types nss vc c)"
proof -
  have "\<exists>bs err. pc_RequestFullSync call types nss vc c = Some (bs, err) \<and> length bs \<le> maxFullSyncBatches"
    using collectBatches_returns [of "[]"]
    by (auto simp: pc_RequestFullSync_def maxFullSyncBatches_def split: option.splits)
  moreover have "pc_RequestFullSync (\<lambda>_. Some stream) types nss vc c = pc_RequestFullSync (\<lambda>_. Some stream') types nss vc c"
    if "\<forall>n \<le> maxFullSyncBatches. stream n = stream' n"
    using collectBatches_prefix [of "[]" stream stream'] that by (simp add: pc_RequestFullSync_def split: option.splits)
  ultimately show ?thesis by blast
qed

theorem full_sync_request_terminates_witness:
  "\<exists>bs err. pc_RequestFullSync (\<lambda>_. Some (\<lambda>_. RecvBatch \<lparr>rb_BatchNumber = 0, rb_IsLast = False, rb_Resources = [],
     rb_TotalResources = 0, rb_VectorClock = []\<rparr>)) [] [] [] sample_client = Some (bs, err) \<and>
     length bs \<le> maxFullSyncBatches \<and>
     pc_RequestFullSync (\<lambda>_. Some (\<lambda>n. if n \<le> maxFullSyncBatches then RecvEOF else RecvError)) [] [] [] sample_client =
     pc_RequestFullSync (\<lambda>_. Some (\<lambda>n. RecvEOF)) [] [] [] sample_client"
  using full_sync_request_terminates [of "\<lambda>_. Some (\<lambda>_. RecvBatch \<lparr>rb_BatchNumber = 0, rb_IsLast = False,
      rb_Resources = [], rb_TotalResources = 0, rb_VectorClock = []\<rparr>)" "[]" "[]" "[]" sample_client
      "\<lambda>n. if n \<le> maxFullSyncBatches then RecvEOF else RecvError" "\<lambda>n. RecvEOF"] by simp

text \<open>A peer's stream: the batches its server sends, then the end or the error.\<close>

definition stream_of :: "ResourceBatch list \<Rightarrow> bool \<Rightarrow> nat \<Rightarrow> stream_item" where
  "stream_of bs failed n = (if n < length bs then RecvBatch (bs ! n) else if failed then RecvError else RecvEOF)"

definition serve :: "gotime \<Rightarrow> (nat \<Rightarrow> string) \<Rightarrow> Server \<Rightarrow> FullSyncRequest \<Rightarrow> (nat \<Rightarrow> stream_item) option" where
  "serve now uuids s req =
     map_option (\<lambda>(_, bs, err). stream_of bs (err \<noteq> None)) (RequestFullSync now uuids (\<lambda>_. True) req s)"

lemma collectBatches_stream:
  assumes "map rb_IsLast bs = replicate (length bs - 1) False @ [True]" and "length bs \<le> maxFullSyncBatches"
    and "k < length bs"
  shows "collectBatches (stream_of bs failed) (take k bs) = Some (bs, None)"
  using assms(3)
proof (induction "length bs - k" arbitrary: k rule: less_induct)
  case less
  have flag: "rb_IsLast (bs ! k) \<longleftrightarrow> Suc k = length bs"
    using arg_cong [OF assms(1), of "\<lambda>xs. xs ! k"] less.prems by (auto simp: nth_append)
  have next_item: "stream_of bs failed (length (take k bs)) = RecvBatch (bs ! k)"
    and snoc: "take k bs @ [bs ! k] = take (Suc k) bs"
    using less.prems by (simp_all add: stream_of_def take_Suc_conv_app_nth)
  show ?case
  proof (cases "Suc k = length bs")
    case True
    then show ?thesis
      using assms(2) less.prems flag next_item snoc by (subst collectBatches.simps) (simp add: Let_def)
  next
    case False
    then have "collectBatches (stream_of bs failed) (take (Suc k) bs) = Some (bs, None)"
      using less.prems less.hyps [of "Suc k"] by simp
    then show ?thesis
      using assms(2) less.prems flag next_item snoc False by (subst collectBatches.simps) (simp add: Let_def)
  qed
qed

lemma length_concat_nonempty: "\<forall>x \<in> set xs. f x \<noteq> [] \<Longrightarrow> length xs \<le> length (concat (map f xs))"
proof (induction xs)
  case (Cons x xs)
  then show ?case by (cases "f x") auto
qed simp

lemma collect_frame: "collectFullSyncResources uuids req (s\<lparr>sv_fullSyncCooldowns := m\<rparr>) = collectFullSyncResources uuids req s"
  by (simp add: collectFullSyncResources_def)

lemma RequestFullSync_served:
  assumes "fr_FederationId req = cf_FederationID (sv_config s)" and "0 \<le> cf_BatchSize (sv_config s)"
    and "map_of (sv_fullSyncCooldowns s) (fr_RequesterMember req) = None"
  shows "\<exists>s' bs. RequestFullSync now uuids (\<lambda>_. True) req s = Some (s', bs, None) \<and>
    concat (map rb_Resources bs) = collectFullSyncResources uuids req s \<and>
    map rb_IsLast bs = replicate (length bs - 1) False @ [True] \<and>
    length bs \<le> max 1 (length (collectFullSyncResources uuids req s))"
proof -
  let ?s = "s\<lparr>sv_fullSyncCooldowns := gm_put (fr_RequesterMember req) now (sv_fullSyncCooldowns s)\<rparr>"
  let ?rs = "collectFullSyncResources uuids req s"
  have "0 \<le> cf_BatchSize (sv_config ?s)" using assms(2) by simp
  from sendFullSyncBatches_all [OF this, of ?rs] obtain bs where
    bs: "sendFullSyncBatches (\<lambda>_. True) ?rs ?s = Some (bs, None)" "concat (map rb_Resources bs) = ?rs"
      "map rb_IsLast bs = replicate (length bs - 1) False @ [True]"
      "?rs \<noteq> [] \<longrightarrow> (\<forall>b \<in> set bs. rb_Resources b \<noteq> [])" by blast
  have "length bs \<le> max 1 (length ?rs)"
  proof (cases "?rs = []")
    case True
    then have "bs = [\<lparr>rb_BatchNumber = 0, rb_IsLast = True, rb_Resources = [], rb_TotalResources = 0,
        rb_VectorClock = vc_ToMap (sv_vectorClock ?s)\<rparr>]"
      using bs(1) by (simp add: sendFullSyncBatches_def Let_def)
    then show ?thesis by simp
  next
    case False
    then show ?thesis using bs(2,4) length_concat_nonempty [of bs rb_Resources] by simp
  qed
  then show ?thesis
    using assms bs by (auto simp: RequestFullSync_def checkFullSyncCooldown_def collect_frame)
qed

text \<open>
  C8. A full synchronisation is complete end to end: when the client of one controller asks the
  server of another in the same federation, for the first time, and the server has selected at
  most 10000 resources, the batches the client returns hold exactly the selected resources,
  in order, however the server splits them.
\<close>
theorem full_sync_end_to_end:
  assumes "pc_client c" and "cf_LocalMember (pc_config c) = Some me"
    and "cf_FederationID (pc_config c) = cf_FederationID (sv_config s)" and "0 \<le> cf_BatchSize (sv_config s)"
    and "map_of (sv_fullSyncCooldowns s) (pi_Name me) = None"
    and "rs = collectFullSyncResources uuids (fullSyncRequest types nss vc me c) s" and "length rs \<le> 10000"
  shows "\<exists>bs. pc_RequestFullSync (serve now uuids s) types nss vc c = Some (bs, None) \<and>
    concat (map rb_Resources bs) = rs"
proof -
  let ?req = "fullSyncRequest types nss vc me c"
  have "fr_FederationId ?req = cf_FederationID (sv_config s)"
    and "map_of (sv_fullSyncCooldowns s) (fr_RequesterMember ?req) = None"
    using assms(3,5) by (simp_all add: fullSyncRequest_def)
  from RequestFullSync_served [OF this(1) assms(4) this(2), of now uuids] obtain s' bs where
    bs: "RequestFullSync now uuids (\<lambda>_. True) ?req s = Some (s', bs, None)" "concat (map rb_Resources bs) = rs"
      "map rb_IsLast bs = replicate (length bs - 1) False @ [True]" "length bs \<le> max 1 (length rs)"
    using assms(6) by auto
  have "bs \<noteq> []" using bs(3) by auto
  then have "collectBatches (stream_of bs False) [] = Some (bs, None)"
    using collectBatches_stream [OF bs(3), of 0 False] bs(4) assms(7) by (simp add: maxFullSyncBatches_def)
  then show ?thesis
    using bs(1,2) assms(1,2) by (simp add: pc_RequestFullSync_def serve_def)
qed

theorem full_sync_end_to_end_witness:
  "\<exists>bs. pc_RequestFullSync (serve 0 (\<lambda>_. ''u'') ((sample_deliver sample_server (sample_change [(''b'', 1)] PB_UPDATED ''x'' 1))
     \<lparr>sv_config := pc_config sample_client\<rparr>)) [] [] [] sample_client = Some (bs, None) \<and> concat (map rb_Resources bs) \<noteq> []"
proof -
  define s where "s = (sample_deliver sample_server (sample_change [(''b'', 1)] PB_UPDATED ''x'' 1))
    \<lparr>sv_config := pc_config sample_client\<rparr>"
  have *: "pc_client sample_client" "cf_LocalMember (pc_config sample_client) = Some (PeerInfo_named ''a'')"
    "cf_FederationID (pc_config sample_client) = cf_FederationID (sv_config s)" "0 \<le> cf_BatchSize (sv_config s)"
    "map_of (sv_fullSyncCooldowns s) (pi_Name (PeerInfo_named ''a'')) = None"
    "length (collectFullSyncResources (\<lambda>_. ''u'') (fullSyncRequest [] [] [] (PeerInfo_named ''a'') sample_client) s) \<le> 10000"
    "collectFullSyncResources (\<lambda>_. ''u'') (fullSyncRequest [] [] [] (PeerInfo_named ''a'') sample_client) s \<noteq> []"
    unfolding s_def by code_simp+
  from full_sync_end_to_end [OF *(1-5) refl *(6), of 0] obtain bs where
    "pc_RequestFullSync (serve 0 (\<lambda>_. ''u'') s) [] [] [] sample_client = Some (bs, None)"
    "concat (map rb_Resources bs) \<noteq> []" using *(7) by metis
  then show ?thesis unfolding s_def by blast
qed
end
