(* ===== verification/Anti_Entropy.thy ===== *)
theory Anti_Entropy
  imports Merkle_Tree Peer_Client
begin

section \<open>Anti-entropy (\<open>internal/controller/federation/antientropy.go\<close>)\<close>

text \<open>
  \<open>AntiEntropyManager\<close>: the periodic comparison of the local resources with those of every connected
  peer and the repair of what differs. The shared server is an argument and a result of the
  operations, a nil server \<open>None\<close>. The environment \<open>ae_env\<close> holds what lies outside: the clock, the
  digest, the peer clients, what a peer answers to a full-sync request, the fresh UUIDs and the
  outcome of the n-th push to a peer. The result of an operation carries the changes pushed to the
  peer; \<open>None\<close> stands for a call that never returns. A range loop that stops at the batch limit is
  a fold whose remaining iterations do nothing.
\<close>

subsection \<open>State\<close>

definition DefaultAntiEntropyInterval :: duration where "DefaultAntiEntropyInterval = sec 300"
definition MaxDriftResolutionBatch :: int where "MaxDriftResolutionBatch = 100"

record AntiEntropyConfig =
  ac_Enabled :: bool
  ac_Interval :: duration
  ac_BatchSize :: int
  ac_RepairMode :: string

definition DefaultAntiEntropyConfig :: AntiEntropyConfig where
  "DefaultAntiEntropyConfig =
     \<lparr>ac_Enabled = True, ac_Interval = DefaultAntiEntropyInterval, ac_BatchSize = MaxDriftResolutionBatch,
      ac_RepairMode = RepairModeBidirectional\<rparr>"

record DriftReport =
  dr_Peer :: string
  dr_Timestamp :: gotime
  dr_DifferingKeys :: "string list"
  dr_MissingLocally :: "string list"
  dr_MissingRemotely :: "string list"
  dr_HashMismatches :: "string list"

text \<open>The literal \<open>DriftReport{Peer: peerName, Timestamp: time.Now()}\<close>.\<close>

definition DriftReport_new :: "string \<Rightarrow> gotime \<Rightarrow> DriftReport" where
  "DriftReport_new peerName now =
     \<lparr>dr_Peer = peerName, dr_Timestamp = now, dr_DifferingKeys = [], dr_MissingLocally = [],
      dr_MissingRemotely = [], dr_HashMismatches = []\<rparr>"

record AntiEntropyManager =
  am_config :: AntiEntropyConfig
  am_localTree :: MerkleTree
  am_driftReports :: "DriftReport list"
  am_running :: bool

record ae_env =
  ae_fed :: fed_env
  ae_digest :: "string \<Rightarrow> string"
  ae_now :: gotime
  ae_peerLookup :: "(string \<Rightarrow> PeerClient option) option"
  ae_call :: "string \<Rightarrow> FullSyncRequest \<Rightarrow> (nat \<Rightarrow> stream_item) option"
  ae_uuid :: "string \<Rightarrow> nat \<Rightarrow> string"
  ae_sendOk :: "string \<Rightarrow> nat \<Rightarrow> bool"

definition NewAntiEntropyManager :: "AntiEntropyConfig option \<Rightarrow> AntiEntropyManager" where
  "NewAntiEntropyManager config =
     \<lparr>am_config = (case config of None \<Rightarrow> DefaultAntiEntropyConfig | Some c \<Rightarrow> c),
      am_localTree = NewMerkleTree MerkleTreeDepth, am_driftReports = [], am_running = False\<rparr>"

text \<open>\<open>Start\<close> runs the loop only when enabled; \<open>Stop\<close> cancels it.\<close>

definition ae_Start :: "AntiEntropyManager \<Rightarrow> AntiEntropyManager" where
  "ae_Start m = (if \<not> ac_Enabled (am_config m) then m else m\<lparr>am_running := True\<rparr>)"

definition ae_Stop :: "AntiEntropyManager \<Rightarrow> AntiEntropyManager" where
  "ae_Stop m = m\<lparr>am_running := False\<rparr>"

definition rebuildLocalTree :: "ae_env \<Rightarrow> Server option \<Rightarrow> AntiEntropyManager \<Rightarrow> AntiEntropyManager" where
  "rebuildLocalTree env server m =
     (let m1 = m\<lparr>am_localTree := NewMerkleTree MerkleTreeDepth\<rparr>
      in case server of
           None \<Rightarrow> m1
         | Some s \<Rightarrow>
             m1\<lparr>am_localTree := fold (\<lambda>(keyStr, resource). mt_Update (ae_digest env) keyStr (tr_Hash resource))
                                 (sv_resources s) (am_localTree m1)\<rparr>)"

definition getPeerClient :: "ae_env \<Rightarrow> string \<Rightarrow> PeerClient option" where
  "getPeerClient env peerName =
     (case ae_peerLookup env of None \<Rightarrow> None | Some lookup \<Rightarrow> lookup peerName)"

subsection \<open>Repair\<close>

definition pushResourceToPeer :: "ae_env \<Rightarrow> string \<Rightarrow> nat \<Rightarrow> PeerClient \<Rightarrow> TrackedResource \<Rightarrow> client_error + SyncMessage" where
  "pushResourceToPeer env peerName n client resource =
     SendChange (ae_sendOk env peerName n)
       \<lparr>rc_ChangeId = ae_uuid env peerName n, rc_VectorClock = tr_VectorClock resource,
        rc_ChangeType = PB_UPDATED, rc_ResourceType = rk_Kind (tr_Key resource),
        rc_Namespace = rk_Namespace (tr_Key resource), rc_Name = rk_Name (tr_Key resource),
        rc_ResourceVersion = tr_ResourceVersion resource, rc_ResourceData = tr_Data resource,
        rc_ResourceHash = tr_Hash resource, rc_Timestamp = unix_nano (tr_LastModified resource),
        rc_OriginMember = tr_OriginMember resource, rc_Labels = tr_Labels resource\<rparr> client"

text \<open>The state of a push loop: pushes that succeeded, pushes tried, the report, what was sent.\<close>

record push_state =
  pu_sent :: int
  pu_tried :: nat
  pu_report :: DriftReport
  pu_wire :: "SyncMessage list"

definition push_one :: "ae_env \<Rightarrow> string \<Rightarrow> PeerClient \<Rightarrow> TrackedResource \<Rightarrow> push_state \<Rightarrow> push_state" where
  "push_one env peerName client resource st =
     (case pushResourceToPeer env peerName (pu_tried st) client resource of
        Inl err \<Rightarrow> st\<lparr>pu_tried := pu_tried st + 1\<rparr>
      | Inr msg \<Rightarrow> st\<lparr>pu_tried := pu_tried st + 1, pu_sent := pu_sent st + 1, pu_wire := pu_wire st @ [msg]\<rparr>)"

text \<open>One iteration of the pull loop of \<open>reconcileWithPeerResources\<close>; the state is \<open>applied\<close>, the report and the server.\<close>

definition pull_one ::
  "ae_env \<Rightarrow> int \<Rightarrow> string \<Rightarrow> (string, string) gomap \<Rightarrow> string \<times> ResourceChange
   \<Rightarrow> int \<times> DriftReport \<times> Server \<Rightarrow> int \<times> DriftReport \<times> Server" where
  "pull_one env batchSize peerName localHashes entry st =
     (case (entry, st) of ((keyStr, peerChange), (applied, report, s)) \<Rightarrow>
        if applied \<ge> batchSize then (applied, report, s)
        else
          (let (s', err) = handleResourceChange (ae_fed env) (ae_now env) peerName peerChange s;
               applied' = (if err = None then applied + 1 else applied)
           in case map_of localHashes keyStr of
                None \<Rightarrow> (applied', report\<lparr>dr_MissingLocally := dr_MissingLocally report @ [keyStr]\<rparr>, s')
              | Some localHash \<Rightarrow>
                  if localHash \<noteq> rc_ResourceHash peerChange
                  then (applied', report\<lparr>dr_HashMismatches := dr_HashMismatches report @ [keyStr]\<rparr>, s')
                  else (applied, report, s)))"

definition push_missing ::
  "ae_env \<Rightarrow> int \<Rightarrow> int \<Rightarrow> string \<Rightarrow> PeerClient \<Rightarrow> (string, bool) gomap \<Rightarrow> string \<times> TrackedResource
   \<Rightarrow> push_state \<Rightarrow> push_state" where
  "push_missing env batchSize applied peerName client peerKeys entry st =
     (case entry of (keyStr, resource) \<Rightarrow>
        if pu_sent st + applied \<ge> batchSize then st
        else if gm_get False peerKeys keyStr then st
        else push_one env peerName client resource
               (st\<lparr>pu_report := (pu_report st)\<lparr>dr_MissingRemotely := dr_MissingRemotely (pu_report st) @ [keyStr]\<rparr>\<rparr>))"

definition reconcileWithPeerResources ::
  "ae_env \<Rightarrow> AntiEntropyManager \<Rightarrow> string \<Rightarrow> (string, ResourceChange) gomap \<Rightarrow> DriftReport \<Rightarrow> Server
   \<Rightarrow> Server \<times> SyncMessage list \<times> DriftReport" where
  "reconcileWithPeerResources env m peerName peerResources report s =
     (let localHashes = fold (\<lambda>(k, r). gm_put k (tr_Hash r)) (sv_resources s) [];
          batchSize = ac_BatchSize (am_config m);
          (applied, report1, s1) = fold (pull_one env batchSize peerName localHashes) peerResources (0, report, s)
      in if ac_RepairMode (am_config m) = RepairModePush \<or> ac_RepairMode (am_config m) = RepairModeBidirectional
         then (case getPeerClient env peerName of
                 None \<Rightarrow> (s1, [], report1)
               | Some client \<Rightarrow>
                   (let peerKeys = fold (\<lambda>(k, _). gm_put k True) peerResources [];
                        st = fold (push_missing env batchSize applied peerName client peerKeys) (sv_resources s1)
                               \<lparr>pu_sent = 0, pu_tried = 0, pu_report = report1, pu_wire = []\<rparr>
                    in (s1, pu_wire st, pu_report st)))
         else (s1, [], report1))"

subsection \<open>Comparison with a peer\<close>

text \<open>The map of the received changes, built alike in two handlers, and the request all three make.\<close>

definition peerResourceMap :: "ResourceBatch list \<Rightarrow> (string, ResourceChange) gomap" where
  "peerResourceMap batches =
     fold (\<lambda>batch m. fold (\<lambda>change. gm_put (rk_String (change_key change)) change) (rb_Resources batch) m) batches []"

definition requestPeerResources ::
  "ae_env \<Rightarrow> string \<Rightarrow> PeerClient \<Rightarrow> Server \<Rightarrow> (ResourceBatch list \<times> client_error option) option" where
  "requestPeerResources env peerName client s =
     pc_RequestFullSync (ae_call env peerName) (cf_ResourceTypes (sv_config s)) [] (vc_ToMap (sv_vectorClock s)) client"

type_synonym ae_result = "Server \<times> SyncMessage list \<times> DriftReport option"

definition handleConcurrentState :: "ae_env \<Rightarrow> AntiEntropyManager \<Rightarrow> string \<Rightarrow> Server \<Rightarrow> ae_result option" where
  "handleConcurrentState env m peerName s =
     (case getPeerClient env peerName of
        None \<Rightarrow> Some (s, [], None)
      | Some client \<Rightarrow>
          (case requestPeerResources env peerName client s of
             None \<Rightarrow> None
           | Some (_, Some err) \<Rightarrow> Some (s, [], None)
           | Some (batches, None) \<Rightarrow>
               (let peerResources = peerResourceMap batches;
                    peerTree = fold (\<lambda>(keyStr, change). mt_Update (ae_digest env) keyStr (rc_ResourceHash change))
                                 peerResources (NewMerkleTree MerkleTreeDepth);
                    diffs = mt_Compare (am_localTree m) (Some peerTree);
                    report = DriftReport_new peerName (ae_now env)
                in if length diffs = 0 then Some (s, [], Some report)
                   else (case reconcileWithPeerResources env m peerName peerResources
                                (report\<lparr>dr_DifferingKeys := diffs\<rparr>) s of
                           (s', wire, report') \<Rightarrow> Some (s', wire, Some report')))))"

text \<open>One iteration of the loop of \<open>handleWeAreAhead\<close>.\<close>

definition push_outdated ::
  "ae_env \<Rightarrow> int \<Rightarrow> string \<Rightarrow> PeerClient \<Rightarrow> (string, string) gomap \<Rightarrow> string \<times> TrackedResource
   \<Rightarrow> push_state \<Rightarrow> push_state" where
  "push_outdated env batchSize peerName client peerResourceHashes entry st =
     (case entry of (keyStr, resource) \<Rightarrow>
        if pu_sent st \<ge> batchSize then st
        else case map_of peerResourceHashes keyStr of
               None \<Rightarrow> push_one env peerName client resource
                 (st\<lparr>pu_report := (pu_report st)\<lparr>dr_MissingRemotely := dr_MissingRemotely (pu_report st) @ [keyStr]\<rparr>\<rparr>)
             | Some peerHash \<Rightarrow>
                 if peerHash \<noteq> tr_Hash resource
                 then push_one env peerName client resource
                   (st\<lparr>pu_report := (pu_report st)\<lparr>dr_HashMismatches := dr_HashMismatches (pu_report st) @ [keyStr]\<rparr>\<rparr>)
                 else st)"

definition handleWeAreAhead :: "ae_env \<Rightarrow> AntiEntropyManager \<Rightarrow> string \<Rightarrow> Server \<Rightarrow> ae_result option" where
  "handleWeAreAhead env m peerName s =
     (case getPeerClient env peerName of
        None \<Rightarrow> Some (s, [], None)
      | Some client \<Rightarrow>
          (case requestPeerResources env peerName client s of
             None \<Rightarrow> None
           | Some (_, Some err) \<Rightarrow> Some (s, [], None)
           | Some (batches, None) \<Rightarrow>
               (let peerResourceHashes = fold (\<lambda>batch m. fold (\<lambda>change.
                        gm_put (rk_String (change_key change)) (rc_ResourceHash change)) (rb_Resources batch) m) batches [];
                    st = fold (push_outdated env (ac_BatchSize (am_config m)) peerName client peerResourceHashes)
                           (sv_resources s)
                           \<lparr>pu_sent = 0, pu_tried = 0, pu_report = DriftReport_new peerName (ae_now env), pu_wire = []\<rparr>;
                    report = pu_report st
                in Some (s, pu_wire st, Some (report\<lparr>dr_DifferingKeys := dr_MissingRemotely report @ dr_HashMismatches report\<rparr>)))))"

definition handlePeerIsAhead :: "ae_env \<Rightarrow> AntiEntropyManager \<Rightarrow> string \<Rightarrow> Server \<Rightarrow> ae_result option" where
  "handlePeerIsAhead env m peerName s =
     (case getPeerClient env peerName of
        None \<Rightarrow> Some (s, [], None)
      | Some client \<Rightarrow>
          (case requestPeerResources env peerName client s of
             None \<Rightarrow> None
           | Some (_, Some err) \<Rightarrow> Some (s, [], None)
           | Some (batches, None) \<Rightarrow>
               (case reconcileWithPeerResources env m peerName (peerResourceMap batches)
                       (DriftReport_new peerName (ae_now env)) s of
                  (s', wire, report) \<Rightarrow> Some (s', wire, Some report))))"

definition compareWithPeer :: "ae_env \<Rightarrow> AntiEntropyManager \<Rightarrow> string \<Rightarrow> Server \<Rightarrow> ae_result option" where
  "compareWithPeer env m peerName s =
     (let ourVC = vc_ToMap (sv_vectorClock s);
          mode = ac_RepairMode (am_config m)
      in case map_of (sv_peerStates s) peerName of
           None \<Rightarrow> Some (s, [], None)
         | Some state \<Rightarrow>
             (let ourVCObj = NewVectorClockFromMap ourVC;
                  peerVCObj = (case ps_VectorClock state of Some vc \<Rightarrow> vc | None \<Rightarrow> NewVectorClock);
                  cmp = vc_Compare ourVCObj (Some peerVCObj)
              in if cmp = 0 then handleConcurrentState env m peerName s
                 else if cmp = 1 then
                   (if mode = RepairModePush \<or> mode = RepairModeBidirectional
                    then handleWeAreAhead env m peerName s else Some (s, [], None))
                 else if cmp = - 1 then
                   (if mode = RepairModePull \<or> mode = RepairModeBidirectional
                    then handlePeerIsAhead env m peerName s else Some (s, [], None))
                 else Some (s, [], None)))"

text \<open>One iteration over the peers of \<open>runAntiEntropy\<close>; the pushed changes carry the peer's name.\<close>

definition compare_one ::
  "ae_env \<Rightarrow> AntiEntropyManager \<Rightarrow> string \<times> PeerState
   \<Rightarrow> (Server \<times> (string \<times> SyncMessage) list \<times> DriftReport list) option
   \<Rightarrow> (Server \<times> (string \<times> SyncMessage) list \<times> DriftReport list) option" where
  "compare_one env m entry acc =
     (case (entry, acc) of
        ((peerName, peerState), Some (s, wire, reports)) \<Rightarrow>
          if \<not> ps_Healthy peerState \<or> \<not> ps_Connected peerState then acc
          else (case compareWithPeer env m peerName s of
                  None \<Rightarrow> None
                | Some (s', w, None) \<Rightarrow> Some (s', wire @ map (Pair peerName) w, reports)
                | Some (s', w, Some report) \<Rightarrow> Some (s', wire @ map (Pair peerName) w, reports @ [report]))
      | (_, None) \<Rightarrow> None)"

definition runAntiEntropy ::
  "ae_env \<Rightarrow> Server option \<Rightarrow> AntiEntropyManager
   \<Rightarrow> (AntiEntropyManager \<times> Server option \<times> (string \<times> SyncMessage) list) option" where
  "runAntiEntropy env server m =
     (let m1 = rebuildLocalTree env server m
      in case server of
           None \<Rightarrow> Some (m1, None, [])
         | Some s \<Rightarrow>
             (let peerStates = GetPeerStates s
              in if length peerStates = 0 then Some (m1, Some s, [])
                 else (case fold (compare_one env m1) peerStates (Some (s, [], [])) of
                         None \<Rightarrow> None
                       | Some (s', wire, reports) \<Rightarrow> Some (m1\<lparr>am_driftReports := reports\<rparr>, Some s', wire))))"


subsection \<open>A cycle returns, keeps the invariant and is bounded\<close>

text \<open>The maps of a received message have no repeated key, as protobuf decodes them.\<close>

definition call_ok :: "ae_env \<Rightarrow> bool" where
  "call_ok env \<longleftrightarrow>
     (\<forall>p req stream n b c. ae_call env p req = Some stream \<and> stream n = RecvBatch b \<and> c \<in> set (rb_Resources b)
        \<longrightarrow> gm_ok (rc_VectorClock c))"

lemma collectBatches_from:
  assumes "length bs \<le> maxFullSyncBatches" and "collectBatches stream bs = Some (r, err)"
  shows "set r \<subseteq> set bs \<union> {b. \<exists>n. stream n = RecvBatch b}"
  using assms
proof (induction "maxFullSyncBatches - length bs" arbitrary: bs rule: less_induct)
  case less
  show ?case
  proof (cases "stream (length bs)")
    case (RecvBatch b)
    show ?thesis
    proof (cases "length (bs @ [b]) > maxFullSyncBatches \<or> rb_IsLast b")
      case True
      then show ?thesis
        using RecvBatch less.prems(2) [unfolded collectBatches.simps [of stream bs]]
        by (auto simp: Let_def split: if_splits)
    next
      case False
      then have "collectBatches stream (bs @ [b]) = Some (r, err)"
        using RecvBatch less.prems(2) [unfolded collectBatches.simps [of stream bs]] by (simp add: Let_def)
      from less.hyps [OF _ _ this] False RecvBatch show ?thesis by (fastforce simp: diff_less_mono2)
    qed
  qed (use less.prems in \<open>auto simp: collectBatches.simps [of stream bs]\<close>)
qed

lemma request_returns: "\<exists>bs err. requestPeerResources env p client s = Some (bs, err)"
proof -
  have "\<exists>bs err. collectBatches stream [] = Some (bs, err)" for stream
    using collectBatches_returns [of "[]" stream] by auto
  then show ?thesis
    by (auto simp: requestPeerResources_def pc_RequestFullSync_def split: option.splits)
qed

lemma request_ok:
  assumes "call_ok env" and "requestPeerResources env p client s = Some (bs, err)"
  shows "\<forall>b \<in> set bs. \<forall>c \<in> set (rb_Resources b). gm_ok (rc_VectorClock c)"
proof (cases "bs = []")
  case False
  then obtain req stream where call: "ae_call env p req = Some stream" and "collectBatches stream [] = Some (bs, err)"
    using assms(2) by (auto simp: requestPeerResources_def pc_RequestFullSync_def split: option.splits if_splits)
  then have "set bs \<subseteq> {b. \<exists>n. stream n = RecvBatch b}"
    using collectBatches_from [of "[]" stream bs err] by simp
  then show ?thesis using assms(1) call by (fastforce simp: call_ok_def)
qed simp

abbreviation put_change :: "ResourceChange \<Rightarrow> (string, ResourceChange) gomap \<Rightarrow> (string, ResourceChange) gomap" where
  "put_change c \<equiv> gm_put (change_str c) c"

lemma peerResourceMap_fold: "peerResourceMap bs = fold put_change (concat (map rb_Resources bs)) []"
proof -
  have "fold (\<lambda>b m. fold put_change (rb_Resources b) m) bs m = fold put_change (concat (map rb_Resources bs)) m" for m
    by (induction bs arbitrary: m) auto
  then show ?thesis by (simp add: peerResourceMap_def)
qed

lemma put_change_mem: "(k, c) \<in> set (fold put_change cs m) \<Longrightarrow> (k, c) \<in> set m \<or> c \<in> set cs \<and> k = change_str c"
proof (induction cs arbitrary: m)
  case (Cons x cs)
  have "(k, c) \<in> set (put_change x m) \<Longrightarrow> (k, c) \<in> set m \<or> c = x \<and> k = change_str x"
    by (induction m) (auto split: if_splits)
  then show ?case using Cons by auto
qed simp

lemma peerResourceMap_mem:
  "(k, c) \<in> set (peerResourceMap bs) \<Longrightarrow> k = change_str c \<and> (\<exists>b \<in> set bs. c \<in> set (rb_Resources b))"
  using put_change_mem [of k c "concat (map rb_Resources bs)" "[]"] by (auto simp: peerResourceMap_fold)

lemma peerResourceMap_ok: "gm_ok (peerResourceMap bs)"
proof -
  have "gm_ok (fold put_change cs m)" if "gm_ok m" for cs m
    using that by (induction cs arbitrary: m) simp_all
  then show ?thesis by (simp add: peerResourceMap_fold)
qed

lemma pull_one_keeps:
  assumes "gm_ok (rc_VectorClock (snd e))" and "0 \<le> fst st \<and> fst st \<le> max 0 B"
    and "server_inv (snd (snd st)) \<and> v \<le> vc_val (sv_vectorClock (snd (snd st)))"
  shows "(0 \<le> fst (pull_one env B p hs e st) \<and> fst (pull_one env B p hs e st) \<le> max 0 B) \<and>
    server_inv (snd (snd (pull_one env B p hs e st))) \<and>
    v \<le> vc_val (sv_vectorClock (snd (snd (pull_one env B p hs e st))))"
proof -
  obtain k c applied report s where st: "e = (k, c)" "st = (applied, report, s)" by (cases e, cases st)
  obtain s' err where h: "handleResourceChange (ae_fed env) (ae_now env) p c s = (s', err)"
    by (cases "handleResourceChange (ae_fed env) (ae_now env) p c s")
  have "server_inv s'" and "v \<le> vc_val (sv_vectorClock s')"
    using server_inv_handleResourceChange [of s c "ae_fed env" "ae_now env" p] assms(1,3)
      clock_handleResourceChange [of "ae_fed env" "ae_now env" p c s] vc_MergeMap_ge [of "sv_vectorClock s"]
    by (auto simp: st h intro: order_trans)
  then show ?thesis
    using assms(2,3) by (auto simp: pull_one_def st h split: option.splits)
qed

lemma pull_keeps:
  assumes "\<forall>(k, c) \<in> set es. gm_ok (rc_VectorClock c)" and "server_inv s"
    and "fold (pull_one env B p hs) es (0, report, s) = (applied, report', s')"
  shows "server_inv s'" and "vc_val (sv_vectorClock s) \<le> vc_val (sv_vectorClock s')"
    and "0 \<le> applied" and "applied \<le> max 0 B"
proof -
  let ?P = "\<lambda>st. (0 \<le> fst st \<and> fst st \<le> max 0 B) \<and> server_inv (snd (snd st)) \<and>
    vc_val (sv_vectorClock s) \<le> vc_val (sv_vectorClock (snd (snd st)))"
  have "?P (fold (pull_one env B p hs) es (0, report, s))"
  proof (rule fold_invariant [where Q = "\<lambda>e. gm_ok (rc_VectorClock (snd e))"])
    show "?P (pull_one env B p hs e st)" if "gm_ok (rc_VectorClock (snd e))" "?P st" for e st
      using pull_one_keeps [of e st B "vc_val (sv_vectorClock s)" env p hs] that by blast
  qed (use assms(1,2) in auto)
  then show "server_inv s'" and "vc_val (sv_vectorClock s) \<le> vc_val (sv_vectorClock s')"
    and "0 \<le> applied" and "applied \<le> max 0 B"
    by (simp_all add: assms(3))
qed

definition push_bound :: "int \<Rightarrow> int \<Rightarrow> push_state \<Rightarrow> bool" where
  "push_bound B applied st \<longleftrightarrow> int (length (pu_wire st)) = pu_sent st \<and> pu_sent st + applied \<le> max B applied"

lemma push_one_bound:
  "push_bound B applied st \<Longrightarrow> pu_sent st + applied < B \<Longrightarrow> push_bound B applied (push_one env p client r st)"
  by (auto simp: push_one_def push_bound_def split: sum.splits)

lemma push_bound_report [simp]: "push_bound B applied (st\<lparr>pu_report := r\<rparr>) = push_bound B applied st"
  by (simp add: push_bound_def)

lemma push_missing_bound:
  "push_bound B applied st \<Longrightarrow> push_bound B applied (push_missing env B applied p client ks e st)"
  by (auto simp: push_missing_def intro!: push_one_bound split: prod.splits)

lemma push_outdated_bound: "push_bound B 0 st \<Longrightarrow> push_bound B 0 (push_outdated env B p client hs e st)"
  by (auto simp: push_outdated_def intro!: push_one_bound split: prod.splits option.splits)

lemma push_fold_bound:
  "(\<And>e st. push_bound B applied st \<Longrightarrow> push_bound B applied (f e st)) \<Longrightarrow>
   push_bound B applied (fold f es \<lparr>pu_sent = 0, pu_tried = 0, pu_report = r, pu_wire = []\<rparr>)"
  by (rule fold_invariant [where Q = "\<lambda>_. True"]) (auto simp: push_bound_def)

lemma reconcile_keeps:
  assumes "\<forall>(k, c) \<in> set es. gm_ok (rc_VectorClock c)" and "server_inv s"
    and "reconcileWithPeerResources env m p es report s = (s', wire, report')"
  shows "server_inv s'" and "vc_val (sv_vectorClock s) \<le> vc_val (sv_vectorClock s')"
    and "int (length wire) \<le> max 0 (ac_BatchSize (am_config m))"
proof -
  let ?B = "ac_BatchSize (am_config m)" and ?hs = "fold (\<lambda>(k, r). gm_put k (tr_Hash r)) (sv_resources s) []"
  obtain applied report1 s1 where pull: "fold (pull_one env ?B p ?hs) es (0, report, s) = (applied, report1, s1)"
    by (cases "fold (pull_one env ?B p ?hs) es (0, report, s)")
  note k = pull_keeps [OF assms(1,2) pull]
  have "s' = s1"
    using assms(3) by (auto simp: reconcileWithPeerResources_def pull Let_def split: if_splits option.splits)
  then show "server_inv s'" and "vc_val (sv_vectorClock s) \<le> vc_val (sv_vectorClock s')" using k by simp_all
  have "int (length (pu_wire (fold (push_missing env ?B applied p client ks) rs
      \<lparr>pu_sent = 0, pu_tried = 0, pu_report = report1, pu_wire = []\<rparr>))) \<le> max 0 ?B" for client ks rs
    using push_fold_bound [of ?B applied "push_missing env ?B applied p client ks" rs report1,
        OF push_missing_bound] k(3,4)
    by (auto simp: push_bound_def)
  then show "int (length wire) \<le> max 0 ?B"
    using assms(3) by (auto simp: reconcileWithPeerResources_def pull Let_def split: if_splits option.splits)
qed

text \<open>What comparing with one peer guarantees of the server and of what is pushed.\<close>

definition compare_good :: "AntiEntropyManager \<Rightarrow> Server \<Rightarrow> ae_result option \<Rightarrow> bool" where
  "compare_good m s res =
     (case res of
        None \<Rightarrow> False
      | Some (s', wire, report) \<Rightarrow>
          server_inv s' \<and> vc_val (sv_vectorClock s) \<le> vc_val (sv_vectorClock s') \<and>
          int (length wire) \<le> max 0 (ac_BatchSize (am_config m)))"

lemma compare_good_same: "server_inv s \<Longrightarrow> compare_good m s (Some (s, [], r))"
  by (simp add: compare_good_def)

lemma reconcile_good:
  assumes "call_ok env" and "server_inv s" and "requestPeerResources env p client s = Some (bs, err)"
  shows "compare_good m s (case reconcileWithPeerResources env m p (peerResourceMap bs) report s of
    (s', wire, report) \<Rightarrow> Some (s', wire, Some report))"
proof -
  obtain s' wire report' where rec: "reconcileWithPeerResources env m p (peerResourceMap bs) report s = (s', wire, report')"
    by (cases "reconcileWithPeerResources env m p (peerResourceMap bs) report s")
  have "\<forall>(k, c) \<in> set (peerResourceMap bs). gm_ok (rc_VectorClock c)"
    using request_ok [OF assms(1,3)] by (auto dest: peerResourceMap_mem)
  from reconcile_keeps [OF this assms(2) rec] show ?thesis by (simp add: compare_good_def rec)
qed

lemma handlers_good:
  assumes "call_ok env" and "server_inv s"
  shows "compare_good m s (handleConcurrentState env m p s)"
    and "compare_good m s (handleWeAreAhead env m p s)"
    and "compare_good m s (handlePeerIsAhead env m p s)"
proof -
  note same = compare_good_same [OF assms(2)] and rec = reconcile_good [OF assms]
  have req: "\<exists>bs err. requestPeerResources env p client s = Some (bs, err)" for client by (rule request_returns)
  show "compare_good m s (handleConcurrentState env m p s)"
  proof (cases "getPeerClient env p")
    case (Some client)
    obtain bs err where "requestPeerResources env p client s = Some (bs, err)" using req by blast
    then show ?thesis
      using Some same rec by (cases err) (simp_all add: handleConcurrentState_def Let_def)
  qed (simp add: handleConcurrentState_def same)
  show "compare_good m s (handlePeerIsAhead env m p s)"
  proof (cases "getPeerClient env p")
    case (Some client)
    obtain bs err where "requestPeerResources env p client s = Some (bs, err)" using req by blast
    then show ?thesis
      using Some same rec by (cases err) (simp_all add: handlePeerIsAhead_def)
  qed (simp add: handlePeerIsAhead_def same)
  have "push_bound B 0 (fold (push_outdated env B p client hs) rs \<lparr>pu_sent = 0, pu_tried = 0, pu_report = r, pu_wire = []\<rparr>)"
    for B client hs rs r by (rule push_fold_bound) (rule push_outdated_bound)
  then have "int (length (pu_wire (fold (push_outdated env B p client hs) rs
      \<lparr>pu_sent = 0, pu_tried = 0, pu_report = r, pu_wire = []\<rparr>))) \<le> max 0 B" for B client hs rs r
    unfolding push_bound_def by (simp add: max.commute)
  then have bound: "compare_good m s (Some (s, pu_wire (fold (push_outdated env (ac_BatchSize (am_config m)) p client hs) rs
      \<lparr>pu_sent = 0, pu_tried = 0, pu_report = r, pu_wire = []\<rparr>), report))" for client hs rs r report
    using assms(2) by (simp add: compare_good_def)
  show "compare_good m s (handleWeAreAhead env m p s)"
  proof (cases "getPeerClient env p")
    case (Some client)
    obtain bs err where "requestPeerResources env p client s = Some (bs, err)" using req by blast
    then show ?thesis
      using Some same bound by (cases err) (simp_all add: handleWeAreAhead_def Let_def)
  qed (simp add: handleWeAreAhead_def same)
qed

lemma compareWithPeer_good:
  "call_ok env \<Longrightarrow> server_inv s \<Longrightarrow> compare_good m s (compareWithPeer env m p s)"
  using handlers_good [of env s m p] compare_good_same [of s m]
  by (simp add: compareWithPeer_def Let_def split: option.split)

lemma cycle_fold:
  assumes "call_ok env" and "distinct (map fst es)" and "server_inv s"
  shows "\<exists>s' wire reports. fold (compare_one env m) es (Some (s, w0, r0)) = Some (s', w0 @ wire, reports) \<and>
    server_inv s' \<and> vc_val (sv_vectorClock s) \<le> vc_val (sv_vectorClock s') \<and> fst ` set wire \<subseteq> fst ` set es \<and>
    (\<forall>p. int (length (filter (\<lambda>x. fst x = p) wire)) \<le> max 0 (ac_BatchSize (am_config m)))"
  using assms(2,3)
proof (induction es arbitrary: s w0 r0)
  case (Cons e es)
  obtain p st where e: "e = (p, st)" by (cases e)
  have d: "distinct (map fst es)" using Cons.prems(1) by simp
  have sub: "fst ` set es \<subseteq> fst ` set (e # es)" by auto
  show ?case
  proof (cases "\<not> ps_Healthy st \<or> \<not> ps_Connected st")
    case True
    then have "fold (compare_one env m) (e # es) (Some (s, w0, r0)) = fold (compare_one env m) es (Some (s, w0, r0))"
      by (simp add: e compare_one_def)
    then show ?thesis using Cons.IH [OF d Cons.prems(2), of w0 r0] sub order_trans by metis
  next
    case False
    obtain s1 w report where c: "compareWithPeer env m p s = Some (s1, w, report)" and "server_inv s1"
      and le: "vc_val (sv_vectorClock s) \<le> vc_val (sv_vectorClock s1)"
      and w: "int (length w) \<le> max 0 (ac_BatchSize (am_config m))"
      using compareWithPeer_good [OF assms(1) Cons.prems(2), of m p]
      by (auto simp: compare_good_def split: option.splits)
    let ?r = "case report of None \<Rightarrow> r0 | Some r \<Rightarrow> r0 @ [r]"
    have step: "fold (compare_one env m) (e # es) (Some (s, w0, r0)) =
        fold (compare_one env m) es (Some (s1, w0 @ map (Pair p) w, ?r))"
      using False c by (simp add: e compare_one_def split: option.split)
    from Cons.IH [OF d \<open>server_inv s1\<close>, of "w0 @ map (Pair p) w" ?r] obtain s' wire reports where
      ih: "fold (compare_one env m) es (Some (s1, w0 @ map (Pair p) w, ?r)) = Some (s', (w0 @ map (Pair p) w) @ wire, reports)"
        "server_inv s'" "vc_val (sv_vectorClock s1) \<le> vc_val (sv_vectorClock s')" "fst ` set wire \<subseteq> fst ` set es"
        "\<forall>p. int (length (filter (\<lambda>x. fst x = p) wire)) \<le> max 0 (ac_BatchSize (am_config m))" by blast
    have "p \<notin> fst ` set wire" using ih(4) Cons.prems(1) by (auto simp: e)
    then have none: "filter (\<lambda>x. fst x = p) wire = []" by (auto simp: filter_empty_conv)
    have bound: "\<forall>q. int (length (filter (\<lambda>x. fst x = q) (map (Pair p) w @ wire))) \<le> max 0 (ac_BatchSize (am_config m))"
    proof
      fix q show "int (length (filter (\<lambda>x. fst x = q) (map (Pair p) w @ wire))) \<le> max 0 (ac_BatchSize (am_config m))"
        using ih(5) none w by (cases "q = p") (simp_all add: filter_map o_def)
    qed
    have "fst ` set (map (Pair p) w @ wire) \<subseteq> fst ` set (e # es)" using ih(4) by (auto simp: e)
    moreover have "fold (compare_one env m) (e # es) (Some (s, w0, r0)) = Some (s', w0 @ (map (Pair p) w @ wire), reports)"
      using step ih(1) by simp
    moreover have "vc_val (sv_vectorClock s) \<le> vc_val (sv_vectorClock s')" using le ih(3) by (rule order_trans)
    ultimately show ?thesis using bound ih(2) by blast
  qed
qed auto

lemma GetPeerStates_ok: "gm_ok (GetPeerStates s)"
  unfolding GetPeerStates_def by (rule gm.ok_fold_put) simp

text \<open>
  C11. A cycle of anti-entropy always returns, whatever the peers answer; it keeps the server's
  invariant, never moves its clock back, and pushes at most the batch size of changes to each peer.
\<close>
theorem anti_entropy_cycle_safe:
  assumes "call_ok env" and "server_inv s"
  shows "\<exists>m' s' wire. runAntiEntropy env (Some s) m = Some (m', Some s', wire) \<and> server_inv s' \<and>
    vc_val (sv_vectorClock s) \<le> vc_val (sv_vectorClock s') \<and>
    (\<forall>p. int (length (filter (\<lambda>x. fst x = p) wire)) \<le> max 0 (ac_BatchSize (am_config m)))"
proof -
  have cfg: "am_config (rebuildLocalTree env (Some s) m) = am_config m"
    by (simp add: rebuildLocalTree_def Let_def)
  have "distinct (map fst (GetPeerStates s))" using GetPeerStates_ok [of s] by (simp add: gm_ok_def)
  from cycle_fold [OF assms(1) this assms(2), of "rebuildLocalTree env (Some s) m" "[]" "[]"]
  obtain s' wire reports where
    "fold (compare_one env (rebuildLocalTree env (Some s) m)) (GetPeerStates s) (Some (s, [], [])) = Some (s', wire, reports)"
    "server_inv s'" "vc_val (sv_vectorClock s) \<le> vc_val (sv_vectorClock s')"
    "\<forall>p. int (length (filter (\<lambda>x. fst x = p) wire)) \<le> max 0 (ac_BatchSize (am_config m))"
    unfolding cfg append_Nil by blast
  then show ?thesis
    using assms(2) by (cases "GetPeerStates s = []") (simp_all add: runAntiEntropy_def Let_def)
qed

text \<open>A peer \<open>b\<close> and the answers it gives, for the witnesses.\<close>

definition sample_batch :: "ResourceChange list \<Rightarrow> ResourceBatch" where
  "sample_batch cs = \<lparr>rb_BatchNumber = 0, rb_IsLast = True, rb_Resources = cs,
     rb_TotalResources = int (length cs), rb_VectorClock = []\<rparr>"

definition sample_ae :: "ResourceChange list \<Rightarrow> ae_env" where
  "sample_ae cs = \<lparr>ae_fed = sample_env, ae_digest = (\<lambda>s. s), ae_now = 7, ae_peerLookup = Some (\<lambda>_. Some sample_client),
     ae_call = (\<lambda>_ _. Some (stream_of [sample_batch cs] False)), ae_uuid = (\<lambda>_ _. ''u''), ae_sendOk = (\<lambda>_ _. True)\<rparr>"

definition sample_peers :: Server where
  "sample_peers = updatePeerState ''b'' (\<lambda>st. st\<lparr>ps_Connected := True, ps_Healthy := True,
     ps_VectorClock := Some (NewVectorClockFromMap [(''b'', 1)])\<rparr>) sample_server"

lemma sample_ae_ok: "list_all (\<lambda>c. gm_ok (rc_VectorClock c)) cs \<Longrightarrow> call_ok (sample_ae cs)"
  by (auto simp: call_ok_def sample_ae_def stream_of_def sample_batch_def list_all_iff split: if_splits)

theorem anti_entropy_cycle_safe_witness:
  "\<exists>m' s' wire. runAntiEntropy (sample_ae [sample_change [(''b'', 1)] PB_UPDATED ''x'' 1]) (Some sample_peers)
     (NewAntiEntropyManager None) = Some (m', Some s', wire) \<and> server_inv s' \<and>
     sv_resources s' \<noteq> sv_resources sample_peers"
proof -
  let ?env = "sample_ae [sample_change [(''b'', 1)] PB_UPDATED ''x'' 1]"
  have ok: "call_ok ?env" by (rule sample_ae_ok) code_simp
  have inv: "server_inv sample_peers"
    unfolding sample_peers_def by (rule server_inv_peer) (rule sample_server_inv)
  have diff: "map_option (\<lambda>(_, s', _). map_option sv_resources s')
      (runAntiEntropy ?env (Some sample_peers) (NewAntiEntropyManager None)) \<noteq> Some (Some (sv_resources sample_peers))"
    by code_simp
  obtain m' s' wire where "runAntiEntropy ?env (Some sample_peers) (NewAntiEntropyManager None) = Some (m', Some s', wire)"
    "server_inv s'"
    using anti_entropy_cycle_safe [OF ok inv, of "NewAntiEntropyManager None"] by blast
  then show ?thesis using diff by auto
qed

subsection \<open>What a pull changes\<close>

abbreviation stored :: "Server \<Rightarrow> string \<Rightarrow> TrackedResource option" where
  "stored s \<equiv> map_of (sv_resources s)"

lemma handle_other:
  "k \<noteq> change_str c \<Longrightarrow> stored (fst (handleResourceChange env now p c s)) k = stored s k"
  by (auto simp: handleResourceChange_def handleConflict_def applyChange_def Let_def update_conv' delete_conv'
      split: option.splits pbChangeType.splits sum.splits fed_error.splits)

lemma handle_no_error:
  "cf_ConflictResolutionStrategy (sv_config s) \<noteq> ''Merge'' \<Longrightarrow> snd (handleResourceChange env now p c s) = None"
  by (simp add: handleResourceChange_def handleConflict_def Let_def split: option.splits)

lemma handle_local:
  assumes "sv_config s = sv_config s'" and "stored s (change_str c) = stored s' (change_str c)"
    and "cf_ConflictResolutionStrategy (sv_config s) \<noteq> ''Merge''"
  shows "stored (fst (handleResourceChange env now p c s)) (change_str c) =
    stored (fst (handleResourceChange env now p c s')) (change_str c)"
  using assms
  by (auto simp: handleResourceChange_def handleConflict_def applyChange_def Let_def update_conv' delete_conv'
      split: option.splits pbChangeType.splits)

lemma pull_one_eq:
  assumes "cf_ConflictResolutionStrategy (sv_config s) \<noteq> ''Merge''" and "applied < B"
  shows "\<exists>report'. pull_one env B p hs (k, c) (applied, report, s) =
    (if map_of hs k = Some (rc_ResourceHash c) then (applied, report, s)
     else (applied + 1, report', fst (handleResourceChange (ae_fed env) (ae_now env) p c s)))"
proof -
  obtain s' where "handleResourceChange (ae_fed env) (ae_now env) p c s = (s', None)"
    using handle_no_error [OF assms(1), of "ae_fed env" "ae_now env" p c] by (metis prod.collapse)
  then show ?thesis using assms(2) by (auto simp: pull_one_def Let_def split: option.splits)
qed

lemma pull_exact:
  assumes "distinct (map fst es)" and "\<forall>(k, c) \<in> set es. k = change_str c"
    and "cf_ConflictResolutionStrategy (sv_config s) \<noteq> ''Merge''" and "applied + int (length es) \<le> B"
  shows "stored (snd (snd (fold (pull_one env B p hs) es (applied, report, s)))) k =
    (case map_of es k of
       None \<Rightarrow> stored s k
     | Some c \<Rightarrow> if map_of hs k = Some (rc_ResourceHash c) then stored s k
                 else stored (deliver (ae_fed env) (ae_now env) p s c) k)"
  using assms
proof (induction es arbitrary: applied report s)
  case (Cons e es)
  obtain k' c where e: "e = (k', c)" by (cases e)
  have k': "k' = change_str c" and new: "map_of es k' = None"
    using Cons.prems(1,2) by (auto simp: e map_of_eq_None_iff)
  obtain report' where one: "pull_one env B p hs (k', c) (applied, report, s) =
    (if map_of hs k' = Some (rc_ResourceHash c) then (applied, report, s)
     else (applied + 1, report', deliver (ae_fed env) (ae_now env) p s c))"
    using pull_one_eq [of s applied B env p hs k' c report] Cons.prems(3,4) unfolding deliver_def by auto
  show ?case
  proof (cases "map_of hs k' = Some (rc_ResourceHash c)")
    case True
    have "applied + int (length es) \<le> B" using Cons.prems(4) by simp
    from Cons.IH [OF _ _ Cons.prems(3) this, of report] Cons.prems(1,2) True new one show ?thesis
      by (auto simp: e)
  next
    case False
    let ?s = "deliver (ae_fed env) (ae_now env) p s c"
    have "applied + 1 + int (length es) \<le> B" using Cons.prems(4) by simp
    from Cons.IH [OF _ _ _ this, of ?s report'] Cons.prems(1-3)
    have ih: "stored (snd (snd (fold (pull_one env B p hs) (e # es) (applied, report, s)))) k =
      (case map_of es k of None \<Rightarrow> stored ?s k
       | Some d \<Rightarrow> if map_of hs k = Some (rc_ResourceHash d) then stored ?s k
                   else stored (deliver (ae_fed env) (ae_now env) p ?s d) k)"
      using False one by (simp add: e)
    show ?thesis
    proof (cases "k = k'")
      case True
      then show ?thesis using ih new False by (simp add: e)
    next
      case other: False
      have old: "stored ?s k = stored s k" using other handle_other by (simp add: k' deliver_def)
      have "stored (deliver (ae_fed env) (ae_now env) p ?s d) k = stored (deliver (ae_fed env) (ae_now env) p s d) k"
        if "map_of es k = Some d" for d
      proof -
        have d: "k = change_str d" using that Cons.prems(2) by (auto dest!: map_of_SomeD)
        show ?thesis unfolding d deliver_def
          by (rule handle_local) (use old Cons.prems(3) in \<open>simp_all add: d deliver_def\<close>)
      qed
      then show ?thesis using ih old other by (simp add: e split: option.split)
    qed
  qed
qed simp

lemma local_hashes: "gm_ok rs \<Longrightarrow> map_of (fold (\<lambda>(k, r). gm_put k (tr_Hash r)) rs []) k = map_option tr_Hash (map_of rs k)"
proof -
  assume "gm_ok rs"
  then have "distinct (map fst (map (\<lambda>(k, r). (k, tr_Hash r)) rs))"
    by (simp add: gm_ok_def split_def o_def)
  from gm.lookup_fold_put [OF this, of "[]"] show ?thesis
    by (simp add: fold_map o_def split_def) (simp add: map_of_map [unfolded split_def])
qed

lemma reconcile_stored:
  "sv_resources (fst (reconcileWithPeerResources env m p es report s)) =
   sv_resources (snd (snd (fold (pull_one env (ac_BatchSize (am_config m)) p
     (fold (\<lambda>(k, r). gm_put k (tr_Hash r)) (sv_resources s) [])) es (0, report, s))))"
  by (simp add: reconcileWithPeerResources_def Let_def split_def split: option.split)

lemma handlePeerIsAhead_eq:
  assumes "getPeerClient env p = Some client" and "requestPeerResources env p client s = Some (bs, None)"
  shows "handlePeerIsAhead env m p s =
    (case reconcileWithPeerResources env m p (peerResourceMap bs) (DriftReport_new p (ae_now env)) s of
       (s', wire, report) \<Rightarrow> Some (s', wire, Some report))"
  using assms by (simp add: handlePeerIsAhead_def)

text \<open>
  C12. Pulling from a peer that is ahead repairs exactly what is missing or has another hash: when
  the peer's answer fits in a batch, every resource it sent that is missing here or stored with a
  different hash ends up as the change handler leaves it, whatever the order of the map, and
  every other resource is untouched.
\<close>
theorem anti_entropy_pull_exact:
  assumes "server_inv s" and "getPeerClient env p = Some client"
    and "requestPeerResources env p client s = Some (bs, None)"
    and "int (length (peerResourceMap bs)) \<le> ac_BatchSize (am_config m)"
  shows "\<exists>s' wire report. handlePeerIsAhead env m p s = Some (s', wire, Some report) \<and>
    (\<forall>k. stored s' k =
      (case map_of (peerResourceMap bs) k of
         None \<Rightarrow> stored s k
       | Some c \<Rightarrow> if map_option tr_Hash (stored s k) = Some (rc_ResourceHash c) then stored s k
                   else stored (deliver (ae_fed env) (ae_now env) p s c) k))"
proof -
  obtain s' wire report where rec:
    "reconcileWithPeerResources env m p (peerResourceMap bs) (DriftReport_new p (ae_now env)) s = (s', wire, report)"
    by (cases "reconcileWithPeerResources env m p (peerResourceMap bs) (DriftReport_new p (ae_now env)) s")
  have "distinct (map fst (peerResourceMap bs))" "\<forall>(k, c) \<in> set (peerResourceMap bs). k = change_str c"
    using peerResourceMap_ok [of bs] by (auto simp: gm_ok_def dest: peerResourceMap_mem)
  note pull = pull_exact [OF this, of s 0 "ac_BatchSize (am_config m)" env p
      "fold (\<lambda>(k, r). gm_put k (tr_Hash r)) (sv_resources s) []" "DriftReport_new p (ae_now env)"]
  have ok: "gm_ok (sv_resources s)" "cf_ConflictResolutionStrategy (sv_config s) \<noteq> ''Merge''"
    using assms(1) by (simp_all add: server_inv_def)
  have "stored s' k = (case map_of (peerResourceMap bs) k of None \<Rightarrow> stored s k
      | Some c \<Rightarrow> if map_option tr_Hash (stored s k) = Some (rc_ResourceHash c) then stored s k
                  else stored (deliver (ae_fed env) (ae_now env) p s c) k)" for k
    using pull [of k] assms(4) ok(2) reconcile_stored [of env m p "peerResourceMap bs" "DriftReport_new p (ae_now env)" s]
    unfolding rec local_hashes [OF ok(1)] by simp
  then show ?thesis using handlePeerIsAhead_eq [OF assms(2,3), of m] by (simp add: rec)
qed

theorem anti_entropy_pull_exact_witness:
  "let c = sample_change [(''b'', 1)] PB_UPDATED ''x'' 1; env = sample_ae [c]
   in \<exists>s' wire report. handlePeerIsAhead env (NewAntiEntropyManager None) ''b'' sample_server = Some (s', wire, Some report) \<and>
        stored s' (change_str c) = stored (deliver (ae_fed env) (ae_now env) ''b'' sample_server c) (change_str c) \<and>
        stored s' (change_str c) \<noteq> stored sample_server (change_str c)"
proof -
  define c where "c = sample_change [(''b'', 1)] PB_UPDATED ''x'' 1"
  have req: "getPeerClient (sample_ae [c]) ''b'' = Some sample_client"
    "requestPeerResources (sample_ae [c]) ''b'' sample_client sample_server = Some ([sample_batch [c]], None)"
    "int (length (peerResourceMap [sample_batch [c]])) \<le> ac_BatchSize (am_config (NewAntiEntropyManager None))"
    "map_of (peerResourceMap [sample_batch [c]]) (change_str c) = Some c"
    "stored sample_server (change_str c) = None"
    "stored (deliver (ae_fed (sample_ae [c])) (ae_now (sample_ae [c])) ''b'' sample_server c) (change_str c) \<noteq> None"
    unfolding c_def by code_simp+
  from anti_entropy_pull_exact [OF sample_server_inv req(1-3)] obtain s' wire report where
    pulled: "handlePeerIsAhead (sample_ae [c]) (NewAntiEntropyManager None) ''b'' sample_server = Some (s', wire, Some report)"
      "stored s' (change_str c) = (case map_of (peerResourceMap [sample_batch [c]]) (change_str c) of
         None \<Rightarrow> stored sample_server (change_str c)
       | Some c' \<Rightarrow> if map_option tr_Hash (stored sample_server (change_str c)) = Some (rc_ResourceHash c')
           then stored sample_server (change_str c)
           else stored (deliver (ae_fed (sample_ae [c])) (ae_now (sample_ae [c])) ''b'' sample_server c') (change_str c))"
    by blast
  then show ?thesis using req(4-6) by (simp add: Let_def flip: c_def)
qed

subsection \<open>Limits\<close>

lemma pull_skips_equal_hash:
  assumes "\<forall>(k, c) \<in> set es. k = change_str c" and "distinct (map fst es)"
    and "\<forall>c. map_of es k = Some c \<longrightarrow> map_of hs k = Some (rc_ResourceHash c)"
  shows "stored (snd (snd (fold (pull_one env B p hs) es st))) k = stored (snd (snd st)) k"
proof -
  have "\<forall>(k', c) \<in> set es. k' = change_str c \<and> (k' = k \<longrightarrow> map_of hs k = Some (rc_ResourceHash c))"
    using assms by (auto simp: map_of_eq_Some_iff)
  then show ?thesis
  proof (induction es arbitrary: st)
    case (Cons e es)
    obtain k' c applied report s where e: "e = (k', c)" "st = (applied, report, s)" by (cases e, cases st)
    have "stored (snd (snd (pull_one env B p hs e st))) k = stored s k"
      using Cons.prems handle_other [of k c "ae_fed env" "ae_now env" p s]
      by (cases "handleResourceChange (ae_fed env) (ae_now env) p c s"; cases "k = change_str c")
        (auto simp: e pull_one_def Let_def split: option.splits)
    then show ?case using Cons.IH [of "pull_one env B p hs e st"] Cons.prems by (simp add: e)
  qed simp
qed

lemma RecordLocalChange_stored:
  assumes "cf_LocalMember (sv_config s) = Some me" and "ct \<noteq> ChangeTypeDeleted"
  shows "\<exists>r. stored (fst (RecordLocalChange t1 t2 u key ct d l s)) (rk_String key) = Some r \<and> tr_Hash r = '''' \<and> tr_Data r = d"
  using assms by (simp add: RecordLocalChange_def Let_def update_conv')

text \<open>
  A local write is stored without a hash, and a pull compares nothing but hashes: when another
  controller has written the same resource locally, anti-entropy keeps the local data however the
  two writes are ordered, in every repair mode and for every batch size.
\<close>
lemma unhashed_writes_are_not_repaired:
  assumes "cf_LocalMember (sv_config a) = Some ma" and "cf_LocalMember (sv_config b) = Some mb"
    and "ct \<noteq> ChangeTypeDeleted" and "ct' \<noteq> ChangeTypeDeleted"
    and "stored (fst (RecordLocalChange t1 t2 u key ct da la a)) (rk_String key) = Some ra"
    and "s = fst (RecordLocalChange t3 t4 v key ct' db lb b)" and "server_inv s"
    and "getPeerClient env p = Some client" and "requestPeerResources env p client s = Some (bs, None)"
    and "map_of (peerResourceMap bs) (rk_String key) = Some (fullSyncChange w ra)"
  shows "\<exists>s' wire report r. handlePeerIsAhead env m p s = Some (s', wire, Some report) \<and>
    stored s' (rk_String key) = Some r \<and> tr_Data r = db"
proof -
  have "tr_Hash ra = ''''"
    using RecordLocalChange_stored [OF assms(1,3), of t1 t2 u key da la] assms(5) by auto
  then have ha: "rc_ResourceHash (fullSyncChange w ra) = ''''" by (simp add: fullSyncChange_def)
  obtain r where r: "stored s (rk_String key) = Some r" "tr_Hash r = ''''" "tr_Data r = db"
    using RecordLocalChange_stored [OF assms(2,4), of t3 t4 v key db lb] assms(6) by auto
  let ?hs = "fold (\<lambda>(k, r). gm_put k (tr_Hash r)) (sv_resources s) []"
  have hb: "map_of ?hs (rk_String key) = Some ''''"
    using local_hashes [of "sv_resources s"] assms(7) r by (simp add: server_inv_def)
  obtain s' wire report where rec:
    "reconcileWithPeerResources env m p (peerResourceMap bs) (DriftReport_new p (ae_now env)) s = (s', wire, report)"
    by (cases "reconcileWithPeerResources env m p (peerResourceMap bs) (DriftReport_new p (ae_now env)) s")
  have "distinct (map fst (peerResourceMap bs))" "\<forall>(k, c) \<in> set (peerResourceMap bs). k = change_str c"
    using peerResourceMap_ok [of bs] by (auto simp: gm_ok_def dest: peerResourceMap_mem)
  then have "stored (snd (snd (fold (pull_one env (ac_BatchSize (am_config m)) p ?hs) (peerResourceMap bs)
      (0, DriftReport_new p (ae_now env), s)))) (rk_String key) = stored s (rk_String key)"
    using pull_skips_equal_hash [of "peerResourceMap bs" "rk_String key" ?hs env "ac_BatchSize (am_config m)" p
        "(0, DriftReport_new p (ae_now env), s)"] assms(10) ha hb by simp
  then have "stored s' (rk_String key) = Some r"
    using reconcile_stored [of env m p "peerResourceMap bs" "DriftReport_new p (ae_now env)" s] r(1) rec by simp
  then show ?thesis using handlePeerIsAhead_eq [OF assms(8,9), of m] r(3) by (simp add: rec)
qed

text \<open>Two controllers that have written \<open>ProxyRoute/ns/web\<close> locally, the second one aware of the first write.\<close>

definition sample_writer :: "string \<Rightarrow> bytes \<Rightarrow> Server \<Rightarrow> Server" where
  "sample_writer u d s = fst (RecordLocalChange 1 2 u sample_key ChangeTypeUpdated d None s)"

lemma collect_empty:
  assumes "server_inv peer" and "vc_ok ourVC" and "vc_val (sv_vectorClock peer) < vc_val ourVC"
    and "fr_VectorClock req = vc_ToMap ourVC"
  shows "collectFullSyncResources uuids req peer = []"
proof -
  have "\<not> selected req r" if "(k, r) \<in> set (sv_resources peer)" for k r
  proof -
    have "clock_le (tr_VectorClock r) (sv_vectorClock peer)"
      using assms(1) that by (auto simp: server_inv_def gm_all_def list_all_iff)
    then have "vc_val (NewVectorClockFromMap (tr_VectorClock r)) \<le> vc_val (sv_vectorClock peer)"
      by (simp add: clock_le_def vc_val_FromMap)
    then have "vc_val (NewVectorClockFromMap (tr_VectorClock r)) < vc_val ourVC"
      using assms(3) by (rule order_le_less_trans)
    then show ?thesis by (simp add: selected_def assms(2,4) HappenedBefore_val vc_FromMap_ToMap)
  qed
  then have "filter (selected req) (map snd (sv_resources peer)) = []" by (auto simp: filter_empty_conv)
  then show ?thesis by (simp add: collect_number_changes)
qed

lemma push_all:
  assumes "pc_stream client" and "\<forall>n. ae_sendOk env p n" and "pu_sent st + int (length rs) \<le> B"
  shows "let st' = fold (push_outdated env B p client []) rs st
    in dr_MissingRemotely (pu_report st') = dr_MissingRemotely (pu_report st) @ map fst rs \<and>
       length (pu_wire st') = length (pu_wire st) + length rs"
  using assms(3)
proof (induction rs arbitrary: st)
  case (Cons e rs)
  obtain k r where e: "e = (k, r)" by (cases e)
  let ?st = "push_outdated env B p client [] e st"
  have one: "pu_sent ?st = pu_sent st + 1" "length (pu_wire ?st) = length (pu_wire st) + 1"
    "dr_MissingRemotely (pu_report ?st) = dr_MissingRemotely (pu_report st) @ [k]"
    using Cons.prems assms(1,2)
    by (simp_all add: e push_outdated_def push_one_def pushResourceToPeer_def SendChange_def SendMessage_def)
  then have "pu_sent ?st + int (length rs) \<le> B" using Cons.prems by simp
  from Cons.IH [OF this] one show ?case by (simp add: e Let_def)
qed (simp add: Let_def)

text \<open>
  A peer answers a full-sync request only with what its requester's clock does not dominate, so
  a controller that is ahead learns nothing from a peer that is behind: it reports every resource
  it holds as missing there and pushes it again, also when the peer holds an identical copy.
\<close>
lemma ahead_pushes_everything_again:
  assumes "server_inv s" and "server_inv peer" and "vc_val (sv_vectorClock peer) < vc_val (sv_vectorClock s)"
    and "getPeerClient env p = Some client" and "pc_client client" and "pc_stream client"
    and "cf_LocalMember (pc_config client) = Some me"
    and "cf_FederationID (pc_config client) = cf_FederationID (sv_config peer)"
    and "0 \<le> cf_BatchSize (sv_config peer)" and "map_of (sv_fullSyncCooldowns peer) (pi_Name me) = None"
    and "ae_call env p = serve now uuids peer" and "\<forall>n. ae_sendOk env p n"
    and "int (length (sv_resources s)) \<le> ac_BatchSize (am_config m)"
  shows "\<exists>wire report. handleWeAreAhead env m p s = Some (s, wire, Some report) \<and>
    dr_MissingRemotely report = gm_keys (sv_resources s) \<and> length wire = length (sv_resources s)"
proof -
  let ?req = "fullSyncRequest (cf_ResourceTypes (sv_config s)) [] (vc_ToMap (sv_vectorClock s)) me client"
  have ok: "vc_ok (sv_vectorClock s)" using assms(1) by (simp add: server_inv_def vc_wf_def)
  have none: "collectFullSyncResources uuids ?req peer = []"
    by (rule collect_empty [OF assms(2) ok assms(3)]) (simp add: fullSyncRequest_def)
  have "fr_FederationId ?req = cf_FederationID (sv_config peer)"
    "map_of (sv_fullSyncCooldowns peer) (fr_RequesterMember ?req) = None"
    using assms(8,10) by (simp_all add: fullSyncRequest_def)
  from RequestFullSync_served [OF this(1) assms(9) this(2), of now uuids] none obtain peer' bs where
    bs: "RequestFullSync now uuids (\<lambda>_. True) ?req peer = Some (peer', bs, None)" "concat (map rb_Resources bs) = []"
      "map rb_IsLast bs = replicate (length bs - 1) False @ [True]" "length bs \<le> 1" by auto
  have "bs \<noteq> []" using bs(3) by auto
  then have "collectBatches (stream_of bs False) [] = Some (bs, None)"
    using collectBatches_stream [OF bs(3), of 0 False] bs(4) by (simp add: maxFullSyncBatches_def)
  then have req: "requestPeerResources env p client s = Some (bs, None)"
    using bs(1) assms(5,7,11) by (simp add: requestPeerResources_def pc_RequestFullSync_def serve_def)
  have hashes: "fold (\<lambda>batch m. fold (\<lambda>change. gm_put (change_str change) (rc_ResourceHash change))
      (rb_Resources batch) m) bs [] = []"
    using bs(2) by (induction bs) auto
  show ?thesis
    using push_all [OF assms(6,12), of "\<lparr>pu_sent = 0, pu_tried = 0, pu_report = DriftReport_new p (ae_now env), pu_wire = []\<rparr>"
        "sv_resources s" "ac_BatchSize (am_config m)"] assms(4,13) req
    by (simp add: handleWeAreAhead_def Let_def hashes DriftReport_new_def)
qed

end
