(* ===== verification/Split_Brain.thy ===== *)
theory Split_Brain
  imports Fed_Replication
begin

section \<open>Split-brain detection (\<open>internal/controller/federation/splitbrain.go\<close>)\<close>

text \<open>
  The detector of network partitions as a state machine over Healthy, Suspected, Confirmed and
  Healing. One call reads the clock once (\<open>now\<close>). The federation server it refers to is an
  argument (\<open>None\<close> for a nil pointer), because it changes independently; the goroutine that ends
  a healing phase is the event that fires when its grace period is over. Metrics, logging and
  locking are not modelled.
\<close>

subsection \<open>State\<close>

datatype PartitionState =
    PartitionStateHealthy
  | PartitionStateSuspected
  | PartitionStateConfirmed
  | PartitionStateHealing

record PartitionInfo =
  pt_State :: PartitionState
  pt_DetectedAt :: gotime
  pt_HealedAt :: gotime
  pt_ReachablePeers :: "string list"
  pt_UnreachablePeers :: "string list"
  pt_HaveQuorum :: bool
  pt_WritesFenced :: bool
  pt_PendingConflicts :: int

record SplitBrainDetector =
  sd_config :: SplitBrainConfig
  sd_state :: PartitionState
  sd_partitionInfo :: "PartitionInfo option"
  sd_totalPeers :: int
  sd_reachablePeers :: "(string, gotime) gomap"
  sd_writesFenced :: bool

definition DefaultPartitionTimeout :: duration where "DefaultPartitionTimeout = sec 30"
definition DefaultHealingGracePeriod :: duration where "DefaultHealingGracePeriod = sec 5"

definition DefaultSplitBrainConfig :: SplitBrainConfig where
  "DefaultSplitBrainConfig =
     \<lparr>sb_PartitionTimeout = DefaultPartitionTimeout, sb_QuorumRequired = False, sb_QuorumSize = 0,
      sb_HealingGracePeriod = DefaultHealingGracePeriod, sb_AutoResolveOnHeal = True,
      sb_FencingEnabled = False, sb_QuorumMode = QuorumModeControllers, sb_AgentQuorumWeight = 1,
      sb_ControllerQuorumWeight = 10, sb_MinAgentsForQuorum = 1\<rparr>"

text \<open>\<open>totalPeers\<close> is the length of a slice, so it is not negative.\<close>

definition NewSplitBrainDetector :: "SplitBrainConfig option \<Rightarrow> int \<Rightarrow> SplitBrainDetector" where
  "NewSplitBrainDetector config totalPeers =
     (let c = (case config of None \<Rightarrow> DefaultSplitBrainConfig | Some c \<Rightarrow> c);
          c' = (if sb_QuorumSize c \<le> 0
                then (if sb_QuorumMode c = QuorumModeAgentAssisted then c\<lparr>sb_QuorumSize := 0\<rparr>
                      else c\<lparr>sb_QuorumSize := totalPeers div 2 + 1\<rparr>)
                else c)
      in \<lparr>sd_config = c', sd_state = PartitionStateHealthy, sd_partitionInfo = None,
          sd_totalPeers = totalPeers, sd_reachablePeers = [], sd_writesFenced = False\<rparr>)"

subsection \<open>Reachability and quorum\<close>

definition cutoff :: "gotime \<Rightarrow> SplitBrainDetector \<Rightarrow> gotime" where
  "cutoff now d = now - sb_PartitionTimeout (sd_config d)"

definition countReachablePeers :: "gotime \<Rightarrow> SplitBrainDetector \<Rightarrow> int" where
  "countReachablePeers now d =
     fold (\<lambda>(_, lastSeen) n. if lastSeen > cutoff now d then n + 1 else n) (sd_reachablePeers d) 0"

definition getReachablePeerNames :: "gotime \<Rightarrow> SplitBrainDetector \<Rightarrow> string list" where
  "getReachablePeerNames now d =
     fold (\<lambda>(peer, lastSeen) names. if lastSeen > cutoff now d then names @ [peer] else names)
       (sd_reachablePeers d) []"

definition getUnreachablePeerNames :: "gotime \<Rightarrow> Server option \<Rightarrow> SplitBrainDetector \<Rightarrow> string list" where
  "getUnreachablePeerNames now server d =
     (let reachable = fold (\<lambda>(peer, lastSeen) m. if lastSeen > cutoff now d then gm_put peer True m else m)
                        (sd_reachablePeers d) []
      in case server of
           None \<Rightarrow> []
         | Some s \<Rightarrow>
             fold (\<lambda>(peerName, _) un. if \<not> gm_get False reachable peerName then un @ [peerName] else un)
               (sv_peerStates s) [])"

definition HaveQuorum :: "gotime \<Rightarrow> SplitBrainDetector \<Rightarrow> bool" where
  "HaveQuorum now d \<longleftrightarrow> countReachablePeers now d + 1 \<ge> sb_QuorumSize (sd_config d)"

definition AreWritesFenced :: "SplitBrainDetector \<Rightarrow> bool" where
  "AreWritesFenced d = sd_writesFenced d"

definition CanAcceptWrite :: "gotime \<Rightarrow> SplitBrainDetector \<Rightarrow> bool" where
  "CanAcceptWrite now d =
     (if sb_FencingEnabled (sd_config d) \<and> AreWritesFenced d then False
      else if sb_QuorumRequired (sd_config d) \<and> \<not> HaveQuorum now d then False
      else True)"

definition GetPartitionInfo :: "SplitBrainDetector \<Rightarrow> PartitionInfo option" where
  "GetPartitionInfo d = sd_partitionInfo d"

subsection \<open>Transitions\<close>

definition transitionToHealthy :: "SplitBrainDetector \<Rightarrow> SplitBrainDetector" where
  "transitionToHealthy d =
     d\<lparr>sd_state := PartitionStateHealthy, sd_partitionInfo := None, sd_writesFenced := False\<rparr>"

text \<open>Fencing on entry to Confirmed.\<close>

definition fenceWrites :: "SplitBrainDetector \<Rightarrow> SplitBrainDetector" where
  "fenceWrites d =
     (if sb_FencingEnabled (sd_config d)
      then d\<lparr>sd_writesFenced := True,
             sd_partitionInfo := map_option (\<lambda>i. i\<lparr>pt_WritesFenced := True\<rparr>) (sd_partitionInfo d)\<rparr>
      else d)"

definition partialPartition ::
  "gotime \<Rightarrow> string list \<Rightarrow> string list \<Rightarrow> SplitBrainDetector \<Rightarrow> SplitBrainDetector" where
  "partialPartition now reachable unreachable d =
     (case sd_state d of
        PartitionStateHealthy \<Rightarrow>
          d\<lparr>sd_state := PartitionStateSuspected,
            sd_partitionInfo := Some \<lparr>pt_State = PartitionStateSuspected, pt_DetectedAt = now,
              pt_HealedAt = time_zero, pt_ReachablePeers = reachable, pt_UnreachablePeers = unreachable,
              pt_HaveQuorum = HaveQuorum now d, pt_WritesFenced = False, pt_PendingConflicts = 0\<rparr>\<rparr>
      | PartitionStateConfirmed \<Rightarrow> d
      | PartitionStateHealing \<Rightarrow> d
      | PartitionStateSuspected \<Rightarrow>
          (case sd_partitionInfo d of
             None \<Rightarrow> d
           | Some info \<Rightarrow>
               if time_sub now (pt_DetectedAt info) > sb_PartitionTimeout (sd_config d)
               then fenceWrites (d\<lparr>sd_state := PartitionStateConfirmed,
                      sd_partitionInfo := Some (info\<lparr>pt_State := PartitionStateConfirmed\<rparr>)\<rparr>)
               else d))"

definition completePartition :: "gotime \<Rightarrow> string list \<Rightarrow> SplitBrainDetector \<Rightarrow> SplitBrainDetector" where
  "completePartition now unreachable d =
     (if sd_state d \<noteq> PartitionStateConfirmed
      then fenceWrites (d\<lparr>sd_state := PartitionStateConfirmed,
             sd_partitionInfo := Some \<lparr>pt_State = PartitionStateConfirmed, pt_DetectedAt = now,
               pt_HealedAt = time_zero, pt_ReachablePeers = [], pt_UnreachablePeers = unreachable,
               pt_HaveQuorum = False, pt_WritesFenced = False, pt_PendingConflicts = 0\<rparr>\<rparr>)
      else d)"

definition checkForPartition :: "gotime \<Rightarrow> Server option \<Rightarrow> SplitBrainDetector \<Rightarrow> SplitBrainDetector" where
  "checkForPartition now server d =
     (let reachable = getReachablePeerNames now d;
          unreachable = getUnreachablePeerNames now server d
      in if length unreachable = 0
         then (if sd_state d \<noteq> PartitionStateHealthy then transitionToHealthy d else d)
         else
           (let d1 = (if length unreachable > 0 \<and> length reachable > 0
                      then partialPartition now reachable unreachable d else d)
            in if length reachable = 0 \<and> sd_totalPeers d1 > 0
               then completePartition now unreachable d1 else d1))"

text \<open>The second component says that the healing goroutine is started.\<close>

definition checkPartitionHealing ::
  "gotime \<Rightarrow> Server option \<Rightarrow> SplitBrainDetector \<Rightarrow> SplitBrainDetector \<times> bool" where
  "checkPartitionHealing now server d =
     (let unreachable = getUnreachablePeerNames now server d
      in if sd_state d \<noteq> PartitionStateConfirmed \<and> sd_state d \<noteq> PartitionStateSuspected then (d, False)
         else if length unreachable = 0
         then (d\<lparr>sd_state := PartitionStateHealing,
                 sd_partitionInfo := map_option
                   (\<lambda>i. i\<lparr>pt_State := PartitionStateHealing, pt_HealedAt := now\<rparr>) (sd_partitionInfo d)\<rparr>, True)
         else (d, False))"

definition RecordPeerContact ::
  "gotime \<Rightarrow> Server option \<Rightarrow> string \<Rightarrow> SplitBrainDetector \<Rightarrow> SplitBrainDetector \<times> bool" where
  "RecordPeerContact now server peerName d =
     checkPartitionHealing now server (d\<lparr>sd_reachablePeers := gm_put peerName now (sd_reachablePeers d)\<rparr>)"

definition RecordPeerFailure ::
  "gotime \<Rightarrow> Server option \<Rightarrow> string \<Rightarrow> SplitBrainDetector \<Rightarrow> SplitBrainDetector" where
  "RecordPeerFailure now server peerName d = checkForPartition now server d"

definition checkQuorum :: "gotime \<Rightarrow> SplitBrainDetector \<Rightarrow> SplitBrainDetector" where
  "checkQuorum now d =
     d\<lparr>sd_reachablePeers :=
         fold (\<lambda>(peer, lastSeen) m. if lastSeen < cutoff now d then gm_del peer m else m)
           (sd_reachablePeers d) (sd_reachablePeers d)\<rparr>"

text \<open>One tick of \<open>runDetectionLoop\<close>.\<close>

definition detectionTick :: "gotime \<Rightarrow> Server option \<Rightarrow> SplitBrainDetector \<Rightarrow> SplitBrainDetector" where
  "detectionTick now server d = checkQuorum now (checkForPartition now server d)"

text \<open>\<open>runHealingProcess\<close> after its grace period.\<close>

definition autoResolve :: "Server \<Rightarrow> Server" where
  "autoResolve s =
     fold (\<lambda>conflict st. fst (ResolveConflict (rk_String (ci_Key conflict)) False st)) (GetConflicts s) s"

definition runHealingProcess ::
  "Server option \<Rightarrow> SplitBrainDetector \<Rightarrow> SplitBrainDetector \<times> Server option" where
  "runHealingProcess server d =
     (if sd_state d \<noteq> PartitionStateHealing then (d, server)
      else (transitionToHealthy (d\<lparr>sd_writesFenced := False\<rparr>),
            if sb_AutoResolveOnHeal (sd_config d) then map_option autoResolve server else server))"

subsection \<open>Reachability\<close>

lemma fold_mark:
  "gm_get False (fold (\<lambda>(peer, t) m. if P t then gm_put peer True m else m) xs m) k \<longleftrightarrow>
     gm_get False m k \<or> (\<exists>t. (k, t) \<in> set xs \<and> P t)"
  by (induction xs arbitrary: m) (auto simp: gm_get_put split: if_splits)

text \<open>The peers heard from within the timeout.\<close>

definition reach :: "gotime \<Rightarrow> SplitBrainDetector \<Rightarrow> string set" where
  "reach now d = {p. \<exists>t. (p, t) \<in> set (sd_reachablePeers d) \<and> t > cutoff now d}"

lemma reachable_set: "set (getReachablePeerNames now d) = reach now d"
  by (auto simp: getReachablePeerNames_def fold_collect_names reach_def image_iff split: prod.splits)

lemma reachable_count:
  assumes "gm_ok (sd_reachablePeers d)"
  shows "countReachablePeers now d = int (card (reach now d))"
proof -
  have "distinct (getReachablePeerNames now d)"
    using assms unfolding getReachablePeerNames_def fold_collect_names gm_ok_def
    by (simp add: distinct_map_filter)
  from distinct_card [OF this] have "card (reach now d) = length (getReachablePeerNames now d)"
    by (simp add: reachable_set)
  then show ?thesis
    by (simp add: countReachablePeers_def fold_count getReachablePeerNames_def fold_collect_names)
qed

lemma unreachable_set:
  "set (getUnreachablePeerNames now (Some s) d) = fst ` set (sv_peerStates s) - reach now d"
  by (auto simp: getUnreachablePeerNames_def Let_def fold_collect_keys fold_mark reach_def gm_get_notin)

lemma unreachable_None [simp]: "getUnreachablePeerNames now None d = []"
  by (simp add: getUnreachablePeerNames_def)

subsection \<open>Fencing\<close>

text \<open>
  Writes are fenced only by a detector configured to do so that is in a confirmed or healing
  partition, always when it is confirmed, and a partition record exists exactly outside Healthy.
\<close>

definition detector_inv :: "SplitBrainDetector \<Rightarrow> bool" where
  "detector_inv d \<longleftrightarrow>
     (sd_writesFenced d \<longrightarrow> sb_FencingEnabled (sd_config d) \<and>
        sd_state d \<in> {PartitionStateConfirmed, PartitionStateHealing}) \<and>
     (sb_FencingEnabled (sd_config d) \<and> sd_state d = PartitionStateConfirmed \<longrightarrow> sd_writesFenced d) \<and>
     (case sd_partitionInfo d of
        None \<Rightarrow> sd_state d = PartitionStateHealthy
      | Some info \<Rightarrow> sd_state d \<noteq> PartitionStateHealthy \<and> pt_State info = sd_state d)"

datatype detector_event =
    SbContact gotime "Server option" string
  | SbFailure gotime "Server option" string
  | SbTick gotime "Server option"
  | SbHealed "Server option"

definition detector_step :: "SplitBrainDetector \<Rightarrow> detector_event \<Rightarrow> SplitBrainDetector" where
  "detector_step d e =
     (case e of
        SbContact now s peer \<Rightarrow> fst (RecordPeerContact now s peer d)
      | SbFailure now s peer \<Rightarrow> RecordPeerFailure now s peer d
      | SbTick now s \<Rightarrow> detectionTick now s d
      | SbHealed s \<Rightarrow> fst (runHealingProcess s d))"

lemma detector_inv_reachable [simp]: "detector_inv (d\<lparr>sd_reachablePeers := r\<rparr>) = detector_inv d"
  by (simp add: detector_inv_def split: option.splits)

lemma detector_inv_healthy: "detector_inv (transitionToHealthy d)"
  by (simp add: detector_inv_def transitionToHealthy_def)

lemma detector_inv_partial: "detector_inv d \<Longrightarrow> detector_inv (partialPartition now r u d)"
  by (auto simp: partialPartition_def detector_inv_def fenceWrites_def split: PartitionState.splits option.splits)

lemma detector_inv_complete: "detector_inv d \<Longrightarrow> detector_inv (completePartition now u d)"
  by (auto simp: completePartition_def detector_inv_def fenceWrites_def split: option.splits)

lemma detector_inv_check: "detector_inv d \<Longrightarrow> detector_inv (checkForPartition now s d)"
  by (simp add: checkForPartition_def Let_def detector_inv_healthy detector_inv_partial detector_inv_complete)

lemma detector_inv_heal: "detector_inv d \<Longrightarrow> detector_inv (fst (checkPartitionHealing now s d))"
  by (auto simp: checkPartitionHealing_def Let_def detector_inv_def split: option.splits)

lemma detector_inv_step: "detector_inv d \<Longrightarrow> detector_inv (detector_step d e)"
  by (cases e)
    (simp_all add: detector_step_def RecordPeerContact_def RecordPeerFailure_def detectionTick_def checkQuorum_def
      runHealingProcess_def detector_inv_heal detector_inv_check detector_inv_healthy)

interpretation sbd: invariant_system detector_step "\<lambda>_ _. True" detector_inv
  by unfold_locales (rule detector_inv_step)

lemma detector_invD:
  assumes "detector_inv d"
  shows "sb_FencingEnabled (sd_config d) \<Longrightarrow> sd_state d = PartitionStateConfirmed \<Longrightarrow> sd_writesFenced d"
    and "sd_state d = PartitionStateHealthy \<Longrightarrow> \<not> sd_writesFenced d"
    and "sd_state d = PartitionStateHealthy \<Longrightarrow> sd_partitionInfo d = None"
  using assms unfolding detector_inv_def by (auto split: option.splits)

lemma detector_inv_New: "detector_inv (NewSplitBrainDetector c n)"
  by (simp add: NewSplitBrainDetector_def detector_inv_def Let_def split: option.splits)

text \<open>
  C7. Write fencing is safe: after any sequence of contacts, failures, checks and healings, a
  detector with fencing enabled accepts no write while its partition is confirmed, a detector
  that requires a quorum accepts no write without one, and a healthy detector fences nothing.
\<close>
theorem fencing_is_safe:
  "let d = run detector_step (NewSplitBrainDetector c n) es in
     (CanAcceptWrite now d \<and> sb_FencingEnabled (sd_config d) \<longrightarrow> sd_state d \<noteq> PartitionStateConfirmed) \<and>
     (CanAcceptWrite now d \<and> sb_QuorumRequired (sd_config d) \<longrightarrow> HaveQuorum now d) \<and>
     (sd_state d = PartitionStateHealthy \<longrightarrow> \<not> AreWritesFenced d \<and> GetPartitionInfo d = None)"
proof -
  define d where "d = run detector_step (NewSplitBrainDetector c n) es"
  have "detector_inv d"
    unfolding d_def by (rule sbd.run_inv [OF detector_inv_New good_run_True])
  from detector_invD [OF this] show ?thesis
    unfolding d_def [symmetric] Let_def CanAcceptWrite_def AreWritesFenced_def GetPartitionInfo_def by auto
qed

text \<open>A server that knows the one peer \<open>b\<close>.\<close>

definition sample_knows_b :: Server where
  "sample_knows_b = (NewServer None)\<lparr>sv_peerStates := [(''b'', PeerState_zero)]\<rparr>"

definition sample_fencing :: SplitBrainConfig where
  "sample_fencing = DefaultSplitBrainConfig\<lparr>sb_FencingEnabled := True\<rparr>"

theorem fencing_is_safe_witness:
  "\<not> CanAcceptWrite 3 (run detector_step (NewSplitBrainDetector (Some sample_fencing) 1) [SbTick 2 (Some sample_knows_b)])"
proof -
  let ?d = "run detector_step (NewSplitBrainDetector (Some sample_fencing) 1) [SbTick 2 (Some sample_knows_b)]"
  have "sd_state ?d = PartitionStateConfirmed" "sb_FencingEnabled (sd_config ?d)"
    by code_simp+
  then show ?thesis
    using fencing_is_safe [of "Some sample_fencing" 1 "[SbTick 2 (Some sample_knows_b)]" 3]
    unfolding Let_def by blast
qed

subsection \<open>Detection\<close>

lemma reachable_Nil: "getReachablePeerNames now d = [] \<longleftrightarrow> reach now d = {}"
  using reachable_set [of now d] by auto

lemma unreachable_Nil:
  "getUnreachablePeerNames now (Some s) d = [] \<longleftrightarrow> fst ` set (sv_peerStates s) \<subseteq> reach now d"
  unfolding set_empty [symmetric] unreachable_set by auto

text \<open>
  What one check decides. When every known peer has been heard from within the timeout the
  detector is healthy. When no peer has, the partition is confirmed at once. When only some
  have, a healthy detector becomes suspicious, and a suspicious one confirms the partition
  exactly when the suspicion is older than the timeout.
\<close>
lemma checkForPartition_decides:
  assumes "0 < sd_totalPeers d" and "detector_inv d"
  shows "let d' = checkForPartition now (Some s) d; known = fst ` set (sv_peerStates s) in
    (known \<subseteq> reach now d \<longrightarrow> sd_state d' = PartitionStateHealthy) \<and>
    (\<not> known \<subseteq> reach now d \<and> reach now d = {} \<longrightarrow> sd_state d' = PartitionStateConfirmed) \<and>
    (\<not> known \<subseteq> reach now d \<and> reach now d \<noteq> {} \<and> sd_state d = PartitionStateHealthy \<longrightarrow>
       sd_state d' = PartitionStateSuspected) \<and>
    (\<not> known \<subseteq> reach now d \<and> reach now d \<noteq> {} \<and> sd_state d = PartitionStateSuspected \<longrightarrow>
       sd_state d' = (if time_sub now (pt_DetectedAt (the (sd_partitionInfo d))) > sb_PartitionTimeout (sd_config d)
                      then PartitionStateConfirmed else PartitionStateSuspected))"
proof -
  have some: "\<exists>i. sd_partitionInfo d = Some i" if "sd_state d = PartitionStateSuspected"
    using assms(2) that by (auto simp: detector_inv_def split: option.splits)
  have fence: "sd_state (fenceWrites e) = sd_state e" for e by (simp add: fenceWrites_def)
  show ?thesis
    unfolding Let_def
  proof (intro conjI impI)
    show "sd_state (checkForPartition now (Some s) d) = PartitionStateHealthy"
      if "fst ` set (sv_peerStates s) \<subseteq> reach now d"
      using that by (simp add: checkForPartition_def Let_def unreachable_Nil transitionToHealthy_def)
    show "sd_state (checkForPartition now (Some s) d) = PartitionStateConfirmed"
      if "\<not> fst ` set (sv_peerStates s) \<subseteq> reach now d \<and> reach now d = {}"
      using that assms(1)
      by (auto simp: checkForPartition_def Let_def unreachable_Nil reachable_Nil completePartition_def fence)
    show "sd_state (checkForPartition now (Some s) d) = PartitionStateSuspected"
      if "\<not> fst ` set (sv_peerStates s) \<subseteq> reach now d \<and> reach now d \<noteq> {} \<and> sd_state d = PartitionStateHealthy"
      using that by (simp add: checkForPartition_def Let_def unreachable_Nil reachable_Nil partialPartition_def)
    show "sd_state (checkForPartition now (Some s) d) =
        (if time_sub now (pt_DetectedAt (the (sd_partitionInfo d))) > sb_PartitionTimeout (sd_config d)
         then PartitionStateConfirmed else PartitionStateSuspected)"
      if "\<not> fst ` set (sv_peerStates s) \<subseteq> reach now d \<and> reach now d \<noteq> {} \<and> sd_state d = PartitionStateSuspected"
      using that some
      by (auto simp: checkForPartition_def Let_def unreachable_Nil reachable_Nil partialPartition_def fence)
  qed
qed

subsection \<open>Quorum\<close>

text \<open>The interface of a quorum system and what it gives its clients.\<close>

locale quorum_system =
  fixes Quorum :: "'a set \<Rightarrow> bool"
  assumes intersect: "Quorum Q \<Longrightarrow> Quorum Q' \<Longrightarrow> Q \<inter> Q' \<noteq> {}"
begin

lemma nonempty: "Quorum Q \<Longrightarrow> Q \<noteq> {}"
  using intersect [of Q Q] by auto

lemma one_side: "A \<inter> B = {} \<Longrightarrow> Quorum A \<Longrightarrow> \<not> Quorum B"
  using intersect by blast

end

text \<open>
  The group of a controller is itself and the peers it reaches. A detector whose quorum size was
  computed from \<open>n\<close> accepts a group of controllers of \<open>U\<close> as a quorum when it is large enough.
\<close>

definition default_quorum :: "int \<Rightarrow> int" where
  "default_quorum n = sb_QuorumSize (sd_config (NewSplitBrainDetector None n))"

definition group_quorum :: "'a set \<Rightarrow> 'a set \<Rightarrow> bool" where
  "group_quorum U G \<longleftrightarrow> finite U \<and> G \<subseteq> U \<and> int (card G) \<ge> default_quorum (int (card U))"

lemma default_quorum_eq: "default_quorum n = n div 2 + 1"
  by (simp add: default_quorum_def NewSplitBrainDetector_def DefaultSplitBrainConfig_def Let_def
      QuorumModeControllers_def QuorumModeAgentAssisted_def)

lemma big_sets_meet:
  assumes "finite U" and "A \<subseteq> U" and "B \<subseteq> U" and "card U < card A + card B"
  shows "A \<inter> B \<noteq> {}"
proof
  assume "A \<inter> B = {}"
  then have "card (A \<union> B) = card A + card B"
    using assms finite_subset by (metis card_Un_disjoint)
  moreover have "card (A \<union> B) \<le> card U" using assms by (intro card_mono) auto
  ultimately show False using assms(4) by simp
qed

interpretation majority: quorum_system "group_quorum U" for U
proof unfold_locales
  fix Q Q' assume q: "group_quorum U Q" "group_quorum U Q'"
  then have "card U < card Q + card Q'" by (auto simp: group_quorum_def default_quorum_eq)
  with q show "Q \<inter> Q' \<noteq> {}" by (intro big_sets_meet [of U]) (auto simp: group_quorum_def)
qed

lemma HaveQuorum_group:
  assumes "gm_ok (sd_reachablePeers d)" and "me \<notin> reach now d" and "finite (reach now d)"
    and "sb_QuorumSize (sd_config d) = default_quorum (int (card U))" and "finite U" and "insert me (reach now d) \<subseteq> U"
  shows "HaveQuorum now d \<longleftrightarrow> group_quorum U (insert me (reach now d))"
  using assms by (simp add: HaveQuorum_def group_quorum_def reachable_count add.commute)

lemma finite_reach: "finite (reach now d)"
  using finite_set [of "getReachablePeerNames now d"] by (simp add: reachable_set)

text \<open>
  C20. A quorum is exclusive when its size is computed from the number of all controllers: if two
  controllers of the federation \<open>U\<close> both have a quorum, the groups they reach share a member, so
  the two sides of a partition never both accept writes.
\<close>
theorem quorum_is_exclusive:
  assumes "finite U"
    and "sb_QuorumSize (sd_config d) = default_quorum (int (card U))"
    and "sb_QuorumSize (sd_config d') = default_quorum (int (card U))"
    and "gm_ok (sd_reachablePeers d)" and "gm_ok (sd_reachablePeers d')"
    and "me \<notin> reach now d" and "me' \<notin> reach now' d'"
    and "insert me (reach now d) \<subseteq> U" and "insert me' (reach now' d') \<subseteq> U"
    and "insert me (reach now d) \<inter> insert me' (reach now' d') = {}"
  shows "\<not> (HaveQuorum now d \<and> HaveQuorum now' d')"
  using majority.one_side [OF assms(10), of U] HaveQuorum_group [OF assms(4,6) finite_reach assms(2,1,8)]
    HaveQuorum_group [OF assms(5,7) finite_reach assms(3,1,9)] by blast

theorem quorum_is_exclusive_witness:
  "\<not> (HaveQuorum 5 (NewSplitBrainDetector None 2) \<and> HaveQuorum 5 (NewSplitBrainDetector None 2))"
proof -
  let ?d = "NewSplitBrainDetector None 2"
  have r: "reach 5 ?d = {}" "gm_ok (sd_reachablePeers ?d)"
    "sb_QuorumSize (sd_config ?d) = default_quorum (int (card {''a'', ''b''}))"
    by (simp_all add: reach_def NewSplitBrainDetector_def default_quorum_def Let_def)
  show ?thesis
    using quorum_is_exclusive [of "{''a'', ''b''}" ?d ?d "''a''" 5 "''b''" 5] r by simp
qed

text \<open>
  The manager counts only the peers, not itself (\<open>len(config.Peers)\<close>). With the size computed
  from that number, both halves of an even federation of \<open>2 * m\<close> controllers have a quorum: each
  controller reaches \<open>m - 1\<close> peers and counts itself. In agent-assisted mode the size is 0 and
  every controller always has a quorum.
\<close>
lemma even_split_has_two_quorums:
  assumes "gm_ok (sd_reachablePeers d)" and "0 < m" and "int (card (reach now d)) = m - 1"
    and "sb_QuorumSize (sd_config d) = default_quorum (2 * m - 1)"
  shows "HaveQuorum now d \<and>
    HaveQuorum now (NewSplitBrainDetector (Some (DefaultSplitBrainConfig\<lparr>sb_QuorumMode := QuorumModeAgentAssisted\<rparr>)) n)"
proof
  have "(2 * m - 1) div 2 + 1 = m" using assms(2) by auto
  then show "HaveQuorum now d"
    using assms by (simp add: HaveQuorum_def reachable_count default_quorum_eq)
  show "HaveQuorum now (NewSplitBrainDetector (Some (DefaultSplitBrainConfig\<lparr>sb_QuorumMode := QuorumModeAgentAssisted\<rparr>)) n)"
    by (simp add: HaveQuorum_def NewSplitBrainDetector_def DefaultSplitBrainConfig_def Let_def countReachablePeers_def)
qed

subsection \<open>Healing\<close>

lemma resolve_remote:
  assumes "map_of (sv_conflicts s) k = Some c"
  shows "sv_conflicts (fst (ResolveConflict k False s)) = gm_del k (sv_conflicts s)"
    and "sv_resources (fst (ResolveConflict k False s)) = gm_put k (ci_RemoteVersion c) (sv_resources s)"
  using assms by (simp_all add: ResolveConflict_def Let_def notifyChange_def stat_resolved_def)

lemma GetConflicts_map: "GetConflicts s = map snd (sv_conflicts s)"
proof -
  have "fold (\<lambda>(_, c) acc. acc @ [c]) xs acc = acc @ map snd xs" for xs :: "(string, ConflictInfo) gomap" and acc
    by (induction xs arbitrary: acc) auto
  then show ?thesis by (simp add: GetConflicts_def)
qed

lemma autoResolve_fold:
  assumes "set cs \<subseteq> set (sv_conflicts s)" and "distinct (map fst cs)" and "gm_ok (sv_conflicts s)"
    and "\<forall>(k, c) \<in> set cs. rk_String (ci_Key c) = k"
  shows "map_of (sv_conflicts (fold (\<lambda>c st. fst (ResolveConflict (rk_String (ci_Key c)) False st)) (map snd cs) s)) =
      map_of (sv_conflicts s) |` (- fst ` set cs) \<and>
    map_of (sv_resources (fold (\<lambda>c st. fst (ResolveConflict (rk_String (ci_Key c)) False st)) (map snd cs) s)) =
      map_of (sv_resources s) ++ map_of (map (\<lambda>(k, c). (k, ci_RemoteVersion c)) cs)"
  using assms
proof (induction cs arbitrary: s)
  case Nil
  then show ?case by simp
next
  case (Cons kc cs)
  obtain k c where kc: "kc = (k, c)" by (cases kc)
  let ?s = "fst (ResolveConflict k False s)"
  have look: "map_of (sv_conflicts s) k = Some c" using Cons.prems(1,3) kc by (simp add: gm_mem_iff)
  have key: "rk_String (ci_Key c) = k" and fresh: "k \<notin> fst ` set cs" using Cons.prems(2,4) kc by auto
  have "set cs \<subseteq> set (gm_del k (sv_conflicts s))"
  proof (rule subrelI)
    fix a b assume ab: "(a, b) \<in> set cs"
    then have "a \<noteq> k" using fresh by force
    moreover have "map_of (sv_conflicts s) a = Some b"
      using ab Cons.prems(1) by (auto simp flip: gm_mem_iff [OF Cons.prems(3)])
    ultimately show "(a, b) \<in> set (gm_del k (sv_conflicts s))"
      using Cons.prems(3) by (simp add: gm_mem_iff delete_conv')
  qed
  then have IH: "map_of (sv_conflicts (fold (\<lambda>c st. fst (ResolveConflict (rk_String (ci_Key c)) False st)) (map snd cs) ?s)) =
      map_of (sv_conflicts ?s) |` (- fst ` set cs) \<and>
    map_of (sv_resources (fold (\<lambda>c st. fst (ResolveConflict (rk_String (ci_Key c)) False st)) (map snd cs) ?s)) =
      map_of (sv_resources ?s) ++ map_of (map (\<lambda>(k, c). (k, ci_RemoteVersion c)) cs)"
    using Cons.prems(2-4) by (intro Cons.IH) (auto simp: resolve_remote(1) [OF look])
  have none: "map_of (map (\<lambda>(k, c). (k, ci_RemoteVersion c)) cs) k = None"
    using fresh by (auto simp: map_of_eq_None_iff image_iff split: prod.splits)
  show ?case
    using IH none
    by (auto simp: kc key resolve_remote [OF look] update_conv' delete_conv' restrict_map_def fun_eq_iff map_add_def
        split: option.splits)
qed



text \<open>
  The grace period can be skipped: a check that runs while the detector is healing and every
  known peer is reachable makes it healthy at once, before the grace period is over, without
  resolving the pending conflicts, and the goroutine that ends the period then does nothing.
\<close>
lemma healing_grace_is_skipped:
  assumes "sd_state d = PartitionStateHealing" and "fst ` set (sv_peerStates s) \<subseteq> reach now d"
  shows "sd_state (detectionTick now (Some s) d) = PartitionStateHealthy \<and>
    \<not> AreWritesFenced (detectionTick now (Some s) d) \<and>
    runHealingProcess (Some s) (detectionTick now (Some s) d) = (detectionTick now (Some s) d, Some s)"
  using assms
  by (simp add: detectionTick_def checkForPartition_def Let_def unreachable_Nil transitionToHealthy_def checkQuorum_def
      runHealingProcess_def AreWritesFenced_def)

end
