(* ===== verification/Fed_Spec.thy ===== *)
theory Fed_Spec
  imports Fed_Types
begin

section \<open>The federation resource: defaults, validation and conversion\<close>

text \<open>
  The specification a user writes (\<open>api/v1alpha1/novaedgefederation_types.go\<close>), the admission
  webhook that fills in defaults and validates it
  (\<open>internal/operator/webhook/federation_webhook.go\<close>), and its conversion to the configuration of
  the federation manager (\<open>CRDToConfig\<close> of \<open>manager.go\<close>). A nil pointer is \<open>None\<close>, a
  \<open>metav1.Duration\<close> a duration. A validation message is a constructor of \<open>spec_error\<close> or
  \<open>spec_warning\<close> with its arguments; the joined error is the list of the messages.
\<close>

subsection \<open>The specification\<close>

record FederationMember =
  fm_Name :: string
  fm_Region :: string
  fm_Zone :: string
  fm_Endpoint :: string
  fm_Labels :: labels

record SecretReference =
  sr_Name :: string
  sr_Namespace :: string

record FederationTLS =
  ft_Enabled :: "bool option"
  ft_CASecretRef :: "SecretReference option"
  ft_ClientCertSecretRef :: "SecretReference option"
  ft_ServerName :: string
  ft_InsecureSkipVerify :: bool

record FederationPeer =
  fp_Name :: string
  fp_Region :: string
  fp_Zone :: string
  fp_Endpoint :: string
  fp_TLS :: "FederationTLS option"
  fp_Priority :: int
  fp_Labels :: labels

record FederationSyncConfig =
  fs_Interval :: "duration option"
  fs_Timeout :: "duration option"
  fs_BatchSize :: int
  fs_Compression :: "bool option"
  fs_ResourceTypes :: "string list"
  fs_ExcludeNamespaces :: "string list"

definition FederationSyncConfig_zero :: FederationSyncConfig where
  "FederationSyncConfig_zero =
     \<lparr>fs_Interval = None, fs_Timeout = None, fs_BatchSize = 0, fs_Compression = None,
      fs_ResourceTypes = [], fs_ExcludeNamespaces = []\<rparr>"

record ConflictResolutionConfig =
  cr_Strategy :: string
  cr_VectorClocks :: "bool option"
  cr_TombstoneTTL :: "duration option"

definition ConflictResolutionConfig_zero :: ConflictResolutionConfig where
  "ConflictResolutionConfig_zero = \<lparr>cr_Strategy = '''', cr_VectorClocks = None, cr_TombstoneTTL = None\<rparr>"

record FederationHealthCheck =
  fh_Interval :: "duration option"
  fh_Timeout :: "duration option"
  fh_FailureThreshold :: int
  fh_SuccessThreshold :: int

definition FederationHealthCheck_zero :: FederationHealthCheck where
  "FederationHealthCheck_zero =
     \<lparr>fh_Interval = None, fh_Timeout = None, fh_FailureThreshold = 0, fh_SuccessThreshold = 0\<rparr>"

record AgentQuorumConfig =
  aq_ControllerWeight :: int
  aq_AgentWeight :: int
  aq_MinAgentsForQuorum :: int

record SplitBrainCRDConfig =
  sc_Enabled :: "bool option"
  sc_PartitionTimeout :: "duration option"
  sc_QuorumMode :: QuorumMode
  sc_QuorumRequired :: "bool option"
  sc_FencingEnabled :: "bool option"
  sc_HealingGracePeriod :: "duration option"
  sc_AutoResolveOnHeal :: "bool option"
  sc_AgentQuorum :: "AgentQuorumConfig option"

record NovaEdgeFederationSpec =
  ns_Mode :: string
  ns_FederationID :: string
  ns_LocalMember :: FederationMember
  ns_Members :: "FederationPeer list"
  ns_Sync :: "FederationSyncConfig option"
  ns_ConflictResolution :: "ConflictResolutionConfig option"
  ns_HealthCheck :: "FederationHealthCheck option"
  ns_SplitBrain :: "SplitBrainCRDConfig option"
  ns_Paused :: bool

subsection \<open>Defaults\<close>

definition default_peer :: "FederationPeer \<Rightarrow> FederationPeer" where
  "default_peer peer =
     (let peer1 = (if fp_Priority peer = 0 then peer\<lparr>fp_Priority := 100\<rparr> else peer)
      in case fp_TLS peer1 of
           Some tls \<Rightarrow> if ft_Enabled tls = None then peer1\<lparr>fp_TLS := Some (tls\<lparr>ft_Enabled := Some True\<rparr>)\<rparr> else peer1
         | None \<Rightarrow> peer1)"

definition Default :: "NovaEdgeFederationSpec \<Rightarrow> NovaEdgeFederationSpec" where
  "Default fed =
     (let sync = (case ns_Sync fed of None \<Rightarrow> FederationSyncConfig_zero | Some x \<Rightarrow> x);
          sync1 = (if fs_BatchSize sync = 0 then sync\<lparr>fs_BatchSize := 100\<rparr> else sync);
          sync2 = (if fs_Compression sync1 = None then sync1\<lparr>fs_Compression := Some True\<rparr> else sync1);
          cr = (case ns_ConflictResolution fed of None \<Rightarrow> ConflictResolutionConfig_zero | Some x \<Rightarrow> x);
          cr1 = (if cr_Strategy cr = '''' then cr\<lparr>cr_Strategy := ''LastWriterWins''\<rparr> else cr);
          cr2 = (if cr_VectorClocks cr1 = None then cr1\<lparr>cr_VectorClocks := Some True\<rparr> else cr1);
          hc = (case ns_HealthCheck fed of None \<Rightarrow> FederationHealthCheck_zero | Some x \<Rightarrow> x);
          hc1 = (if fh_FailureThreshold hc = 0 then hc\<lparr>fh_FailureThreshold := 3\<rparr> else hc);
          hc2 = (if fh_SuccessThreshold hc1 = 0 then hc1\<lparr>fh_SuccessThreshold := 1\<rparr> else hc1)
      in fed\<lparr>ns_Sync := Some sync2, ns_ConflictResolution := Some cr2, ns_HealthCheck := Some hc2,
             ns_Members := map default_peer (ns_Members fed)\<rparr>)"

subsection \<open>Validation\<close>

text \<open>\<open>net.SplitHostPort\<close>: the host and the port after the last colon, \<open>None\<close> for an error.\<close>

definition lastColon :: "string \<Rightarrow> nat option" where
  "lastColon s = fold (\<lambda>i last. if s ! i = CHR '':'' then Some i else last) [0..<length s] None"

definition firstBracket :: "string \<Rightarrow> nat option" where
  "firstBracket s = List.find (\<lambda>i. s ! i = CHR '']'') [0..<length s]"

definition SplitHostPort :: "string \<Rightarrow> (string \<times> string) option" where
  "SplitHostPort hostport =
     (case lastColon hostport of
        None \<Rightarrow> None
      | Some i \<Rightarrow>
          (let finish = (\<lambda>host j k.
                 if CHR ''['' \<in> set (drop j hostport) then None
                 else if CHR '']'' \<in> set (drop k hostport) then None
                 else Some (host, drop (i + 1) hostport))
           in if hostport ! 0 = CHR ''[''
              then (case firstBracket hostport of
                      None \<Rightarrow> None
                    | Some e \<Rightarrow>
                        if e + 1 = length hostport then None
                        else if e + 1 = i then finish (take (e - 1) (drop 1 hostport)) 1 (e + 1)
                        else None)
              else (let host = take i hostport
                    in if CHR '':'' \<in> set host then None else finish host 0 0)))"

text \<open>The pattern \<open>^[a-z0-9]([-a-z0-9]*[a-z0-9])?$\<close>.\<close>

definition isLowerAlnum :: "char \<Rightarrow> bool" where
  "isLowerAlnum c \<longleftrightarrow> (CHR ''a'' \<le> c \<and> c \<le> CHR ''z'') \<or> (CHR ''0'' \<le> c \<and> c \<le> CHR ''9'')"

definition memberNameRegex :: "string \<Rightarrow> bool" where
  "memberNameRegex s \<longleftrightarrow>
     s \<noteq> '''' \<and> isLowerAlnum (hd s) \<and> isLowerAlnum (last s) \<and> list_all (\<lambda>c. isLowerAlnum c \<or> c = CHR ''-'') s"

datatype member_error =
    ErrInvalidName string | ErrNameTooLong string | ErrInvalidEndpoint string | ErrEmptyHost string | ErrEmptyPort string

datatype spec_error =
    InvalidFederationID string
  | FederationIDTooLong string
  | InvalidLocalMember member_error
  | InvalidPeer nat string member_error
  | DuplicateMemberName string
  | DuplicateEndpoint string
  | PeerIsLocalMember string
  | InvalidPeerTLS string
  | InvalidResourceType string
  | InvalidStrategy string
  | TimeoutNotLessThanInterval
  | FederationIDImmutable string string
  | LocalMemberNameImmutable string string

datatype spec_warning = LargeBatchSize int | ManualResolution | HealthyPeers "string list" | PendingConflicts int

definition validateMember :: "string \<Rightarrow> string \<Rightarrow> member_error option" where
  "validateMember name endpoint =
     (if \<not> memberNameRegex name then Some (ErrInvalidName name)
      else if length name > 63 then Some (ErrNameTooLong name)
      else case SplitHostPort endpoint of
             None \<Rightarrow> Some (ErrInvalidEndpoint endpoint)
           | Some (host, port) \<Rightarrow>
               if host = '''' then Some (ErrEmptyHost endpoint)
               else if port = '''' then Some (ErrEmptyPort endpoint)
               else None)"

text \<open>\<open>validateTLS\<close>: True when it returns its only error.\<close>

definition validateTLS :: "FederationTLS \<Rightarrow> bool" where
  "validateTLS tls = (ft_Enabled tls = Some True \<and> ft_CASecretRef tls = None \<and> \<not> ft_InsecureSkipVerify tls)"

text \<open>One iteration of the loop of \<open>validateFederationPeers\<close> over the peers with their indices.\<close>

definition validatePeer ::
  "FederationMember \<Rightarrow> nat \<times> FederationPeer
   \<Rightarrow> (string, bool) gomap \<times> (string, bool) gomap \<times> spec_error list
   \<Rightarrow> (string, bool) gomap \<times> (string, bool) gomap \<times> spec_error list" where
  "validatePeer local entry st =
     (case (entry, st) of ((i, peer), (memberNames, endpoints, errs)) \<Rightarrow>
        (gm_put (fp_Name peer) True memberNames, gm_put (fp_Endpoint peer) True endpoints,
         errs
         @ (case validateMember (fp_Name peer) (fp_Endpoint peer) of
              None \<Rightarrow> [] | Some err \<Rightarrow> [InvalidPeer i (fp_Name peer) err])
         @ (if gm_get False memberNames (fp_Name peer) then [DuplicateMemberName (fp_Name peer)] else [])
         @ (if gm_get False endpoints (fp_Endpoint peer) then [DuplicateEndpoint (fp_Endpoint peer)] else [])
         @ (if fp_Name peer = fm_Name local then [PeerIsLocalMember (fp_Name peer)] else [])
         @ (case fp_TLS peer of
              None \<Rightarrow> [] | Some tls \<Rightarrow> if validateTLS tls then [InvalidPeerTLS (fp_Name peer)] else [])))"

definition validateFederationPeers :: "NovaEdgeFederationSpec \<Rightarrow> spec_error list" where
  "validateFederationPeers fed =
     (case fold (validatePeer (ns_LocalMember fed)) (enumerate 0 (ns_Members fed))
             ([(fm_Name (ns_LocalMember fed), True)], [(fm_Endpoint (ns_LocalMember fed), True)], []) of
        (_, _, errs) \<Rightarrow> errs)"

definition validateSyncConfig :: "FederationSyncConfig option \<Rightarrow> spec_error list \<times> spec_warning list" where
  "validateSyncConfig sync =
     (case sync of
        None \<Rightarrow> ([], [])
      | Some s \<Rightarrow>
          (fold (\<lambda>rt errs.
                   if \<not> gm_get False [(''ProxyGateway'', True), (''ProxyRoute'', True), (''ProxyBackend'', True),
                                      (''ProxyPolicy'', True)] rt
                   then errs @ [InvalidResourceType rt] else errs) (fs_ResourceTypes s) [],
           if fs_BatchSize s > 1000 then [LargeBatchSize (fs_BatchSize s)] else []))"

definition validateConflictResolution :: "ConflictResolutionConfig option \<Rightarrow> spec_error list \<times> spec_warning list" where
  "validateConflictResolution cr =
     (case cr of
        None \<Rightarrow> ([], [])
      | Some c \<Rightarrow>
          (if cr_Strategy c = ''LastWriterWins'' \<or> cr_Strategy c = ''Merge'' \<or> cr_Strategy c = ''Manual''
           then [] else [InvalidStrategy (cr_Strategy c)],
           if cr_Strategy c = ''Manual'' then [ManualResolution] else []))"

definition validateFederation :: "NovaEdgeFederationSpec \<Rightarrow> spec_warning list \<times> spec_error list" where
  "validateFederation fed =
     (let errs = (if \<not> memberNameRegex (ns_FederationID fed) then [InvalidFederationID (ns_FederationID fed)] else [])
            @ (if length (ns_FederationID fed) > 63 then [FederationIDTooLong (ns_FederationID fed)] else [])
            @ (case validateMember (fm_Name (ns_LocalMember fed)) (fm_Endpoint (ns_LocalMember fed)) of
                 None \<Rightarrow> [] | Some err \<Rightarrow> [InvalidLocalMember err])
            @ validateFederationPeers fed;
          (syncErrs, syncWarns) = validateSyncConfig (ns_Sync fed);
          (crErrs, crWarns) = validateConflictResolution (ns_ConflictResolution fed);
          hcErrs = (case ns_HealthCheck fed of
                      None \<Rightarrow> []
                    | Some hc \<Rightarrow>
                        (case (fh_Interval hc, fh_Timeout hc) of
                           (Some interval, Some timeout) \<Rightarrow> if timeout \<ge> interval then [TimeoutNotLessThanInterval] else []
                         | _ \<Rightarrow> []))
      in (syncWarns @ crWarns, errs @ syncErrs @ crErrs @ hcErrs))"

definition ValidateCreate :: "NovaEdgeFederationSpec \<Rightarrow> spec_warning list \<times> spec_error list" where
  "ValidateCreate fed = validateFederation fed"

definition ValidateUpdate ::
  "NovaEdgeFederationSpec \<Rightarrow> NovaEdgeFederationSpec \<Rightarrow> spec_warning list \<times> spec_error list" where
  "ValidateUpdate old new =
     (if ns_FederationID old \<noteq> ns_FederationID new
      then ([], [FederationIDImmutable (ns_FederationID old) (ns_FederationID new)])
      else if fm_Name (ns_LocalMember old) \<noteq> fm_Name (ns_LocalMember new)
      then ([], [LocalMemberNameImmutable (fm_Name (ns_LocalMember old)) (fm_Name (ns_LocalMember new))])
      else validateFederation new)"

text \<open>\<open>ValidateDelete\<close> reads the names and health of the members and the pending conflicts of the status.\<close>

definition ValidateDelete :: "(string \<times> bool) list \<Rightarrow> int \<Rightarrow> spec_warning list \<times> spec_error list" where
  "ValidateDelete members conflictsPending =
     (let healthyPeers = fold (\<lambda>(name, healthy) ps. if healthy then ps @ [name] else ps) members []
      in ((if length members > 0 \<and> length healthyPeers > 0 then [HealthyPeers healthyPeers] else [])
          @ (if conflictsPending > 0 then [PendingConflicts conflictsPending] else []), []))"

subsection \<open>Conversion\<close>

definition crd_peer :: "FederationPeer \<Rightarrow> PeerInfo" where
  "crd_peer peer =
     (let peerInfo = (PeerInfo_named (fp_Name peer))\<lparr>pi_Endpoint := fp_Endpoint peer, pi_Region := fp_Region peer,
            pi_Zone := fp_Zone peer, pi_Priority := fp_Priority peer, pi_Labels := fp_Labels peer\<rparr>
      in case fp_TLS peer of
           None \<Rightarrow> peerInfo
         | Some tls \<Rightarrow>
             peerInfo\<lparr>pi_TLSEnabled := (ft_Enabled tls = None \<or> ft_Enabled tls = Some True),
                      pi_TLSServerName := ft_ServerName tls, pi_InsecureSkipVerify := ft_InsecureSkipVerify tls\<rparr>)"

definition orElse :: "'a option \<Rightarrow> 'a \<Rightarrow> 'a" where
  "orElse x d = (case x of None \<Rightarrow> d | Some v \<Rightarrow> v)"

definition crd_sync :: "FederationSyncConfig \<Rightarrow> Config \<Rightarrow> Config" where
  "crd_sync sync config =
     config\<lparr>cf_SyncInterval := orElse (fs_Interval sync) (cf_SyncInterval config),
            cf_SyncTimeout := orElse (fs_Timeout sync) (cf_SyncTimeout config),
            cf_BatchSize := (if fs_BatchSize sync > 0 then fs_BatchSize sync else cf_BatchSize config),
            cf_CompressionEnabled := orElse (fs_Compression sync) (cf_CompressionEnabled config),
            cf_ResourceTypes := fs_ResourceTypes sync,
            cf_ExcludeNamespaces := fs_ExcludeNamespaces sync\<rparr>"

definition crd_conflict :: "ConflictResolutionConfig \<Rightarrow> Config \<Rightarrow> Config" where
  "crd_conflict cr config =
     config\<lparr>cf_ConflictResolutionStrategy := cr_Strategy cr,
            cf_VectorClocksEnabled := orElse (cr_VectorClocks cr) (cf_VectorClocksEnabled config),
            cf_TombstoneTTL := orElse (cr_TombstoneTTL cr) (cf_TombstoneTTL config)\<rparr>"

definition crd_health :: "FederationHealthCheck \<Rightarrow> Config \<Rightarrow> Config" where
  "crd_health hc config =
     config\<lparr>cf_HealthCheckInterval := orElse (fh_Interval hc) (cf_HealthCheckInterval config),
            cf_HealthCheckTimeout := orElse (fh_Timeout hc) (cf_HealthCheckTimeout config),
            cf_FailureThreshold := (if fh_FailureThreshold hc > 0 then fh_FailureThreshold hc else cf_FailureThreshold config),
            cf_SuccessThreshold := (if fh_SuccessThreshold hc > 0 then fh_SuccessThreshold hc else cf_SuccessThreshold config)\<rparr>"

definition CRDToConfig :: "NovaEdgeFederationSpec \<Rightarrow> Config" where
  "CRDToConfig fed =
     (let config = DefaultConfig\<lparr>cf_FederationID := ns_FederationID fed\<rparr>;
          config1 = (if ns_Mode fed \<noteq> '''' then config\<lparr>cf_Mode := ns_Mode fed\<rparr> else config);
          localMember = (PeerInfo_named (fm_Name (ns_LocalMember fed)))\<lparr>pi_Endpoint := fm_Endpoint (ns_LocalMember fed),
            pi_Region := fm_Region (ns_LocalMember fed), pi_Zone := fm_Zone (ns_LocalMember fed),
            pi_Labels := fm_Labels (ns_LocalMember fed)\<rparr>;
          config2 = config1\<lparr>cf_LocalMember := Some localMember\<rparr>;
          config3 = config2\<lparr>cf_Peers := cf_Peers config2 @ map crd_peer (ns_Members fed)\<rparr>;
          config4 = (case ns_Sync fed of None \<Rightarrow> config3 | Some sync \<Rightarrow> crd_sync sync config3);
          config5 = (case ns_ConflictResolution fed of None \<Rightarrow> config4 | Some cr \<Rightarrow> crd_conflict cr config4)
      in case ns_HealthCheck fed of None \<Rightarrow> config5 | Some hc \<Rightarrow> crd_health hc config5)"

text \<open>The TLS credentials of \<open>NewManagerFromCRDWithCreds\<close>: CA, client certificate and key; a nil entry is \<open>None\<close>.\<close>

record TLSCredentials =
  tl_CACert :: bytes
  tl_ClientCert :: bytes
  tl_ClientKey :: bytes

definition applyCredentials :: "(string, TLSCredentials option) gomap \<Rightarrow> Config \<Rightarrow> Config" where
  "applyCredentials tlsCreds config =
     config\<lparr>cf_Peers := map (\<lambda>peer. case map_of tlsCreds (pi_Name peer) of
        Some (Some creds) \<Rightarrow> peer\<lparr>pi_CACert := tl_CACert creds, pi_ClientCert := tl_ClientCert creds,
                                  pi_ClientKey := tl_ClientKey creds\<rparr>
      | _ \<Rightarrow> peer) (cf_Peers config)\<rparr>"


subsection \<open>What an admitted specification guarantees\<close>

lemma validate_peers:
  assumes "fold (validatePeer local) (enumerate n ps) (names, eps, errs) = (names', eps', [])"
  shows "errs = [] \<and> distinct (map fp_Name ps) \<and> distinct (map fp_Endpoint ps) \<and>
    (\<forall>p \<in> set ps. validateMember (fp_Name p) (fp_Endpoint p) = None \<and> \<not> gm_get False names (fp_Name p) \<and>
       \<not> gm_get False eps (fp_Endpoint p) \<and> fp_Name p \<noteq> fm_Name local \<and> (\<forall>tls. fp_TLS p = Some tls \<longrightarrow> \<not> validateTLS tls))"
  using assms
proof (induction ps arbitrary: n names eps errs)
  case (Cons p ps)
  obtain names1 eps1 errs1 where one: "validatePeer local (n, p) (names, eps, errs) = (names1, eps1, errs1)"
    by (cases "validatePeer local (n, p) (names, eps, errs)")
  note ih = Cons.IH [of "Suc n" names1 eps1 errs1]
  from one have "names1 = gm_put (fp_Name p) True names" "eps1 = gm_put (fp_Endpoint p) True eps"
    by (simp_all add: validatePeer_def)
  moreover have "errs1 = [] \<Longrightarrow> errs = [] \<and> validateMember (fp_Name p) (fp_Endpoint p) = None \<and>
      \<not> gm_get False names (fp_Name p) \<and> \<not> gm_get False eps (fp_Endpoint p) \<and> fp_Name p \<noteq> fm_Name local \<and>
      (\<forall>tls. fp_TLS p = Some tls \<longrightarrow> \<not> validateTLS tls)"
    using one by (auto simp: validatePeer_def split: option.splits if_splits)
  moreover have "gm_get False (gm_put k True m) x \<longleftrightarrow> x = k \<or> gm_get False m x" for k x and m :: "(string, bool) gomap"
    by (simp add: gm_get_put)
  ultimately show ?case
    using ih Cons.prems one by auto
qed simp

lemma default_peer_frame [simp]:
  "fp_Name (default_peer p) = fp_Name p" "fp_Endpoint (default_peer p) = fp_Endpoint p"
  by (auto simp: default_peer_def Let_def split: option.splits)

lemma default_peer_TLS:
  "fp_TLS (default_peer p) = map_option (\<lambda>tls. tls\<lparr>ft_Enabled := Some (orElse (ft_Enabled tls) True)\<rparr>) (fp_TLS p)"
  by (cases p) (auto simp: default_peer_def Let_def orElse_def split: option.splits)

lemma Default_frame [simp]:
  "ns_LocalMember (Default fed) = ns_LocalMember fed" "ns_FederationID (Default fed) = ns_FederationID fed"
  "ns_Mode (Default fed) = ns_Mode fed" "ns_Members (Default fed) = map default_peer (ns_Members fed)"
  by (simp_all add: Default_def Let_def)

lemma Default_idem: "Default (Default fed) = Default fed"
proof -
  have "default_peer (default_peer p) = default_peer p" for p
    by (cases p) (auto simp: default_peer_def Let_def split: option.splits)
  then show ?thesis
    by (cases fed) (auto simp: Default_def Let_def)
qed

lemma enabled_iff: "x = None \<or> x = Some True \<longleftrightarrow> x \<noteq> Some False"
  by (cases x) auto

lemma crd_peer_frame [simp]:
  "pi_Name (crd_peer p) = fp_Name p" "pi_Endpoint (crd_peer p) = fp_Endpoint p"
  "pi_TLSEnabled (crd_peer p) \<longleftrightarrow> (\<exists>tls. fp_TLS p = Some tls \<and> ft_Enabled tls \<noteq> Some False)"
  "pi_InsecureSkipVerify (crd_peer p) \<longleftrightarrow> (\<exists>tls. fp_TLS p = Some tls \<and> ft_InsecureSkipVerify tls)"
  by (auto simp: crd_peer_def Let_def PeerInfo_named_def enabled_iff split: option.splits)

lemma CRDToConfig_frame:
  "cf_Peers (CRDToConfig fed) = map crd_peer (ns_Members fed)" "cf_SplitBrain (CRDToConfig fed) = None"
  "cf_FederationID (CRDToConfig fed) = ns_FederationID fed"
  "\<exists>me. cf_LocalMember (CRDToConfig fed) = Some me \<and> pi_Name me = fm_Name (ns_LocalMember fed) \<and>
     pi_Endpoint me = fm_Endpoint (ns_LocalMember fed)"
  by (simp_all add: CRDToConfig_def Let_def DefaultConfig_def crd_sync_def crd_conflict_def crd_health_def
      PeerInfo_named_def split: option.split)

lemma CRDToConfig_ranges:
  "0 < cf_BatchSize (CRDToConfig fed)" "0 < cf_FailureThreshold (CRDToConfig fed)"
  "0 < cf_SuccessThreshold (CRDToConfig fed)"
  by (simp_all add: CRDToConfig_def Let_def DefaultConfig_def crd_sync_def crd_conflict_def crd_health_def
      split: option.split)

definition member_ok :: "string \<Rightarrow> string \<Rightarrow> bool" where
  "member_ok name endpoint \<longleftrightarrow>
     memberNameRegex name \<and> length name \<le> 63 \<and>
     (\<exists>host port. SplitHostPort endpoint = Some (host, port) \<and> host \<noteq> '''' \<and> port \<noteq> '''')"

lemma validateMember_ok: "validateMember name endpoint = None \<longleftrightarrow> member_ok name endpoint"
  by (auto simp: validateMember_def member_ok_def split: option.splits)

lemma Default_strategy:
  assumes "fst (validateConflictResolution (ns_ConflictResolution (Default fed))) = []"
  shows "cf_ConflictResolutionStrategy (CRDToConfig (Default fed)) \<in> {''LastWriterWins'', ''Merge'', ''Manual''}"
proof -
  obtain cr where cr: "ns_ConflictResolution (Default fed) = Some cr" by (simp add: Default_def Let_def)
  then have "cf_ConflictResolutionStrategy (CRDToConfig (Default fed)) = cr_Strategy cr"
    by (simp add: CRDToConfig_def Let_def crd_conflict_def crd_health_def split: option.split)
  then show ?thesis using assms cr by (auto simp: validateConflictResolution_def split: if_splits)
qed

text \<open>
  C17. A specification that passes the webhook gives a well-formed configuration: its identifiers
  and the names of all members are DNS labels of at most 63 characters, every endpoint has a host
  and a port, names and endpoints of the members are pairwise different and differ from the local
  member's, a peer reached over TLS has a CA secret or skips verification, the batch size and the
  thresholds are positive and the conflict strategy is one of the three that exist.
\<close>
theorem admitted_spec_well_formed:
  assumes "snd (validateFederation (Default fed)) = []"
  shows "let cfg = CRDToConfig (Default fed) in
    memberNameRegex (cf_FederationID cfg) \<and> length (cf_FederationID cfg) \<le> 63 \<and>
    (\<exists>me. cf_LocalMember cfg = Some me \<and> member_ok (pi_Name me) (pi_Endpoint me) \<and>
       distinct (map pi_Name (me # cf_Peers cfg)) \<and> distinct (map pi_Endpoint (me # cf_Peers cfg))) \<and>
    (\<forall>p \<in> set (cf_Peers cfg). member_ok (pi_Name p) (pi_Endpoint p)) \<and>
    (\<forall>p \<in> set (ns_Members (Default fed)). pi_TLSEnabled (crd_peer p) \<and> \<not> pi_InsecureSkipVerify (crd_peer p) \<longrightarrow>
       (\<exists>tls ca. fp_TLS p = Some tls \<and> ft_CASecretRef tls = Some ca)) \<and>
    0 < cf_BatchSize cfg \<and> 0 < cf_FailureThreshold cfg \<and> 0 < cf_SuccessThreshold cfg \<and>
    cf_ConflictResolutionStrategy cfg \<in> {''LastWriterWins'', ''Merge'', ''Manual''}"
proof -
  let ?fed = "Default fed" and ?local = "ns_LocalMember fed"
  have none: "memberNameRegex (ns_FederationID fed)" "length (ns_FederationID fed) \<le> 63"
    "validateMember (fm_Name ?local) (fm_Endpoint ?local) = None" "validateFederationPeers ?fed = []"
    "fst (validateConflictResolution (ns_ConflictResolution ?fed)) = []"
    using assms by (auto simp: validateFederation_def Let_def split_def split: if_splits option.splits)
  obtain names eps where "fold (validatePeer ?local) (enumerate 0 (ns_Members ?fed))
      ([(fm_Name ?local, True)], [(fm_Endpoint ?local, True)], []) = (names, eps, [])"
    using none(4) by (auto simp: validateFederationPeers_def split: prod.splits)
  note ps = validate_peers [OF this]
  have mark: "gm_get False [(k, True)] x \<longleftrightarrow> x = k" for k x :: string by (simp add: gm_get_def)
  obtain me where me: "cf_LocalMember (CRDToConfig ?fed) = Some me" "pi_Name me = fm_Name ?local"
    "pi_Endpoint me = fm_Endpoint ?local" using CRDToConfig_frame(4) [of ?fed] by auto
  have map_crd: "map pi_Name (map crd_peer xs) = map fp_Name xs" "map pi_Endpoint (map crd_peer xs) = map fp_Endpoint xs" for xs
    by simp_all
  have local_ok: "distinct (map pi_Name (me # cf_Peers (CRDToConfig ?fed)))" "distinct (map pi_Endpoint (me # cf_Peers (CRDToConfig ?fed)))"
    using ps me(2,3) unfolding CRDToConfig_frame list.map(2) map_crd mark by auto
  have tls: "\<exists>tls ca. fp_TLS p = Some tls \<and> ft_CASecretRef tls = Some ca"
    if p: "p \<in> set (ns_Members ?fed)" "pi_TLSEnabled (crd_peer p)" "\<not> pi_InsecureSkipVerify (crd_peer p)" for p
  proof -
    from p(2) obtain tls where t: "fp_TLS p = Some tls" "ft_Enabled tls \<noteq> Some False" by auto
    have "ft_Enabled tls = Some True"
      using p(1) t by (auto simp: default_peer_TLS orElse_def split: option.splits)
    then show ?thesis using ps p t by (cases "ft_CASecretRef tls") (auto simp: validateTLS_def)
  qed
  have members: "\<forall>p \<in> set (cf_Peers (CRDToConfig ?fed)). member_ok (pi_Name p) (pi_Endpoint p)"
    using ps by (simp add: CRDToConfig_frame(1) validateMember_ok)
  have "member_ok (pi_Name me) (pi_Endpoint me)" using none(3) me by (simp add: validateMember_ok)
  then show ?thesis
    unfolding Let_def
    using none(1,2) me(1) local_ok tls members CRDToConfig_ranges Default_strategy [OF none(5)]
    by (intro conjI) (auto simp only: CRDToConfig_frame(3) Default_frame)
qed

definition sample_spec :: NovaEdgeFederationSpec where
  "sample_spec =
     \<lparr>ns_Mode = ''mesh'', ns_FederationID = ''fed-1'',
      ns_LocalMember = \<lparr>fm_Name = ''a'', fm_Region = ''eu'', fm_Zone = ''z1'', fm_Endpoint = ''a.example:9443'', fm_Labels = None\<rparr>,
      ns_Members = [\<lparr>fp_Name = ''b'', fp_Region = ''us'', fp_Zone = ''z2'', fp_Endpoint = ''[fd00::1]:9443'',
        fp_TLS = Some \<lparr>ft_Enabled = None, ft_CASecretRef = Some \<lparr>sr_Name = ''ca'', sr_Namespace = ''ns''\<rparr>,
          ft_ClientCertSecretRef = None, ft_ServerName = ''b'', ft_InsecureSkipVerify = False\<rparr>,
        fp_Priority = 0, fp_Labels = None\<rparr>],
      ns_Sync = None, ns_ConflictResolution = None, ns_HealthCheck = None,
      ns_SplitBrain = Some \<lparr>sc_Enabled = Some True, sc_PartitionTimeout = None, sc_QuorumMode = QuorumModeControllers,
        sc_QuorumRequired = Some True, sc_FencingEnabled = Some True, sc_HealingGracePeriod = None,
        sc_AutoResolveOnHeal = None, sc_AgentQuorum = None\<rparr>,
      ns_Paused = False\<rparr>"

theorem admitted_spec_well_formed_witness:
  "snd (validateFederation (Default sample_spec)) = [] \<and>
   (\<exists>me. cf_LocalMember (CRDToConfig (Default sample_spec)) = Some me \<and>
      distinct (map pi_Name (me # cf_Peers (CRDToConfig (Default sample_spec)))))"
proof -
  have *: "snd (validateFederation (Default sample_spec)) = []" by code_simp
  show ?thesis using admitted_spec_well_formed [OF *] * by (auto simp: Let_def)
qed
end
