(* ===== verification/Fed_Manager.thy ===== *)
theory Fed_Manager
  imports Anti_Entropy Split_Brain Fed_Spec
begin

section \<open>The federation manager (\<open>internal/controller/federation/manager.go\<close>)\<close>

text \<open>
  \<open>Manager\<close> owns the server, the split-brain detector, the anti-entropy manager and one client per
  peer. A client is shared by the map \<open>clients\<close> and by the goroutine that maintains its connection,
  and both outlive a change of the other, so clients live in a store (\<open>mg_objects\<close>) and the map and
  the goroutines hold their index. A goroutine of \<open>maintainPeerConnection\<close> is a record with its
  backoff and the point of the loop it waits at. The context is the flag \<open>mg_cancelled\<close>. What the
  network answers is an argument, as in \<open>Peer_Client\<close>. Metrics and logging are not modelled.
\<close>

subsection \<open>State\<close>

datatype loop_phase = AtConnect | Streaming

record conn_loop =
  lp_peer :: string
  lp_client :: nat
  lp_backoff :: duration
  lp_phase :: loop_phase

record Manager =
  mg_config :: Config
  mg_server :: "Server option"
  mg_splitBrain :: "SplitBrainDetector option"
  mg_antiEntropy :: "AntiEntropyManager option"
  mg_clients :: "(string, nat) gomap"
  mg_objects :: "PeerClient list"
  mg_loops :: "conn_loop list"
  mg_started :: bool
  mg_cancelled :: bool
  mg_onResourceChange :: "nat option"

datatype manager_error =
    ErrManagerAlreadyStarted
  | ErrServerNotStarted
  | ErrManagerNotStarted
  | ErrPeerNotFound string
  | ErrRequestSync client_error
  | ErrFed fed_error
  | Panic_NilMember
  | Panic_NilServer

definition NewManager :: "Config \<Rightarrow> Manager" where
  "NewManager config =
     \<lparr>mg_config = config, mg_server = None, mg_splitBrain = None, mg_antiEntropy = None, mg_clients = [],
      mg_objects = [], mg_loops = [], mg_started = False, mg_cancelled = False, mg_onResourceChange = None\<rparr>"

definition NewManagerFromCRD :: "NovaEdgeFederationSpec \<Rightarrow> Manager" where
  "NewManagerFromCRD federation = NewManager (CRDToConfig federation)"

definition NewManagerFromCRDWithCreds ::
  "NovaEdgeFederationSpec \<Rightarrow> (string, TLSCredentials option) gomap \<Rightarrow> Manager" where
  "NewManagerFromCRDWithCreds federation tlsCreds = NewManager (applyCredentials tlsCreds (CRDToConfig federation))"

text \<open>\<open>m.clients[name] = NewPeerClient(peer, config); go m.maintainPeerConnection(name, client)\<close>, and its undoing.\<close>

definition addClient :: "string \<Rightarrow> PeerInfo \<Rightarrow> Config \<Rightarrow> Manager \<Rightarrow> Manager" where
  "addClient name peer config m =
     (let ptr = length (mg_objects m)
      in m\<lparr>mg_objects := mg_objects m @ [NewPeerClient peer config],
           mg_clients := gm_put name ptr (mg_clients m),
           mg_loops := mg_loops m @ [\<lparr>lp_peer = name, lp_client = ptr, lp_backoff = sec 1, lp_phase = AtConnect\<rparr>]\<rparr>)"

definition disconnectClient :: "nat \<Rightarrow> Manager \<Rightarrow> Manager" where
  "disconnectClient ptr m = m\<lparr>mg_objects := (mg_objects m)[ptr := Disconnect (mg_objects m ! ptr)]\<rparr>"

definition removeClient :: "string \<Rightarrow> Manager \<Rightarrow> Manager" where
  "removeClient name m =
     (case map_of (mg_clients m) name of
        None \<Rightarrow> m
      | Some ptr \<Rightarrow> (disconnectClient ptr m)\<lparr>mg_clients := gm_del name (mg_clients m)\<rparr>)"

subsection \<open>Lifecycle\<close>

definition mg_Start :: "Manager \<Rightarrow> Manager \<times> manager_error option" where
  "mg_Start m =
     (if mg_started m then (m, Some ErrManagerAlreadyStarted)
      else
        (let m1 = m\<lparr>mg_started := True, mg_cancelled := False\<rparr>;
             config = mg_config m
         in if cf_LocalMember config = None then (m1, Some Panic_NilMember)
            else
              (let server = NewServer (Some config);
                   server1 = (case mg_onResourceChange m of None \<Rightarrow> server | Some cb \<Rightarrow> OnChange cb server);
                   m2 = m1\<lparr>mg_server := Some server1\<rparr>;
                   m3 = (case cf_SplitBrain config of
                           None \<Rightarrow> m2
                         | Some sb \<Rightarrow> m2\<lparr>mg_splitBrain := Some (NewSplitBrainDetector (Some sb) (int (length (cf_Peers config))))\<rparr>);
                   m4 = (if cf_Mode config \<noteq> ModeHubSpoke
                         then m3\<lparr>mg_antiEntropy := Some (ae_Start (NewAntiEntropyManager (Some DefaultAntiEntropyConfig)))\<rparr>
                         else m3)
               in (fold (\<lambda>peer. addClient (pi_Name peer) peer config) (cf_Peers config) m4, None))))"

definition mg_Stop :: "Manager \<Rightarrow> Manager" where
  "mg_Stop m =
     (if \<not> mg_started m then m
      else
        (let m1 = m\<lparr>mg_started := False\<rparr>;
             m2 = m1\<lparr>mg_antiEntropy := map_option ae_Stop (mg_antiEntropy m1), mg_cancelled := True\<rparr>
         in (fold (\<lambda>(_, ptr). disconnectClient ptr) (mg_clients m2) m2)\<lparr>mg_clients := []\<rparr>))"

definition UpdateConfig :: "Config \<Rightarrow> Manager \<Rightarrow> Manager \<times> manager_error option" where
  "UpdateConfig newConfig m =
     (if \<not> mg_started m then (m, Some ErrManagerNotStarted)
      else
        (let oldConfig = mg_config m
         in if config_Equal False (Some oldConfig) (Some newConfig) then (m, None)
            else
              (let oldPeers = peer_map (cf_Peers oldConfig);
                   newPeers = peer_map (cf_Peers newConfig);
                   m1 = fold (\<lambda>(name, _) m. if map_of newPeers name = None then removeClient name m else m) oldPeers m;
                   m2 = fold (\<lambda>(name, peerInfo) m.
                                if map_of oldPeers name = None then addClient name peerInfo newConfig m else m) newPeers m1;
                   m3 = fold (\<lambda>(name, newPeer) m.
                                case map_of oldPeers name of
                                  None \<Rightarrow> m
                                | Some oldPeer \<Rightarrow>
                                    if \<not> peerInfoEqual (Some oldPeer) (Some newPeer)
                                    then addClient name newPeer newConfig (removeClient name m) else m) newPeers m2
               in (m3\<lparr>mg_server := map_option (\<lambda>s. s\<lparr>sv_config := newConfig\<rparr>) (mg_server m3), mg_config := newConfig\<rparr>,
                   None))))"

subsection \<open>Connections\<close>

text \<open>
  One pass of the loop of \<open>maintainPeerConnection\<close> for the i-th goroutine: connect, open the sync
  stream, then wait. \<open>cb\<close> is the number of the handlers it sets. A goroutine whose context is
  cancelled leaves the list.
\<close>

definition nextBackoff :: "duration \<Rightarrow> duration" where
  "nextBackoff backoff = min (backoff * 2) (sec 30)"

definition maintainPeerConnection ::
  "tls_env \<Rightarrow> bool \<Rightarrow> bool \<Rightarrow> bool \<Rightarrow> SyncMessage option \<Rightarrow> nat \<Rightarrow> nat \<Rightarrow> Manager \<Rightarrow> Manager" where
  "maintainPeerConnection env dialOk openOk sendOk recv cb i m =
     (if i \<ge> length (mg_loops m) \<or> lp_phase (mg_loops m ! i) = Streaming then m
      else if mg_cancelled m then m\<lparr>mg_loops := take i (mg_loops m) @ drop (i + 1) (mg_loops m)\<rparr>
      else
        (let loop = mg_loops m ! i;
             client = mg_objects m ! lp_client loop;
             clock = (case mg_server m of None \<Rightarrow> [] | Some s \<Rightarrow> vc_ToMap (sv_vectorClock s));
             failed = loop\<lparr>lp_backoff := nextBackoff (lp_backoff loop)\<rparr>;
             done = (\<lambda>l c. m\<lparr>mg_loops := (mg_loops m)[i := l], mg_objects := (mg_objects m)[lp_client loop := c]\<rparr>)
         in case Connect env dialOk client of
              (c1, Some err) \<Rightarrow> done failed c1
            | (c1, None) \<Rightarrow>
                (case StartSyncStream openOk sendOk recv clock c1 of
                   (c2, Inl err) \<Rightarrow> done failed (Disconnect c2)
                 | (c2, Inr handshake) \<Rightarrow>
                     done (loop\<lparr>lp_backoff := sec 1, lp_phase := Streaming\<rparr>) (pc_OnDisconnect cb (pc_OnMessage cb c2)))))"

text \<open>
  The end of the wait: the receive loop of the client has ended and has called the handler, or the
  context is cancelled, and then the goroutine disconnects and ends.
\<close>

definition connectionEnded :: "nat \<Rightarrow> Manager \<Rightarrow> Manager" where
  "connectionEnded i m =
     (if i \<ge> length (mg_loops m) \<or> lp_phase (mg_loops m ! i) = AtConnect then m
      else
        (let loop = mg_loops m ! i
         in if mg_cancelled m
            then disconnectClient (lp_client loop) (m\<lparr>mg_loops := take i (mg_loops m) @ drop (i + 1) (mg_loops m)\<rparr>)
            else m\<lparr>mg_loops := (mg_loops m)[i := loop\<lparr>lp_phase := AtConnect\<rparr>],
                   mg_objects := (mg_objects m)[lp_client loop := fst (receiveLoop True None (mg_objects m ! lp_client loop))]\<rparr>))"

definition handlePeerMessage :: "fed_env \<Rightarrow> gotime \<Rightarrow> string \<Rightarrow> SyncMessage \<Rightarrow> Manager \<Rightarrow> Manager \<times> manager_error option" where
  "handlePeerMessage env now peerName msg m =
     (case mg_server m of
        None \<Rightarrow> (m, case msg of
                      MsgHandshake _ \<Rightarrow> None
                    | MsgChange _ \<Rightarrow> if cf_Mode (mg_config m) = ModeHubSpoke then None else Some Panic_NilServer
                    | MsgConflict _ \<Rightarrow> Some Panic_NilServer | MsgAck _ \<Rightarrow> Some Panic_NilServer
                    | MsgHeartbeat _ \<Rightarrow> Some Panic_NilServer)
      | Some s \<Rightarrow>
          (case msg of
             MsgChange change \<Rightarrow>
               if cf_Mode (mg_config m) = ModeHubSpoke then (m, None)
               else (m\<lparr>mg_server := Some (fst (handleResourceChange env now peerName change s))\<rparr>, None)
           | MsgAck ack \<Rightarrow> (m\<lparr>mg_server := Some (handleSyncAck now peerName ack s)\<rparr>, None)
           | MsgHeartbeat hb \<Rightarrow> (m\<lparr>mg_server := Some (handleHeartbeat now peerName hb s)\<rparr>, None)
           | MsgConflict key \<Rightarrow> (m\<lparr>mg_server := Some (handleConflictNotification peerName key s)\<rparr>, None)
           | MsgHandshake _ \<Rightarrow> (m, None)))"

text \<open>
  \<open>checkPeerHealth\<close> pings every client; \<open>ping p\<close> gives the times and the outcome for the client
  at \<open>p\<close>. The goroutines run in the order of the map. A contact may start a healing process,
  which is an event of the detector.
\<close>

definition checkOne :: "(nat \<Rightarrow> gotime \<times> gotime \<times> gotime \<times> bool) \<Rightarrow> nat \<Rightarrow> Manager \<Rightarrow> Manager" where
  "checkOne ping ptr m =
     (case ping ptr of (start, stop, pinged, ok) \<Rightarrow>
        (case pc_Ping start stop pinged ok (mg_objects m ! ptr) of
           (c, err, latency) \<Rightarrow>
             (let name = pi_Name (pc_peer c);
                  m1 = m\<lparr>mg_objects := (mg_objects m)[ptr := c]\<rparr>
              in m1\<lparr>mg_splitBrain :=
                     map_option (\<lambda>d. if err \<noteq> None then RecordPeerFailure stop (mg_server m) name d
                                     else fst (RecordPeerContact stop (mg_server m) name d)) (mg_splitBrain m)\<rparr>)))"

definition checkPeerHealth :: "(nat \<Rightarrow> gotime \<times> gotime \<times> gotime \<times> bool) \<Rightarrow> Manager \<Rightarrow> Manager" where
  "checkPeerHealth ping m = fold (\<lambda>(_, ptr). checkOne ping ptr) (mg_clients m) m"

definition mg_RequestFullSync ::
  "fed_env \<Rightarrow> gotime \<Rightarrow> (FullSyncRequest \<Rightarrow> (nat \<Rightarrow> stream_item) option) \<Rightarrow> string \<Rightarrow> Manager
   \<Rightarrow> (Manager \<times> manager_error option) option" where
  "mg_RequestFullSync env now call peerName m =
     (case map_of (mg_clients m) peerName of
        None \<Rightarrow> Some (m, Some (ErrPeerNotFound peerName))
      | Some ptr \<Rightarrow>
          (case mg_server m of
             None \<Rightarrow> Some (m, Some Panic_NilServer)
           | Some s \<Rightarrow>
               (case pc_RequestFullSync call (cf_ResourceTypes (mg_config m)) [] (vc_ToMap (sv_vectorClock s))
                       (mg_objects m ! ptr) of
                  None \<Rightarrow> None
                | Some (_, Some err) \<Rightarrow> Some (m, Some (ErrRequestSync err))
                | Some (batches, None) \<Rightarrow>
                    Some (m\<lparr>mg_server := Some (fold (\<lambda>batch s. fold (\<lambda>change s.
                            fst (handleResourceChange env now peerName change s)) (rb_Resources batch) s) batches s)\<rparr>, None))))"

subsection \<open>Delegation and queries\<close>

definition RecordChange ::
  "gotime \<Rightarrow> gotime \<Rightarrow> string \<Rightarrow> ResourceKey \<Rightarrow> ChangeType \<Rightarrow> bytes \<Rightarrow> labels \<Rightarrow> Manager \<Rightarrow> Manager" where
  "RecordChange t1 t2 uuid key changeType data labels m =
     m\<lparr>mg_server := map_option (\<lambda>s. fst (RecordLocalChange t1 t2 uuid key changeType data labels s)) (mg_server m)\<rparr>"

definition OnResourceChange :: "nat \<Rightarrow> Manager \<Rightarrow> Manager" where
  "OnResourceChange fn m = m\<lparr>mg_onResourceChange := Some fn, mg_server := map_option (OnChange fn) (mg_server m)\<rparr>"

definition mg_ResolveConflict :: "string \<Rightarrow> bool \<Rightarrow> Manager \<Rightarrow> Manager \<times> manager_error option" where
  "mg_ResolveConflict keyStr useLocal m =
     (case mg_server m of
        None \<Rightarrow> (m, Some ErrServerNotStarted)
      | Some s \<Rightarrow> (case ResolveConflict keyStr useLocal s of
                     (s', err) \<Rightarrow> (m\<lparr>mg_server := Some s'\<rparr>, map_option ErrFed err)))"

definition mg_SetAgentCount :: "int \<Rightarrow> Manager \<Rightarrow> Manager" where
  "mg_SetAgentCount n m = m\<lparr>mg_server := map_option (SetAgentCount n) (mg_server m)\<rparr>"

definition GetPhase :: "Manager \<Rightarrow> Phase" where
  "GetPhase m = (case mg_server m of None \<Rightarrow> PhaseInitializing | Some s \<Rightarrow> getPhase s)"

definition mg_GetPeerStates :: "Manager \<Rightarrow> (string, PeerState) gomap" where
  "mg_GetPeerStates m = (case mg_server m of None \<Rightarrow> [] | Some s \<Rightarrow> GetPeerStates s)"

definition mg_GetStats :: "Manager \<Rightarrow> SyncStats" where
  "mg_GetStats m = (case mg_server m of None \<Rightarrow> SyncStats_zero | Some s \<Rightarrow> sv_stats s)"

definition mg_GetConflicts :: "Manager \<Rightarrow> ConflictInfo list" where
  "mg_GetConflicts m = (case mg_server m of None \<Rightarrow> [] | Some s \<Rightarrow> GetConflicts s)"

definition GetVectorClock :: "Manager \<Rightarrow> (string, int) gomap" where
  "GetVectorClock m = (case mg_server m of None \<Rightarrow> [] | Some s \<Rightarrow> vc_ToMap (sv_vectorClock s))"

definition mg_IsHealthy :: "Manager \<Rightarrow> bool" where
  "mg_IsHealthy m \<longleftrightarrow> GetPhase m = PhaseHealthy"

definition IsDegraded :: "Manager \<Rightarrow> bool" where
  "IsDegraded m \<longleftrightarrow> GetPhase m = PhaseDegraded \<or> GetPhase m = PhasePartitioned"

definition mg_AreWritesFenced :: "Manager \<Rightarrow> bool" where
  "mg_AreWritesFenced m = (case mg_splitBrain m of None \<Rightarrow> False | Some d \<Rightarrow> AreWritesFenced d)"

definition mg_GetPartitionInfo :: "Manager \<Rightarrow> PartitionInfo option" where
  "mg_GetPartitionInfo m = (case mg_splitBrain m of None \<Rightarrow> None | Some d \<Rightarrow> GetPartitionInfo d)"

definition GetFederationID :: "Manager \<Rightarrow> string" where "GetFederationID m = cf_FederationID (mg_config m)"

definition GetLocalMemberName :: "Manager \<Rightarrow> string" where
  "GetLocalMemberName m = (case cf_LocalMember (mg_config m) of None \<Rightarrow> '''' | Some me \<Rightarrow> pi_Name me)"

definition IsActive :: "Manager \<Rightarrow> bool" where "IsActive m \<longleftrightarrow> mg_started m \<and> mg_server m \<noteq> None"
definition GetMode :: "Manager \<Rightarrow> string" where "GetMode m = cf_Mode (mg_config m)"
definition IsUnifiedMode :: "Manager \<Rightarrow> bool" where "IsUnifiedMode m \<longleftrightarrow> cf_Mode (mg_config m) = ModeUnified"

definition GetRemoteEndpoints :: "string \<Rightarrow> string \<Rightarrow> Manager \<Rightarrow> ServiceEndpoints list" where
  "GetRemoteEndpoints namespace serviceName m =
     (case mg_server m of
        None \<Rightarrow> []
      | Some s \<Rightarrow> if cf_Mode (mg_config m) = ModeHubSpoke then []
                  else ec_GetForService namespace serviceName (sv_endpointCache s))"

end
