(* ===== verification/Mgr_Reconfig.thy ===== *)
theory Mgr_Reconfig
  imports Fed_Manager
begin

section \<open>Reconfiguration of a running manager\<close>

text \<open>
  What \<open>UpdateConfig\<close> does to the clients of a federation manager. The store of clients only
  grows and an object keeps its peer (\<open>store_ext\<close>); the three loops of \<open>UpdateConfig\<close> are described
  by what they remove and add (\<open>fold_remove\<close>, \<open>fold_add\<close>) and composed in \<open>reconfigured\<close>.
\<close>

subsection \<open>Clients and their goroutines\<close>

definition loop_ok :: "Manager \<Rightarrow> conn_loop \<Rightarrow> bool" where
  "loop_ok m l \<longleftrightarrow>
     lp_client l < length (mg_objects m) \<and> pi_Name (pc_peer (mg_objects m ! lp_client l)) = lp_peer l \<and>
     sec 1 \<le> lp_backoff l \<and> lp_backoff l \<le> sec 30"

text \<open>The store grows, and an object keeps its peer.\<close>

definition store_ext :: "Manager \<Rightarrow> Manager \<Rightarrow> bool" where
  "store_ext m m' \<longleftrightarrow>
     length (mg_objects m) \<le> length (mg_objects m') \<and>
     (\<forall>p < length (mg_objects m). pc_peer (mg_objects m' ! p) = pc_peer (mg_objects m ! p))"

lemma store_ext_refl [simp]: "store_ext m m"
  by (simp add: store_ext_def)

lemma store_ext_trans: "store_ext m m' \<Longrightarrow> store_ext m' m'' \<Longrightarrow> store_ext m m''"
  by (auto simp: store_ext_def)

lemma loop_ok_ext: "loop_ok m l \<Longrightarrow> store_ext m m' \<Longrightarrow> loop_ok m' l"
  by (auto simp: loop_ok_def store_ext_def)

lemma pc_peer_keeps [simp]:
  "pc_peer (Disconnect c) = pc_peer c" "pc_peer (fst (Connect env ok c)) = pc_peer c"
  "pc_peer (fst (StartSyncStream a b r v c)) = pc_peer c" "pc_peer (fst (receiveLoop d r c)) = pc_peer c"
  "pc_peer (fst (pc_Ping t u w ok c)) = pc_peer c" "pc_peer (pc_OnMessage f c) = pc_peer c"
  "pc_peer (pc_OnDisconnect f c) = pc_peer c" "pc_peer (NewPeerClient peer cfg) = peer"
  by (auto simp: Disconnect_def Connect_def StartSyncStream_def receiveLoop_def pc_Ping_def pc_OnMessage_def
      pc_OnDisconnect_def NewPeerClient_def setConnected_def setHealthy_def Let_def
      split: option.split sum.split SyncMessage.split)

lemma store_ext_update:
  "(\<And>c. pc_peer (f c) = pc_peer c) \<Longrightarrow> mg_objects m' = (mg_objects m)[p := f (mg_objects m ! p)] \<Longrightarrow> store_ext m m'"
  unfolding store_ext_def by (metis length_list_update nth_list_update_eq nth_list_update_neq order_refl)

text \<open>What an operation leaves alone besides the clients, the store and the goroutines.\<close>

definition same_rest :: "Manager \<Rightarrow> Manager \<Rightarrow> bool" where
  "same_rest m m' \<longleftrightarrow>
     mg_config m' = mg_config m \<and> mg_server m' = mg_server m \<and> mg_started m' = mg_started m \<and>
     mg_cancelled m' = mg_cancelled m \<and> mg_splitBrain m' = mg_splitBrain m"

lemma same_rest_trans: "same_rest m m' \<Longrightarrow> same_rest m' m'' \<Longrightarrow> same_rest m m''"
  by (simp add: same_rest_def)

lemma disconnectClient_facts:
  "store_ext m (disconnectClient p m)" "same_rest m (disconnectClient p m)"
  "mg_clients (disconnectClient p m) = mg_clients m" "mg_loops (disconnectClient p m) = mg_loops m"
  "length (mg_objects (disconnectClient p m)) = length (mg_objects m)"
  by (auto simp: disconnectClient_def same_rest_def intro: store_ext_update [of Disconnect])

lemma removeClient_facts:
  "map_of (mg_clients (removeClient n m)) = (map_of (mg_clients m))(n := None)"
  "gm_ok (mg_clients m) \<Longrightarrow> gm_ok (mg_clients (removeClient n m))"
  "store_ext m (removeClient n m)" "same_rest m (removeClient n m)" "mg_loops (removeClient n m) = mg_loops m"
  "length (mg_objects (removeClient n m)) = length (mg_objects m)"
  using disconnectClient_facts [where m = m]
  by (auto simp: removeClient_def delete_conv' store_ext_def same_rest_def split: option.splits)

definition adds :: "string \<Rightarrow> PeerInfo \<Rightarrow> Manager \<Rightarrow> Manager \<Rightarrow> bool" where
  "adds n peer m m' \<longleftrightarrow>
     map_of (mg_clients m') = (map_of (mg_clients m))(n \<mapsto> length (mg_objects m)) \<and>
     (gm_ok (mg_clients m) \<longrightarrow> gm_ok (mg_clients m')) \<and> store_ext m m' \<and> same_rest m m' \<and>
     length (mg_objects m') = length (mg_objects m) + 1 \<and> pc_peer (mg_objects m' ! length (mg_objects m)) = peer \<and>
     mg_loops m' = mg_loops m @
       [\<lparr>lp_peer = n, lp_client = length (mg_objects m), lp_backoff = sec 1, lp_phase = AtConnect\<rparr>]"

lemma adds_addClient: "adds n peer m (addClient n peer cfg m)"
  by (auto simp: adds_def addClient_def Let_def update_conv' store_ext_def same_rest_def nth_append)

lemma adds_replace: "adds n peer m (addClient n peer cfg (removeClient n m))"
proof -
  note r = removeClient_facts [where n = n and m = m]
  from adds_addClient [of n peer "removeClient n m" cfg] show ?thesis
    using r store_ext_trans [OF r(3)] same_rest_trans [OF r(4)] unfolding adds_def r(1,5,6) by simp
qed

text \<open>A loop that removes clients and a loop that adds them.\<close>

lemma fold_remove:
  assumes "m' = fold (\<lambda>(n, _) m. if P n then removeClient n m else m) es m"
  shows "map_of (mg_clients m') n = (if n \<in> fst ` set es \<and> P n then None else map_of (mg_clients m) n)"
    and "gm_ok (mg_clients m) \<Longrightarrow> gm_ok (mg_clients m')" and "store_ext m m'" and "same_rest m m'"
    and "mg_loops m' = mg_loops m"
proof -
  have "(\<forall>n. map_of (mg_clients m') n = (if n \<in> fst ` set es \<and> P n then None else map_of (mg_clients m) n)) \<and>
    (gm_ok (mg_clients m) \<longrightarrow> gm_ok (mg_clients m')) \<and> store_ext m m' \<and> same_rest m m' \<and> mg_loops m' = mg_loops m"
    using assms
  proof (induction es arbitrary: m)
    case (Cons e es)
    obtain k v where e: "e = (k, v)" by (cases e)
    note r = removeClient_facts [where n = k and m = m]
    show ?case
      using Cons.IH [of "if P k then removeClient k m else m"] Cons.prems r store_ext_trans [OF r(3)] same_rest_trans [OF r(4)]
      by (cases "P k") (auto simp: e)
  qed (simp add: same_rest_def)
  then show "map_of (mg_clients m') n = (if n \<in> fst ` set es \<and> P n then None else map_of (mg_clients m) n)"
    and "gm_ok (mg_clients m) \<Longrightarrow> gm_ok (mg_clients m')" and "store_ext m m'" and "same_rest m m'"
    and "mg_loops m' = mg_loops m" by blast+
qed

definition has_client :: "string \<Rightarrow> PeerInfo \<Rightarrow> Manager \<Rightarrow> bool" where
  "has_client n peer m \<longleftrightarrow>
     (\<exists>ptr. map_of (mg_clients m) n = Some ptr \<and> ptr < length (mg_objects m) \<and> pc_peer (mg_objects m ! ptr) = peer \<and>
        (\<exists>l \<in> set (mg_loops m). lp_peer l = n \<and> lp_client l = ptr))"

lemma has_client_keep:
  "has_client n peer m \<Longrightarrow> map_of (mg_clients m') n = map_of (mg_clients m) n \<Longrightarrow> store_ext m m' \<Longrightarrow>
   set (mg_loops m) \<subseteq> set (mg_loops m') \<Longrightarrow> has_client n peer m'"
  unfolding has_client_def store_ext_def by (metis subsetD order_less_le_trans)

lemma has_client_adds: "adds n peer m m' \<Longrightarrow> has_client n peer m'"
  by (auto simp: adds_def has_client_def)

lemma adds_loops:
  "adds n peer m m' \<Longrightarrow> pi_Name peer = n \<Longrightarrow> \<forall>l \<in> set (mg_loops m). loop_ok m l \<Longrightarrow> \<forall>l \<in> set (mg_loops m'). loop_ok m' l"
  by (auto simp: adds_def sec_def loop_ok_def store_ext_def)

text \<open>What a loop over new peers achieves that adds a client for those that satisfy \<open>Q\<close>.\<close>

definition added :: "(string \<Rightarrow> PeerInfo \<Rightarrow> bool) \<Rightarrow> (string, PeerInfo) gomap \<Rightarrow> Manager \<Rightarrow> Manager \<Rightarrow> bool" where
  "added Q es m m' \<longleftrightarrow>
     (\<forall>n peer. map_of es n = Some peer \<and> Q n peer \<longrightarrow> has_client n peer m') \<and>
     (\<forall>n. (\<forall>peer. map_of es n = Some peer \<longrightarrow> \<not> Q n peer) \<longrightarrow> map_of (mg_clients m') n = map_of (mg_clients m) n) \<and>
     (gm_ok (mg_clients m) \<longrightarrow> gm_ok (mg_clients m')) \<and> store_ext m m' \<and> same_rest m m' \<and>
     set (mg_loops m) \<subseteq> set (mg_loops m') \<and>
     ((\<forall>l \<in> set (mg_loops m). loop_ok m l) \<longrightarrow> (\<forall>l \<in> set (mg_loops m'). loop_ok m' l))"

lemma fold_add:
  assumes "distinct (map fst es)" and "\<forall>(n, peer) \<in> set es. pi_Name peer = n"
    and "\<And>n peer m. adds n peer m (F n peer m)"
  shows "added Q es m (fold (\<lambda>(n, peer) m. if Q n peer then F n peer m else m) es m)"
  using assms(1,2)
proof (induction es arbitrary: m)
  case (Cons e es)
  obtain k peer where e: "e = (k, peer)" by (cases e)
  have new: "map_of es k = None" and name: "pi_Name peer = k"
    using Cons.prems by (auto simp: e map_of_eq_None_iff)
  let ?m1 = "if Q k peer then F k peer m else m"
  let ?m2 = "fold (\<lambda>(n, peer) m. if Q n peer then F n peer m else m) es ?m1"
  have ih: "added Q es ?m1 ?m2" using Cons.IH [of ?m1] Cons.prems by simp
  have goal: "added Q (e # es) m ?m2"
  proof (cases "Q k peer")
    case False
    have "map_of es n = Some p" if "map_of (e # es) n = Some p" "Q n p" for n p
      using that False by (auto simp: e split: if_splits)
    moreover have "\<not> Q n p" if "\<forall>p. map_of (e # es) n = Some p \<longrightarrow> \<not> Q n p" "map_of es n = Some p" for n p
      using that new by (cases "n = k") (auto simp: e)
    moreover have "added Q es m ?m2" using ih False by simp
    ultimately show ?thesis unfolding added_def by blast
  next
    case True
    note a = assms(3) [of k peer m]
    have h: "has_client k peer ?m2"
      using has_client_keep [OF has_client_adds [OF a], of ?m2] ih new True by (simp add: added_def)
    have "store_ext m ?m1" "same_rest m ?m1" "store_ext ?m1 ?m2" "same_rest ?m1 ?m2"
      using a ih True unfolding adds_def added_def by simp_all
    then have ext: "store_ext m ?m2" "same_rest m ?m2"
      by (blast intro: store_ext_trans same_rest_trans)+
    have other: "map_of (mg_clients ?m2) n = map_of (mg_clients m) n"
      if "\<forall>p. map_of (e # es) n = Some p \<longrightarrow> \<not> Q n p" for n
    proof -
      have "n \<noteq> k" using that True by (auto simp: e)
      then show ?thesis using ih a True that by (simp add: added_def adds_def e)
    qed
    have rest: "gm_ok (mg_clients m) \<longrightarrow> gm_ok (mg_clients ?m2)" "set (mg_loops m) \<subseteq> set (mg_loops ?m2)"
      "(\<forall>l \<in> set (mg_loops m). loop_ok m l) \<longrightarrow> (\<forall>l \<in> set (mg_loops ?m2). loop_ok ?m2 l)"
      using ih a True adds_loops [OF a name] by (auto simp: added_def adds_def)
    have hs: "has_client n p ?m2" if "map_of (e # es) n = Some p" "Q n p" for n p
      using that h ih by (cases "n = k") (auto simp: added_def e)
    show ?thesis unfolding added_def using hs other ext rest by blast
  qed
  then show ?case by (simp add: e)
qed (auto simp: added_def same_rest_def)

subsection \<open>Reconfiguration\<close>

definition config_ok :: "Config \<Rightarrow> bool" where
  "config_ok cfg \<longleftrightarrow>
     cf_LocalMember cfg \<noteq> None \<and> distinct (map pi_Name (cf_Peers cfg)) \<and> (\<forall>p \<in> set (cf_Peers cfg). labels_ok (pi_Labels p))"

text \<open>One client per peer of the configuration, with the peer's settings and a goroutine of its own.\<close>

definition clients_match :: "Config \<Rightarrow> Manager \<Rightarrow> bool" where
  "clients_match cfg m \<longleftrightarrow>
     gm_ok (mg_clients m) \<and> dom (map_of (mg_clients m)) = pi_Name ` set (cf_Peers cfg) \<and>
     (\<forall>p \<in> set (cf_Peers cfg). \<exists>q. has_client (pi_Name p) q m \<and> peer_view q = peer_view p \<and> labels_ok (pi_Labels q))"

definition mgr_inv :: "Manager \<Rightarrow> bool" where
  "mgr_inv m \<longleftrightarrow>
     config_ok (mg_config m) \<and> (\<forall>l \<in> set (mg_loops m). loop_ok m l) \<and>
     (if mg_started m then \<not> mg_cancelled m \<and> mg_server m \<noteq> None \<and> clients_match (mg_config m) m else mg_clients m = [])"

lemma peer_map_ok: "gm_ok (peer_map ps)"
proof -
  have "gm_ok (fold (\<lambda>p. gm_put (pi_Name p) p) ps m)" if "gm_ok m" for m
    using that by (induction ps arbitrary: m) simp_all
  then show ?thesis by (simp add: peer_map_def)
qed

lemma peer_map_names:
  assumes "distinct (map pi_Name ps)"
  shows "\<forall>(n, p) \<in> set (peer_map ps). pi_Name p = n" and "map_of (peer_map ps) n = None \<longleftrightarrow> n \<notin> pi_Name ` set ps"
    and "n \<in> fst ` set (peer_map ps) \<longleftrightarrow> n \<in> pi_Name ` set ps"
proof -
  show "\<forall>(n, p) \<in> set (peer_map ps). pi_Name p = n"
    using gm_mem_iff [OF peer_map_ok] peer_map_Some_iff [OF assms] by fastforce
  show none: "map_of (peer_map ps) n = None \<longleftrightarrow> n \<notin> pi_Name ` set ps"
    using peer_map_Some_iff [OF assms, of n] by (cases "map_of (peer_map ps) n") force+
  then show "n \<in> fst ` set (peer_map ps) \<longleftrightarrow> n \<in> pi_Name ` set ps" by (simp add: map_of_eq_None_iff)
qed

text \<open>
  The three loops of \<open>UpdateConfig\<close> as relations: clients of peers that are gone are removed, then
  clients of new peers are added, then clients of changed peers are replaced.
\<close>

definition changed_peer :: "Config \<Rightarrow> string \<Rightarrow> PeerInfo \<Rightarrow> bool" where
  "changed_peer old n p =
     (case map_of (peer_map (cf_Peers old)) n of None \<Rightarrow> False | Some o' \<Rightarrow> \<not> peerInfoEqual (Some o') (Some p))"

definition reconfigured :: "Config \<Rightarrow> Config \<Rightarrow> Manager \<Rightarrow> Manager \<Rightarrow> Manager \<Rightarrow> Manager \<Rightarrow> bool" where
  "reconfigured old new m m1 m2 m3 \<longleftrightarrow>
     m1 = fold (\<lambda>(n, _) m. if map_of (peer_map (cf_Peers new)) n = None then removeClient n m else m)
            (peer_map (cf_Peers old)) m \<and>
     added (\<lambda>n _. map_of (peer_map (cf_Peers old)) n = None) (peer_map (cf_Peers new)) m1 m2 \<and>
     added (changed_peer old) (peer_map (cf_Peers new)) m2 m3"

lemma UpdateConfig_reconfigured:
  assumes "mg_started m" and "\<not> config_Equal False (Some (mg_config m)) (Some new)" and "config_ok new"
  shows "\<exists>m1 m2 m3. reconfigured (mg_config m) new m m1 m2 m3 \<and>
    UpdateConfig new m = (m3\<lparr>mg_server := map_option (\<lambda>s. s\<lparr>sv_config := new\<rparr>) (mg_server m3), mg_config := new\<rparr>, None)"
proof -
  let ?O = "peer_map (cf_Peers (mg_config m))" and ?N = "peer_map (cf_Peers new)"
  define m1 where "m1 = fold (\<lambda>(n, _) m. if map_of ?N n = None then removeClient n m else m) ?O m"
  define m2 where "m2 = fold (\<lambda>(n, p) m. if map_of ?O n = None then addClient n p new m else m) ?N m1"
  define m3 where "m3 = fold (\<lambda>(n, p) m. if changed_peer (mg_config m1) n p
    then addClient n p new (removeClient n m) else m) ?N m2"
  have "distinct (map pi_Name (cf_Peers new))" using assms(3) by (simp add: config_ok_def)
  note names = peer_map_names(1) [OF this]
  have "distinct (map fst ?N)" using peer_map_ok [of "cf_Peers new"] by (simp add: gm_ok_def)
  note N = this names
  have cfg: "mg_config m1 = mg_config m" using fold_remove(4) [OF m1_def] by (simp add: same_rest_def)
  have "(\<lambda>(n, p) m. case map_of ?O n of None \<Rightarrow> m | Some o' \<Rightarrow> if \<not> peerInfoEqual (Some o') (Some p)
        then addClient n p new (removeClient n m) else m) =
      (\<lambda>(n, p) m. if changed_peer (mg_config m1) n p then addClient n p new (removeClient n m) else m)"
    by (auto simp: fun_eq_iff changed_peer_def cfg split: option.split)
  then have "UpdateConfig new m =
      (m3\<lparr>mg_server := map_option (\<lambda>s. s\<lparr>sv_config := new\<rparr>) (mg_server m3), mg_config := new\<rparr>, None)"
    using assms(1,2) by (simp add: UpdateConfig_def Let_def m1_def m2_def m3_def)
  moreover have "reconfigured (mg_config m) new m m1 m2 m3"
    unfolding reconfigured_def m2_def m3_def cfg
    using fold_add [OF N adds_addClient] fold_add [OF N adds_replace] by (simp add: m1_def)
  ultimately show ?thesis by blast
qed

lemma addedD:
  assumes "added Q es m m'"
  shows "store_ext m m'" and "same_rest m m'" and "set (mg_loops m) \<subseteq> set (mg_loops m')"
    and "gm_ok (mg_clients m) \<Longrightarrow> gm_ok (mg_clients m')"
    and "\<forall>l \<in> set (mg_loops m). loop_ok m l \<Longrightarrow> \<forall>l \<in> set (mg_loops m'). loop_ok m' l"
    and "\<forall>peer. map_of es n = Some peer \<longrightarrow> \<not> Q n peer \<Longrightarrow> map_of (mg_clients m') n = map_of (mg_clients m) n"
    and "map_of es n = Some peer \<Longrightarrow> Q n peer \<Longrightarrow> has_client n peer m'"
  using assms unfolding added_def by blast+

lemma reconfigured_rest:
  assumes "reconfigured old new m m1 m2 m3"
  shows "store_ext m m3" and "same_rest m m3" and "set (mg_loops m) \<subseteq> set (mg_loops m3)"
    and "gm_ok (mg_clients m) \<Longrightarrow> gm_ok (mg_clients m3)"
    and "\<forall>l \<in> set (mg_loops m). loop_ok m l \<Longrightarrow> \<forall>l \<in> set (mg_loops m3). loop_ok m3 l"
proof -
  from assms have m1: "m1 = fold (\<lambda>(n, _) m. if map_of (peer_map (cf_Peers new)) n = None then removeClient n m else m)
      (peer_map (cf_Peers old)) m"
    and a2: "added (\<lambda>n _. map_of (peer_map (cf_Peers old)) n = None) (peer_map (cf_Peers new)) m1 m2"
    and a3: "added (changed_peer old) (peer_map (cf_Peers new)) m2 m3" unfolding reconfigured_def by blast+
  note r = fold_remove [OF m1]
  show "store_ext m m3" using store_ext_trans [OF r(3) store_ext_trans [OF addedD(1) [OF a2] addedD(1) [OF a3]]] .
  show "same_rest m m3" using same_rest_trans [OF r(4) same_rest_trans [OF addedD(2) [OF a2] addedD(2) [OF a3]]] .
  show "set (mg_loops m) \<subseteq> set (mg_loops m3)" using addedD(3) [OF a2] addedD(3) [OF a3] unfolding r(5) by (rule order_trans)
  show "gm_ok (mg_clients m) \<Longrightarrow> gm_ok (mg_clients m3)" by (intro addedD(4) [OF a3] addedD(4) [OF a2] r(2))
  show "\<forall>l \<in> set (mg_loops m). loop_ok m l \<Longrightarrow> \<forall>l \<in> set (mg_loops m3). loop_ok m3 l"
    using loop_ok_ext [OF _ r(3)] by (intro addedD(5) [OF a3] addedD(5) [OF a2]) (simp add: r(5))
qed

lemma reconfigured_clients:
  assumes "reconfigured old new m m1 m2 m3" and "config_ok old" and "config_ok new"
    and "dom (map_of (mg_clients m)) = pi_Name ` set (cf_Peers old)"
  shows "n \<notin> pi_Name ` set (cf_Peers new) \<Longrightarrow> map_of (mg_clients m3) n = None"
    and "p \<in> set (cf_Peers new) \<Longrightarrow> pi_Name p \<notin> pi_Name ` set (cf_Peers old) \<Longrightarrow> has_client (pi_Name p) p m3"
    and "o' \<in> set (cf_Peers old) \<Longrightarrow> p \<in> set (cf_Peers new) \<Longrightarrow> pi_Name o' = pi_Name p \<Longrightarrow>
      \<not> peerInfoEqual (Some o') (Some p) \<Longrightarrow> has_client (pi_Name p) p m3"
    and "o' \<in> set (cf_Peers old) \<Longrightarrow> p \<in> set (cf_Peers new) \<Longrightarrow> pi_Name o' = pi_Name p \<Longrightarrow>
      peerInfoEqual (Some o') (Some p) \<Longrightarrow> map_of (mg_clients m3) (pi_Name p) = map_of (mg_clients m) (pi_Name p)"
proof -
  let ?O = "peer_map (cf_Peers old)" and ?N = "peer_map (cf_Peers new)"
  from assms(1) have m1: "m1 = fold (\<lambda>(n, _) m. if map_of ?N n = None then removeClient n m else m) ?O m"
    and a2: "added (\<lambda>n _. map_of ?O n = None) ?N m1 m2"
    and a3: "added (changed_peer old) ?N m2 m3" unfolding reconfigured_def by blast+
  have d: "distinct (map pi_Name (cf_Peers old))" "distinct (map pi_Name (cf_Peers new))"
    using assms(2,3) by (simp_all add: config_ok_def)
  note O = peer_map_names(2,3) [OF d(1)] peer_map_Some_iff [OF d(1)]
    and N = peer_map_names(2,3) [OF d(2)] peer_map_Some_iff [OF d(2)] and r = fold_remove(1) [OF m1]
  show "map_of (mg_clients m3) n = None" if n: "n \<notin> pi_Name ` set (cf_Peers new)"
  proof -
    have Nn: "map_of ?N n = None" using n N(1) by simp
    have "map_of (mg_clients m1) n = None"
    proof (cases "n \<in> pi_Name ` set (cf_Peers old)")
      case False
      then have "n \<notin> dom (map_of (mg_clients m))" by (simp add: assms(4))
      then show ?thesis using r [of n] by (simp add: domIff)
    qed (use r [of n] Nn O(2) in simp)
    then show ?thesis using addedD(6) [OF a3, of n] addedD(6) [OF a2, of n] Nn by simp
  qed
  show "has_client (pi_Name p) p m3" if p: "p \<in> set (cf_Peers new)" "pi_Name p \<notin> pi_Name ` set (cf_Peers old)"
  proof (rule has_client_keep [of _ _ m2])
    have none: "map_of ?O (pi_Name p) = None" using p(2) O(1) by simp
    then show "has_client (pi_Name p) p m2" using addedD(7) [OF a2] N(3) p(1) by blast
    show "map_of (mg_clients m3) (pi_Name p) = map_of (mg_clients m2) (pi_Name p)"
      using addedD(6) [OF a3] none by (simp add: changed_peer_def)
  qed (rule addedD [OF a3])+
  assume o': "o' \<in> set (cf_Peers old)" "p \<in> set (cf_Peers new)" "pi_Name o' = pi_Name p"
  have Op: "map_of ?O (pi_Name p) = Some o'" and Np: "map_of ?N (pi_Name p) = Some p" using o' O(3) N(3) by auto
  show "has_client (pi_Name p) p m3" if "\<not> peerInfoEqual (Some o') (Some p)"
    using addedD(7) [OF a3 Np] Op that by (simp add: changed_peer_def)
  show "map_of (mg_clients m3) (pi_Name p) = map_of (mg_clients m) (pi_Name p)" if "peerInfoEqual (Some o') (Some p)"
    using addedD(6) [OF a3, of "pi_Name p"] addedD(6) [OF a2, of "pi_Name p"] r [of "pi_Name p"] Op Np that
    by (simp add: changed_peer_def)
qed


lemma reconfigured_match:
  assumes "reconfigured old new m m1 m2 m3" and "config_ok old" and "config_ok new" and "clients_match old m"
  shows "clients_match new m3"
proof -
  have dom: "dom (map_of (mg_clients m)) = pi_Name ` set (cf_Peers old)" using assms(4) by (simp add: clients_match_def)
  note c = reconfigured_clients [OF assms(1-3) dom] and r = reconfigured_rest [OF assms(1)]
  have has: "\<exists>q. has_client (pi_Name p) q m3 \<and> peer_view q = peer_view p \<and> labels_ok (pi_Labels q)"
    if p: "p \<in> set (cf_Peers new)" for p
  proof (cases "has_client (pi_Name p) p m3")
    case True
    then show ?thesis using p assms(3) by (auto simp: config_ok_def)
  next
    case False
    then have "pi_Name p \<in> pi_Name ` set (cf_Peers old)" using c(2) [OF p] by blast
    then obtain o' where o': "o' \<in> set (cf_Peers old)" "pi_Name o' = pi_Name p" by (metis imageE)
    have eq: "peerInfoEqual (Some o') (Some p)" using c(3) [OF o'(1) p o'(2)] False by blast
    have "labels_ok (pi_Labels o')" "labels_ok (pi_Labels p)" using assms(2,3) o'(1) p by (simp_all add: config_ok_def)
    then have "peer_view o' = peer_view p" using eq peerInfoEqual_iff by blast
    moreover obtain q where q: "has_client (pi_Name o') q m" "peer_view q = peer_view o'" "labels_ok (pi_Labels q)"
      using assms(4) o'(1) unfolding clients_match_def by blast
    moreover have "has_client (pi_Name p) q m3"
      using has_client_keep [of "pi_Name p" q m m3] q(1) o'(2) c(4) [OF o'(1) p o'(2) eq] r(1,3) by simp
    ultimately show ?thesis by metis
  qed
  have "dom (map_of (mg_clients m3)) = pi_Name ` set (cf_Peers new)"
  proof (intro equalityI subsetI)
    show "n \<in> pi_Name ` set (cf_Peers new)" if "n \<in> dom (map_of (mg_clients m3))" for n
      using that c(1) [of n] by (cases "n \<in> pi_Name ` set (cf_Peers new)") (simp_all add: domIff)
    show "n \<in> dom (map_of (mg_clients m3))" if n: "n \<in> pi_Name ` set (cf_Peers new)" for n
    proof -
      obtain p where "p \<in> set (cf_Peers new)" "n = pi_Name p" using n by auto
      then obtain q where "has_client n q m3" using has by blast
      then show ?thesis by (auto simp: has_client_def)
    qed
  qed
  moreover have "gm_ok (mg_clients m3)" using r(4) assms(4) unfolding clients_match_def by blast
  ultimately show ?thesis using has unfolding clients_match_def by blast
qed

lemma same_views_match:
  assumes "clients_match old m" and "peer_view ` set (cf_Peers old) = peer_view ` set (cf_Peers new)"
  shows "clients_match new m"
proof -
  have view: "\<exists>o' \<in> set (cf_Peers old). peer_view o' = peer_view p" if "p \<in> set (cf_Peers new)" for p
    using that assms(2) by (metis imageE imageI)
  have "pi_Name ` set (cf_Peers old) = pi_Name ` set (cf_Peers new)"
    using arg_cong [OF assms(2), of "image (\<lambda>v. hd (fst v))"] by (simp add: image_image peer_view_def)
  moreover have "\<exists>q. has_client (pi_Name p) q m \<and> peer_view q = peer_view p \<and> labels_ok (pi_Labels q)"
    if p: "p \<in> set (cf_Peers new)" for p
  proof -
    obtain o' where o': "o' \<in> set (cf_Peers old)" "peer_view o' = peer_view p" using view [OF p] by blast
    obtain q where "has_client (pi_Name o') q m" "peer_view q = peer_view o'" "labels_ok (pi_Labels q)"
      using assms(1) o'(1) unfolding clients_match_def by blast
    then show ?thesis using o'(2) unfolding peer_view_Name [OF o'(2)] by auto
  qed
  ultimately show ?thesis using assms(1) by (simp add: clients_match_def)
qed

lemma UpdateConfig_facts:
  assumes "mgr_inv m" and "mg_started m" and "config_ok new"
  shows "snd (UpdateConfig new m) = None" and "clients_match new (fst (UpdateConfig new m))"
    and "p \<in> set (cf_Peers (mg_config m)) \<Longrightarrow> q \<in> set (cf_Peers new) \<Longrightarrow> peer_view p = peer_view q \<Longrightarrow>
      map_of (mg_clients (fst (UpdateConfig new m))) (pi_Name q) = map_of (mg_clients m) (pi_Name q)"
    and "mgr_inv (fst (UpdateConfig new m))" and "set (mg_loops m) \<subseteq> set (mg_loops (fst (UpdateConfig new m)))"
    and "store_ext m (fst (UpdateConfig new m))" and "mg_started (fst (UpdateConfig new m))"
proof -
  let ?old = "mg_config m" and ?m' = "fst (UpdateConfig new m)"
  have inv: "clients_match ?old m" "config_ok ?old" "\<forall>l \<in> set (mg_loops m). loop_ok m l" "\<not> mg_cancelled m" "mg_server m \<noteq> None"
    using assms(1,2) by (simp_all add: mgr_inv_def)
  have "snd (UpdateConfig new m) = None \<and> clients_match new ?m' \<and>
    (\<forall>p \<in> set (cf_Peers ?old). \<forall>q \<in> set (cf_Peers new). peer_view p = peer_view q \<longrightarrow>
       map_of (mg_clients ?m') (pi_Name q) = map_of (mg_clients m) (pi_Name q)) \<and> mgr_inv ?m' \<and>
    set (mg_loops m) \<subseteq> set (mg_loops ?m') \<and> store_ext m ?m' \<and> mg_started ?m'"
  proof (cases "config_Equal False (Some ?old) (Some new)")
    case True
    then have "peersEqual (cf_Peers ?old) (cf_Peers new)" by (simp add: config_Equal_def)
    then have "peer_view ` set (cf_Peers ?old) = peer_view ` set (cf_Peers new)"
      using peersEqual_same_peers [of "cf_Peers ?old" "cf_Peers new"] inv(2) assms(3) by (auto simp: config_ok_def)
    from same_views_match [OF inv(1) this] True assms(1,2) show ?thesis by (simp add: UpdateConfig_def Let_def)
  next
    case False
    from UpdateConfig_reconfigured [OF assms(2) False assms(3)] obtain m1 m2 m3 where
      rec: "reconfigured ?old new m m1 m2 m3" and
      upd: "UpdateConfig new m = (m3\<lparr>mg_server := map_option (\<lambda>s. s\<lparr>sv_config := new\<rparr>) (mg_server m3), mg_config := new\<rparr>, None)"
      by blast
    note r = reconfigured_rest [OF rec]
    have match: "clients_match new m3" by (rule reconfigured_match [OF rec inv(2) assms(3) inv(1)])
    have dom: "dom (map_of (mg_clients m)) = pi_Name ` set (cf_Peers ?old)" using inv(1) by (simp add: clients_match_def)
    note keep = reconfigured_clients(4) [OF rec inv(2) assms(3) dom]
    have same: "map_of (mg_clients m3) (pi_Name q) = map_of (mg_clients m) (pi_Name q)"
      if "p \<in> set (cf_Peers ?old)" "q \<in> set (cf_Peers new)" "peer_view p = peer_view q" for p q
      using keep [OF that(1,2) peer_view_Name [OF that(3)]] peerInfoEqual_iff [of p q] that inv(2) assms(3)
      by (auto simp: config_ok_def)
    have match': "clients_match new ?m'" using match by (simp add: upd clients_match_def has_client_def)
    have same': "mg_started m3" "\<not> mg_cancelled m3" "mg_server m3 \<noteq> None"
      using r(2) assms(2) inv(4,5) by (simp_all add: same_rest_def)
    have "loop_ok ?m' = loop_ok m3" by (simp add: fun_eq_iff upd loop_ok_def)
    then have "mgr_inv ?m'" using match' r(5) [OF inv(3)] same' assms(3) by (simp add: upd mgr_inv_def)
    then show ?thesis using match' same r(1,3) same'(1) by (auto simp: upd store_ext_def)
  qed
  then show "snd (UpdateConfig new m) = None" "clients_match new ?m'" "mgr_inv ?m'"
    "set (mg_loops m) \<subseteq> set (mg_loops ?m')" "store_ext m ?m'" "mg_started ?m'"
    "p \<in> set (cf_Peers ?old) \<Longrightarrow> q \<in> set (cf_Peers new) \<Longrightarrow> peer_view p = peer_view q \<Longrightarrow>
      map_of (mg_clients ?m') (pi_Name q) = map_of (mg_clients m) (pi_Name q)" by blast+
qed

end
