(* ===== verification/Mgr_Runs.thy ===== *)
theory Mgr_Runs
  imports Mgr_Reconfig
begin

section \<open>Runs of the federation manager\<close>

text \<open>
  The operations of the manager as events, the invariant every run keeps, and what follows for
  connections, for the direction of synchronisation and for write fencing.
\<close>

subsection \<open>Every operation keeps the manager well formed\<close>

datatype mgr_event =
    MgStart
  | MgStop
  | MgUpdate Config
  | MgConnect bool bool bool "SyncMessage option" nat nat
  | MgEnded nat
  | MgMessage gotime string SyncMessage
  | MgHealth "nat \<Rightarrow> gotime \<times> gotime \<times> gotime \<times> bool"
  | MgFullSync gotime "FullSyncRequest \<Rightarrow> (nat \<Rightarrow> stream_item) option" string
  | MgRecord gotime gotime string ResourceKey ChangeType bytes labels
  | MgResolve string bool
  | MgOnChange nat
  | MgAgentCount int

definition mgr_step :: "fed_env \<Rightarrow> tls_env \<Rightarrow> Manager \<Rightarrow> mgr_event \<Rightarrow> Manager" where
  "mgr_step env tls m e =
     (case e of
        MgStart \<Rightarrow> fst (mg_Start m)
      | MgStop \<Rightarrow> mg_Stop m
      | MgUpdate cfg \<Rightarrow> fst (UpdateConfig cfg m)
      | MgConnect dialOk openOk sendOk recv cb i \<Rightarrow> maintainPeerConnection tls dialOk openOk sendOk recv cb i m
      | MgEnded i \<Rightarrow> connectionEnded i m
      | MgMessage now p msg \<Rightarrow> fst (handlePeerMessage env now p msg m)
      | MgHealth ping \<Rightarrow> checkPeerHealth ping m
      | MgFullSync now call p \<Rightarrow> (case mg_RequestFullSync env now call p m of None \<Rightarrow> m | Some (m', _) \<Rightarrow> m')
      | MgRecord t1 t2 u key ct d l \<Rightarrow> RecordChange t1 t2 u key ct d l m
      | MgResolve key useLocal \<Rightarrow> fst (mg_ResolveConflict key useLocal m)
      | MgOnChange cb \<Rightarrow> OnResourceChange cb m
      | MgAgentCount n \<Rightarrow> mg_SetAgentCount n m)"

text \<open>A new configuration names its local member and repeats no peer name, as an admitted specification guarantees.\<close>

definition mgr_good :: "Manager \<Rightarrow> mgr_event \<Rightarrow> bool" where
  "mgr_good m e = (case e of MgUpdate cfg \<Rightarrow> config_ok cfg | _ \<Rightarrow> True)"

text \<open>An operation that keeps the clients, the goroutines and the peers of the store keeps the invariant.\<close>

lemma has_client_loops:
  assumes "has_client n peer m" and "mg_clients m' = mg_clients m" and "store_ext m m'"
    and loops: "\<forall>l \<in> set (mg_loops m). \<exists>l' \<in> set (mg_loops m'). lp_peer l' = lp_peer l \<and> lp_client l' = lp_client l"
  shows "has_client n peer m'"
proof -
  obtain ptr l where "map_of (mg_clients m) n = Some ptr" "ptr < length (mg_objects m)" "pc_peer (mg_objects m ! ptr) = peer"
    and l: "l \<in> set (mg_loops m)" "lp_peer l = n" "lp_client l = ptr"
    using assms(1) by (auto simp: has_client_def)
  moreover obtain l' where "l' \<in> set (mg_loops m')" "lp_peer l' = n" "lp_client l' = ptr" using loops l by blast
  ultimately show ?thesis using assms(2,3) by (auto simp: has_client_def store_ext_def)
qed

lemma clients_match_keep:
  "clients_match cfg m \<Longrightarrow> mg_clients m' = mg_clients m \<Longrightarrow> store_ext m m' \<Longrightarrow>
   (\<forall>l \<in> set (mg_loops m). \<exists>l' \<in> set (mg_loops m'). lp_peer l' = lp_peer l \<and> lp_client l' = lp_client l) \<Longrightarrow>
   clients_match cfg m'"
  using has_client_loops unfolding clients_match_def by metis

lemma mgr_inv_keep:
  assumes "mgr_inv m" and "mg_clients m' = mg_clients m" and "store_ext m m'" and "mg_config m' = mg_config m"
    and "mg_started m' = mg_started m" and "mg_cancelled m' = mg_cancelled m"
    and "mg_server m' = None \<longleftrightarrow> mg_server m = None"
    and "\<forall>l \<in> set (mg_loops m'). loop_ok m' l"
    and "mg_started m \<Longrightarrow> \<forall>l \<in> set (mg_loops m). \<exists>l' \<in> set (mg_loops m'). lp_peer l' = lp_peer l \<and> lp_client l' = lp_client l"
  shows "mgr_inv m'"
  using assms clients_match_keep [of "mg_config m" m m'] by (auto simp: mgr_inv_def)

lemma mgr_inv_frame:
  assumes "mgr_inv m" and "mg_clients m' = mg_clients m" and "store_ext m m'" and "mg_config m' = mg_config m"
    and "mg_started m' = mg_started m" and "mg_cancelled m' = mg_cancelled m"
    and "mg_server m' = None \<longleftrightarrow> mg_server m = None" and "mg_loops m' = mg_loops m"
  shows "mgr_inv m'"
proof (rule mgr_inv_keep [OF assms(1-7)])
  show "\<forall>l \<in> set (mg_loops m'). loop_ok m' l"
    using assms(1,3,8) loop_ok_ext by (auto simp: mgr_inv_def)
qed (use assms(8) in auto)

lemma mgr_inv_server: "mgr_inv m \<Longrightarrow> mg_server m \<noteq> None \<Longrightarrow> mgr_inv (m\<lparr>mg_server := Some s\<rparr>)"
  by (rule mgr_inv_frame) (auto simp: store_ext_def)

lemma start_clients:
  assumes "mg_clients m = []" and "distinct (map pi_Name ps)" and "\<forall>l \<in> set (mg_loops m). loop_ok m l"
  shows "let m' = fold (\<lambda>p. addClient (pi_Name p) p cfg) ps m in
    added (\<lambda>_ _. True) (map (\<lambda>p. (pi_Name p, p)) ps) m m'"
proof -
  let ?es = "map (\<lambda>p. (pi_Name p, p)) ps"
  have "distinct (map fst ?es)" "\<forall>(n, p) \<in> set ?es. pi_Name p = n" using assms(2) by (auto simp: o_def)
  from fold_add [OF this adds_addClient, of "\<lambda>_ _. True"] show ?thesis
    by (simp add: fold_map o_def Let_def)
qed

lemma mgr_inv_Start:
  assumes "mgr_inv m"
  shows "mgr_inv (fst (mg_Start m))"
proof (cases "mg_started m")
  case False
  let ?cfg = "mg_config m" and ?ps = "cf_Peers (mg_config m)"
  have ok: "config_ok ?cfg" "mg_clients m = []" "\<forall>l \<in> set (mg_loops m). loop_ok m l"
    using assms False by (simp_all add: mgr_inv_def)
  obtain m4 where start: "mg_Start m = (fold (\<lambda>p. addClient (pi_Name p) p ?cfg) ?ps m4, None)"
    and m4: "mg_clients m4 = []" "mg_loops m4 = mg_loops m" "mg_objects m4 = mg_objects m" "mg_config m4 = ?cfg"
      "mg_started m4" "\<not> mg_cancelled m4" "mg_server m4 \<noteq> None"
    using False ok(1,2) by (auto simp: mg_Start_def Let_def config_ok_def split: option.splits)
  let ?m' = "fold (\<lambda>p. addClient (pi_Name p) p ?cfg) ?ps m4"
  have d: "distinct (map pi_Name ?ps)" and l4: "\<forall>l \<in> set (mg_loops m4). loop_ok m4 l"
    using ok m4 by (simp_all add: config_ok_def loop_ok_def)
  have add: "added (\<lambda>_ _. True) (map (\<lambda>p. (pi_Name p, p)) ?ps) m4 ?m'"
    using start_clients [OF m4(1) d l4, of ?cfg] by (simp add: Let_def)
  have mem: "map_of (map (\<lambda>p. (pi_Name p, p)) ?ps) n = Some p \<longleftrightarrow> p \<in> set ?ps \<and> pi_Name p = n" for n p
    using d by (auto simp: map_of_eq_Some_iff o_def)
  have has: "has_client (pi_Name p) p ?m'" if "p \<in> set ?ps" for p
    using addedD(7) [OF add] mem that by blast
  have none: "map_of (mg_clients ?m') n = None" if "n \<notin> pi_Name ` set ?ps" for n
  proof -
    have "map_of (map (\<lambda>p. (pi_Name p, p)) ?ps) n = None"
      using that by (auto simp: map_of_eq_None_iff)
    then show ?thesis using addedD(6) [OF add, of n] m4(1) by simp
  qed
  have dom: "dom (map_of (mg_clients ?m')) = pi_Name ` set ?ps"
  proof (intro equalityI subsetI)
    show "n \<in> pi_Name ` set ?ps" if "n \<in> dom (map_of (mg_clients ?m'))" for n
      using that none [of n] by (cases "n \<in> pi_Name ` set ?ps") (simp_all add: domIff)
    show "n \<in> dom (map_of (mg_clients ?m'))" if n: "n \<in> pi_Name ` set ?ps" for n
    proof -
      obtain p where "p \<in> set ?ps" "n = pi_Name p" using n by auto
      then show ?thesis using has [of p] by (auto simp: has_client_def)
    qed
  qed
  have "gm_ok (mg_clients ?m')" using addedD(4) [OF add] m4(1) by simp
  moreover have "\<exists>q. has_client (pi_Name p) q ?m' \<and> peer_view q = peer_view p \<and> labels_ok (pi_Labels q)"
    if "p \<in> set ?ps" for p using has that ok(1) unfolding config_ok_def by blast
  ultimately have "clients_match ?cfg ?m'" using dom unfolding clients_match_def by blast
  then show ?thesis
    using addedD(2) [OF add] addedD(5) [OF add l4] m4 ok(1) by (simp add: start mgr_inv_def same_rest_def)
qed (use assms in \<open>simp add: mg_Start_def\<close>)

text \<open>The other operations, one lemma each.\<close>

lemma fold_disconnect_facts:
  "let m' = fold (\<lambda>(_, ptr). disconnectClient ptr) cs m in
     store_ext m m' \<and> same_rest m m' \<and> mg_clients m' = mg_clients m \<and> mg_loops m' = mg_loops m"
proof (induction cs arbitrary: m)
  case (Cons c cs)
  obtain n ptr where c: "c = (n, ptr)" by (cases c)
  note d = disconnectClient_facts [where m = m and p = ptr]
  show ?case
    using Cons.IH [of "disconnectClient ptr m"] d(3,4) store_ext_trans [OF d(1)] same_rest_trans [OF d(2)]
    by (simp add: c Let_def)
qed (simp add: same_rest_def)

lemma mgr_inv_Stop: "mgr_inv m \<Longrightarrow> mgr_inv (mg_Stop m)"
proof (cases "mg_started m")
  case True
  assume inv: "mgr_inv m"
  define m2 where "m2 = m\<lparr>mg_started := False, mg_antiEntropy := map_option ae_Stop (mg_antiEntropy m), mg_cancelled := True\<rparr>"
  define m3 where "m3 = fold (\<lambda>(_, ptr). disconnectClient ptr) (mg_clients m2) m2"
  have stop: "mg_Stop m = m3\<lparr>mg_clients := []\<rparr>" using True by (simp add: mg_Stop_def Let_def m2_def m3_def)
  have f: "store_ext m2 m3" "same_rest m2 m3" "mg_loops m3 = mg_loops m2"
    using fold_disconnect_facts [of "mg_clients m2" m2] by (simp_all add: m3_def Let_def)
  have "\<forall>l \<in> set (mg_loops m2). loop_ok m2 l" using inv by (simp add: m2_def mgr_inv_def loop_ok_def)
  then have "\<forall>l \<in> set (mg_loops m3). loop_ok m3 l" using loop_ok_ext [OF _ f(1)] f(3) by simp
  then show ?thesis using inv f(2) by (simp add: stop mgr_inv_def same_rest_def loop_ok_def m2_def)
qed (simp add: mg_Stop_def)

lemma mgr_inv_Update: "mgr_inv m \<Longrightarrow> config_ok cfg \<Longrightarrow> mgr_inv (fst (UpdateConfig cfg m))"
  using UpdateConfig_facts(4) by (cases "mg_started m") (auto simp: UpdateConfig_def)

text \<open>A pass of a goroutine replaces its record, keeping the peer and the client, and one object, keeping its peer.\<close>

lemma mgr_inv_loop_step:
  assumes "mgr_inv m" and "i < length (mg_loops m)" and "lp_peer l = lp_peer (mg_loops m ! i)"
    and "lp_client l = lp_client (mg_loops m ! i)" and "sec 1 \<le> lp_backoff l" "lp_backoff l \<le> sec 30"
    and "pc_peer c = pc_peer (mg_objects m ! lp_client l)"
  shows "mgr_inv (m\<lparr>mg_loops := (mg_loops m)[i := l], mg_objects := (mg_objects m)[lp_client l := c]\<rparr>)"
proof (rule mgr_inv_keep [OF assms(1)])
  let ?m' = "m\<lparr>mg_loops := (mg_loops m)[i := l], mg_objects := (mg_objects m)[lp_client l := c]\<rparr>"
  show ext: "store_ext m ?m'"
    using assms(7) by (cases "lp_client l < length (mg_objects m)") (auto simp: store_ext_def nth_list_update list_update_beyond)
  have ok: "loop_ok m k" if "k \<in> set (mg_loops m)" for k using assms(1) that by (simp add: mgr_inv_def)
  have "loop_ok m l" using ok [OF nth_mem [OF assms(2)]] assms(3-6) by (simp add: loop_ok_def)
  then show "\<forall>k \<in> set (mg_loops ?m'). loop_ok ?m' k"
    using loop_ok_ext [OF _ ext] ok set_update_subset_insert [of "mg_loops m" i l] by auto
  show "\<forall>k \<in> set (mg_loops m). \<exists>k' \<in> set (mg_loops ?m'). lp_peer k' = lp_peer k \<and> lp_client k' = lp_client k"
  proof
    fix k assume "k \<in> set (mg_loops m)"
    then obtain j where j: "j < length (mg_loops m)" "k = mg_loops m ! j" by (auto simp: in_set_conv_nth)
    then have "mg_loops ?m' ! j \<in> set (mg_loops ?m')" by simp
    moreover have "lp_peer (mg_loops ?m' ! j) = lp_peer k \<and> lp_client (mg_loops ?m' ! j) = lp_client k"
      using j assms(2-4) by (cases "i = j") simp_all
    ultimately show "\<exists>k' \<in> set (mg_loops ?m'). lp_peer k' = lp_peer k \<and> lp_client k' = lp_client k" by blast
  qed
qed simp_all

lemma mgr_inv_loop_end:
  assumes "mgr_inv m" and "mg_cancelled m"
  shows "mgr_inv (m\<lparr>mg_loops := take i (mg_loops m) @ drop (i + 1) (mg_loops m)\<rparr>)"
  using assms set_take_subset [of i "mg_loops m"] set_drop_subset [of "i + 1" "mg_loops m"]
  by (auto simp: mgr_inv_def loop_ok_def split: if_splits)

lemma nextBackoff_range: "sec 1 \<le> b \<Longrightarrow> sec 1 \<le> nextBackoff b \<and> nextBackoff b \<le> sec 30"
  by (simp add: nextBackoff_def sec_def)

lemma mgr_inv_Connect:
  assumes "mgr_inv m"
  shows "mgr_inv (maintainPeerConnection tls dialOk openOk sendOk recv cb i m)"
proof (cases "i \<ge> length (mg_loops m) \<or> lp_phase (mg_loops m ! i) = Streaming \<or> mg_cancelled m")
  case True
  then show ?thesis using assms mgr_inv_loop_end by (auto simp: maintainPeerConnection_def)
next
  case False
  let ?l = "mg_loops m ! i" and ?clock = "case mg_server m of None \<Rightarrow> [] | Some s \<Rightarrow> vc_ToMap (sv_vectorClock s)"
  have i: "i < length (mg_loops m)" and ok: "loop_ok m ?l" using False assms by (auto simp: mgr_inv_def)
  obtain c1 e1 where c1: "Connect tls dialOk (mg_objects m ! lp_client ?l) = (c1, e1)" by fastforce
  obtain c2 r2 where c2: "StartSyncStream openOk sendOk recv ?clock c1 = (c2, r2)" by fastforce
  have p1: "pc_peer c1 = pc_peer (mg_objects m ! lp_client ?l)" using pc_peer_keeps(2) c1 by (metis fst_conv)
  have p2: "pc_peer c2 = pc_peer c1" using pc_peer_keeps(3) c2 by (metis fst_conv)
  have b: "sec 1 \<le> lp_backoff ?l" using ok by (simp add: loop_ok_def)
  note fail = mgr_inv_loop_step [OF assms i, of "?l\<lparr>lp_backoff := nextBackoff (lp_backoff ?l)\<rparr>"]
    and up = mgr_inv_loop_step [OF assms i, of "?l\<lparr>lp_backoff := sec 1, lp_phase := Streaming\<rparr>"]
  show ?thesis
    using False c1 c2 p1 p2 fail up nextBackoff_range [OF b]
    by (simp add: maintainPeerConnection_def Let_def sec_def split: option.split sum.split)
qed

lemma mgr_inv_disconnect: "mgr_inv m \<Longrightarrow> mgr_inv (disconnectClient p m)"
  using disconnectClient_facts(2) [where m = m and p = p]
  by (intro mgr_inv_frame [OF _ disconnectClient_facts(3,1)]) (simp_all add: same_rest_def disconnectClient_facts(4))

lemma mgr_inv_Ended:
  assumes "mgr_inv m"
  shows "mgr_inv (connectionEnded i m)"
proof (cases "i \<ge> length (mg_loops m) \<or> lp_phase (mg_loops m ! i) = AtConnect")
  case False
  let ?l = "mg_loops m ! i"
  have i: "i < length (mg_loops m)" and ok: "loop_ok m ?l" using False assms by (auto simp: mgr_inv_def)
  show ?thesis
  proof (cases "mg_cancelled m")
    case True
    then show ?thesis
      using mgr_inv_disconnect [OF mgr_inv_loop_end [OF assms True], of "lp_client ?l" i] False
      by (simp add: connectionEnded_def Let_def)
  next
    case no: False
    show ?thesis
      using mgr_inv_loop_step [OF assms i, of "?l\<lparr>lp_phase := AtConnect\<rparr>"] ok False no
      by (simp add: connectionEnded_def Let_def loop_ok_def)
  qed
qed (use assms in \<open>auto simp: connectionEnded_def\<close>)

lemma checkOne_facts:
  "store_ext m (checkOne ping p m)" "mg_clients (checkOne ping p m) = mg_clients m" "mg_loops (checkOne ping p m) = mg_loops m"
  "mg_config (checkOne ping p m) = mg_config m" "mg_server (checkOne ping p m) = mg_server m"
  "mg_started (checkOne ping p m) = mg_started m" "mg_cancelled (checkOne ping p m) = mg_cancelled m"
proof -
  obtain t u w ok where ping: "ping p = (t, u, w, ok)" by (metis prod.exhaust)
  obtain c e lat where c: "pc_Ping t u w ok (mg_objects m ! p) = (c, e, lat)" by (metis prod.exhaust)
  have "pc_peer (fst (pc_Ping t u w ok c')) = pc_peer c'" for c' by simp
  then show "store_ext m (checkOne ping p m)"
    by (rule store_ext_update [where p = p]) (simp add: checkOne_def ping c Let_def)
qed (simp_all add: checkOne_def Let_def split: prod.split)

lemma mgr_inv_checkOne: "mgr_inv m \<Longrightarrow> mgr_inv (checkOne ping p m)"
  by (rule mgr_inv_frame) (simp_all add: checkOne_facts)

lemma mgr_inv_Health: "mgr_inv m \<Longrightarrow> mgr_inv (checkPeerHealth ping m)"
proof -
  have "mgr_inv m \<Longrightarrow> mgr_inv (fold (\<lambda>(_, ptr). checkOne ping ptr) cs m)" for cs
    by (induction cs arbitrary: m) (auto intro: mgr_inv_checkOne)
  then show "mgr_inv m \<Longrightarrow> mgr_inv (checkPeerHealth ping m)" by (simp add: checkPeerHealth_def)
qed

lemma mgr_inv_set_server:
  assumes "mgr_inv m" and "mg_server m = Some s"
  shows "mgr_inv (m\<lparr>mg_server := Some s'\<rparr>)"
  using assms(2) by (intro mgr_inv_server [OF assms(1)]) simp

lemma mgr_inv_Message: "mgr_inv m \<Longrightarrow> mgr_inv (fst (handlePeerMessage env now p msg m))"
  by (auto simp: handlePeerMessage_def intro: mgr_inv_set_server split: option.split SyncMessage.split)

lemma mgr_inv_FullSync:
  "mgr_inv m \<Longrightarrow> mg_RequestFullSync env now call p m = Some (m', err) \<Longrightarrow> mgr_inv m'"
  by (auto simp: mg_RequestFullSync_def intro: mgr_inv_set_server split: option.splits)

lemma mgr_inv_Record: "mgr_inv m \<Longrightarrow> mgr_inv (RecordChange t1 t2 u key ct d l m)"
  by (rule mgr_inv_frame) (auto simp: RecordChange_def store_ext_def)

lemma mgr_inv_Resolve: "mgr_inv m \<Longrightarrow> mgr_inv (fst (mg_ResolveConflict key useLocal m))"
  by (auto simp: mg_ResolveConflict_def intro: mgr_inv_set_server split: option.split prod.split)

lemma mgr_inv_OnChange: "mgr_inv m \<Longrightarrow> mgr_inv (OnResourceChange cb m)"
  by (rule mgr_inv_frame) (auto simp: OnResourceChange_def store_ext_def)

lemma mgr_inv_AgentCount: "mgr_inv m \<Longrightarrow> mgr_inv (mg_SetAgentCount n m)"
  by (rule mgr_inv_frame) (auto simp: mg_SetAgentCount_def store_ext_def)

lemmas mgr_inv_operations =
  mgr_inv_Start mgr_inv_Stop mgr_inv_Update mgr_inv_Connect mgr_inv_Ended mgr_inv_Message mgr_inv_Health
  mgr_inv_Record mgr_inv_Resolve mgr_inv_OnChange mgr_inv_AgentCount

lemma mgr_step_inv:
  assumes "mgr_inv m" and "mgr_good m e"
  shows "mgr_inv (mgr_step env tls m e)"
proof (cases e)
  case (MgFullSync now call p)
  then show ?thesis
    using assms(1) mgr_inv_FullSync [OF assms(1)] by (auto simp: mgr_step_def split: option.split)
next
  case (MgUpdate cfg)
  then show ?thesis using mgr_inv_Update [OF assms(1)] assms(2) by (simp add: mgr_step_def mgr_good_def)
qed (simp_all only: mgr_step_def mgr_event.case mgr_inv_operations [OF assms(1)])

interpretation mgr: invariant_system "mgr_step env tls" mgr_good mgr_inv for env tls
  by unfold_locales (rule mgr_step_inv)

lemma applyCredentials_frame:
  "map pi_Name (cf_Peers (applyCredentials creds cfg)) = map pi_Name (cf_Peers cfg)"
  "map pi_Labels (cf_Peers (applyCredentials creds cfg)) = map pi_Labels (cf_Peers cfg)"
  "cf_LocalMember (applyCredentials creds cfg) = cf_LocalMember cfg"
  "cf_SplitBrain (applyCredentials creds cfg) = cf_SplitBrain cfg"
  by (auto simp: applyCredentials_def split: option.split)

lemma config_ok_applyCredentials: "config_ok (applyCredentials creds cfg) \<longleftrightarrow> config_ok cfg"
proof -
  have "(\<forall>p \<in> set ps. labels_ok (pi_Labels p)) \<longleftrightarrow> (\<forall>l \<in> set (map pi_Labels ps). labels_ok l)" for ps :: "PeerInfo list"
    by simp
  then show ?thesis unfolding config_ok_def by (simp only: applyCredentials_frame)
qed

lemma crd_peer_Labels: "pi_Labels (crd_peer (default_peer p)) = fp_Labels p"
  by (simp add: crd_peer_def default_peer_def Let_def split: option.split)

lemma admitted_config_ok:
  assumes "snd (validateFederation (Default fed)) = []" and "\<forall>p \<in> set (ns_Members fed). labels_ok (fp_Labels p)"
  shows "config_ok (applyCredentials creds (CRDToConfig (Default fed)))"
proof -
  let ?fed = "Default fed" and ?local = "ns_LocalMember (Default fed)"
  have "validateFederationPeers ?fed = []"
    using assms(1) by (auto simp: validateFederation_def Let_def split_def split: if_splits option.splits)
  then obtain names eps where "fold (validatePeer ?local) (enumerate 0 (ns_Members ?fed))
      ([(fm_Name ?local, True)], [(fm_Endpoint ?local, True)], []) = (names, eps, [])"
    by (auto simp: validateFederationPeers_def split: prod.splits)
  from validate_peers [OF this] have d: "distinct (map fp_Name (ns_Members ?fed))" by blast
  then show ?thesis
    unfolding config_ok_applyCredentials
    using CRDToConfig_frame(4) [of ?fed] assms(2)
    by (auto simp: config_ok_def CRDToConfig_frame(1) crd_peer_Labels o_def)
qed

subsection \<open>What every run of a manager keeps\<close>

text \<open>
  C5. A manager built from an admitted specification, whatever happens to it, has exactly one
  client with the settings of each configured peer while it runs and none when it is stopped, its
  server exists while it runs, and every connection goroutine refers to a client of its own peer
  and waits between one and thirty seconds.
\<close>
theorem manager_runs_well_formed:
  assumes "snd (validateFederation (Default fed)) = []" and "\<forall>p \<in> set (ns_Members fed). labels_ok (fp_Labels p)"
    and "good_run (mgr_step env tls) mgr_good (NewManagerFromCRDWithCreds (Default fed) creds) es"
  shows "let m = run (mgr_step env tls) (NewManagerFromCRDWithCreds (Default fed) creds) es in
    (if mg_started m then IsActive m \<and> clients_match (mg_config m) m else mg_clients m = []) \<and>
    (\<forall>l \<in> set (mg_loops m). lp_client l < length (mg_objects m) \<and>
       pi_Name (pc_peer (mg_objects m ! lp_client l)) = lp_peer l \<and> sec 1 \<le> lp_backoff l \<and> lp_backoff l \<le> sec 30)"
proof -
  have "mgr_inv (NewManagerFromCRDWithCreds (Default fed) creds)"
    using admitted_config_ok [OF assms(1,2)] by (simp add: mgr_inv_def NewManagerFromCRDWithCreds_def NewManager_def)
  from mgr.run_inv [OF this assms(3)] show ?thesis by (simp add: mgr_inv_def loop_ok_def IsActive_def Let_def)
qed

definition sample_manager :: Manager where
  "sample_manager = fst (mg_Start (NewManagerFromCRDWithCreds (Default sample_spec) []))"

lemma sample_manager_inv: "mgr_inv sample_manager"
proof -
  have "snd (validateFederation (Default sample_spec)) = []" "\<forall>p \<in> set (ns_Members sample_spec). labels_ok (fp_Labels p)"
    by code_simp+
  from admitted_config_ok [OF this] have "mgr_inv (NewManagerFromCRDWithCreds (Default sample_spec) [])"
    by (simp add: mgr_inv_def NewManagerFromCRDWithCreds_def NewManager_def)
  then show ?thesis unfolding sample_manager_def by (rule mgr_inv_Start)
qed

theorem manager_runs_well_formed_witness:
  "let m = run (mgr_step sample_env sample_tls) (NewManagerFromCRDWithCreds (Default sample_spec) []) [MgStart]
   in mg_started m \<and> dom (map_of (mg_clients m)) = {''b''}"
proof -
  let ?run = "run (mgr_step sample_env sample_tls) (NewManagerFromCRDWithCreds (Default sample_spec) []) [MgStart]"
  have ok: "snd (validateFederation (Default sample_spec)) = []" "\<forall>p \<in> set (ns_Members sample_spec). labels_ok (fp_Labels p)"
    "mg_started ?run" "map pi_Name (cf_Peers (mg_config ?run)) = [''b'']"
    by code_simp+
  have "good_run (mgr_step sample_env sample_tls) mgr_good (NewManagerFromCRDWithCreds (Default sample_spec) []) [MgStart]"
    by (simp add: mgr_good_def)
  from manager_runs_well_formed [OF ok(1,2) this] ok(3)
  have "dom (map_of (mg_clients ?run)) = set (map pi_Name (cf_Peers (mg_config ?run)))"
    by (simp add: Let_def clients_match_def)
  then show ?thesis using ok(3) unfolding ok(4) by (simp add: Let_def)
qed

subsection \<open>Reconfiguration\<close>


definition sample_config2 :: Config where
  "sample_config2 = (mg_config sample_manager)\<lparr>cf_Peers := cf_Peers (mg_config sample_manager) @ [PeerInfo_named ''c'']\<rparr>"


lemma ended_pass:
  assumes "i < length (mg_loops m)" and "\<not> mg_cancelled m"
  shows "i < length (mg_loops (connectionEnded i m))" and "lp_phase (mg_loops (connectionEnded i m) ! i) = AtConnect"
    and "\<not> mg_cancelled (connectionEnded i m)" and "lp_client (mg_loops (connectionEnded i m) ! i) = lp_client (mg_loops m ! i)"
    and "length (mg_objects (connectionEnded i m)) = length (mg_objects m)"
    and "mg_clients (connectionEnded i m) = mg_clients m"
  using assms by (cases "lp_phase (mg_loops m ! i)"; simp add: connectionEnded_def Let_def)+

lemma connecting_pass:
  assumes "i < length (mg_loops m)" and "lp_phase (mg_loops m ! i) = AtConnect" and "\<not> mg_cancelled m"
    and "lp_client (mg_loops m ! i) < length (mg_objects m)"
    and "Connect tls d (mg_objects m ! lp_client (mg_loops m ! i)) = (c1, None)"
    and "StartSyncStream o' s r (GetVectorClock m) c1 = (c2, Inr sent)"
  shows "lp_phase (mg_loops (maintainPeerConnection tls d o' s r cb i m) ! i) = Streaming"
    and "pc_stream (mg_objects (maintainPeerConnection tls d o' s r cb i m) ! lp_client (mg_loops m ! i))"
    and "mg_clients (maintainPeerConnection tls d o' s r cb i m) = mg_clients m"
proof -
  have stream: "pc_stream c2"
    using assms(6) by (auto simp: StartSyncStream_def setHealthy_def Let_def split: if_splits option.splits SyncMessage.splits)
  have m: "maintainPeerConnection tls d o' s r cb i m =
    m\<lparr>mg_loops := (mg_loops m)[i := (mg_loops m ! i)\<lparr>lp_backoff := sec 1, lp_phase := Streaming\<rparr>],
      mg_objects := (mg_objects m)[lp_client (mg_loops m ! i) := pc_OnDisconnect cb (pc_OnMessage cb c2)]\<rparr>"
    using assms(1-3,5,6) by (simp add: maintainPeerConnection_def Let_def GetVectorClock_def)
  show "lp_phase (mg_loops (maintainPeerConnection tls d o' s r cb i m) ! i) = Streaming"
    "pc_stream (mg_objects (maintainPeerConnection tls d o' s r cb i m) ! lp_client (mg_loops m ! i))"
    "mg_clients (maintainPeerConnection tls d o' s r cb i m) = mg_clients m"
    using assms(1,4) stream by (simp_all add: m pc_OnDisconnect_def pc_OnMessage_def)
qed

text \<open>
  C23. The goroutine of a peer that an update removes is not ended: it is still in its loop with
  the disconnected client, which is in no map any more, and its next pass connects to the removed
  peer again if the peer answers.
\<close>
theorem removed_peer_reconnects:
  assumes "mgr_inv m" and "mg_started m" and "config_ok new"
    and "p \<in> set (cf_Peers (mg_config m))" and "pi_Name p \<notin> pi_Name ` set (cf_Peers new)"
  shows "let m' = fst (UpdateConfig new m) in map_of (mg_clients m') (pi_Name p) = None \<and>
    (\<exists>i ptr. i < length (mg_loops m') \<and> lp_peer (mg_loops m' ! i) = pi_Name p \<and> lp_client (mg_loops m' ! i) = ptr \<and>
       (let m1 = connectionEnded i m';
            (c1, err) = Connect tls True (mg_objects m1 ! ptr);
            (c2, hs) = StartSyncStream True True (Some (MsgHandshake h)) (GetVectorClock m1) c1;
            m2 = maintainPeerConnection tls True True True (Some (MsgHandshake h)) cb i m1
        in err = None \<and> (\<exists>sent. hs = Inr sent) \<longrightarrow>
           lp_phase (mg_loops m2 ! i) = Streaming \<and> pc_stream (mg_objects m2 ! ptr) \<and>
           map_of (mg_clients m2) (pi_Name p) = None))"
proof -
  let ?m' = "fst (UpdateConfig new m)"
  note f = UpdateConfig_facts [OF assms(1-3)]
  have gone: "map_of (mg_clients ?m') (pi_Name p) = None"
    using f(2) assms(5) by (metis clients_match_def domIff)
  obtain q where "has_client (pi_Name p) q m" using assms(1,2,4) by (auto simp: mgr_inv_def clients_match_def)
  then obtain l where l: "l \<in> set (mg_loops ?m')" "lp_peer l = pi_Name p" using f(5) by (auto simp: has_client_def)
  then obtain i where i: "i < length (mg_loops ?m')" "mg_loops ?m' ! i = l" by (auto simp: in_set_conv_nth)
  have ok: "loop_ok ?m' l" and nc: "\<not> mg_cancelled ?m'" using f(4,7) l(1) by (auto simp: mgr_inv_def)
  note e = ended_pass [OF i(1) nc]
  have "lp_client (mg_loops (connectionEnded i ?m') ! i) < length (mg_objects (connectionEnded i ?m'))"
    using e ok i(2) by (simp add: loop_ok_def)
  from connecting_pass [OF _ _ _ this] show ?thesis
    unfolding Let_def using gone l(2) i e by (intro conjI exI [of _ i] exI [of _ "lp_client l"]) (auto simp: split_def prod_eq_iff)
qed

definition sample_config0 :: Config where
  "sample_config0 = (mg_config sample_manager)\<lparr>cf_Peers := []\<rparr>"

theorem removed_peer_reconnects_witness:
  "let m' = fst (UpdateConfig sample_config0 sample_manager)
   in map_of (mg_clients m') ''b'' = None \<and> (\<exists>i < length (mg_loops m'). lp_peer (mg_loops m' ! i) = ''b'')"
proof -
  have ok: "mg_started sample_manager" "config_ok sample_config0" "hd (cf_Peers (mg_config sample_manager)) \<in> set (cf_Peers (mg_config sample_manager))"
    "pi_Name (hd (cf_Peers (mg_config sample_manager))) \<notin> pi_Name ` set (cf_Peers sample_config0)"
    "pi_Name (hd (cf_Peers (mg_config sample_manager))) = ''b''"
    by code_simp+
  from removed_peer_reconnects [OF sample_manager_inv ok(1-4), of sample_tls sample_handshake 0] show ?thesis
    unfolding ok(5) Let_def by blast
qed

subsection \<open>Connections\<close>

text \<open>A pass that cannot connect and open a stream doubles the wait and stays at the same place.\<close>

lemma failing_pass:
  assumes "i < length (mg_loops m)" and "lp_phase (mg_loops m ! i) = AtConnect" and "\<not> mg_cancelled m"
  shows "let m' = maintainPeerConnection tls False False sendOk recv cb i m in
    mg_loops m' = (mg_loops m)[i := (mg_loops m ! i)\<lparr>lp_backoff := nextBackoff (lp_backoff (mg_loops m ! i))\<rparr>] \<and>
    \<not> mg_cancelled m'"
  using assms
  by (auto simp: maintainPeerConnection_def Connect_def StartSyncStream_def Let_def split: option.split sum.split prod.split)

text \<open>
  The backoff of a connection goroutine doubles with every failed pass, from one second up to
  thirty seconds, and an established stream sets it back to one second.
\<close>
lemma connect_backoff:
  assumes "i < length (mg_loops m)" and "lp_phase (mg_loops m ! i) = AtConnect" and "\<not> mg_cancelled m"
    and "lp_backoff (mg_loops m ! i) = sec 1"
  shows "let m' = (maintainPeerConnection tls False False sendOk recv cb i ^^ n) m in
    lp_backoff (mg_loops m' ! i) = min (sec (2 ^ n)) (sec 30) \<and>
    (let m'' = maintainPeerConnection tls True True True (Some (MsgHandshake h)) cb i m'
     in lp_phase (mg_loops m'' ! i) = Streaming \<longrightarrow> lp_backoff (mg_loops m'' ! i) = sec 1)"
proof -
  define F where "F = maintainPeerConnection tls False False sendOk recv cb i"
  have *: "i < length (mg_loops ((F ^^ n) m)) \<and> lp_phase (mg_loops ((F ^^ n) m) ! i) = AtConnect \<and>
      \<not> mg_cancelled ((F ^^ n) m) \<and> lp_backoff (mg_loops ((F ^^ n) m) ! i) = min (sec (2 ^ n)) (sec 30)"
  proof (induction n)
    case (Suc n)
    then show ?case
      using failing_pass [of i "(F ^^ n) m" tls sendOk recv cb]
      by (auto simp: F_def [symmetric] Let_def nextBackoff_def sec_def min_def)
  qed (use assms in \<open>simp add: sec_def\<close>)
  then show ?thesis
    unfolding F_def [symmetric] Let_def
    by (auto simp: maintainPeerConnection_def Let_def split: option.split sum.split prod.split if_splits)
qed

subsection \<open>The direction of synchronisation\<close>

text \<open>What the peers and the connections bring about by themselves.\<close>

definition from_peer :: "mgr_event \<Rightarrow> bool" where
  "from_peer e = (case e of MgConnect _ _ _ _ _ _ \<Rightarrow> True | MgEnded _ \<Rightarrow> True | MgMessage _ _ _ \<Rightarrow> True | MgHealth _ \<Rightarrow> True | _ \<Rightarrow> False)"

definition content :: "Server \<Rightarrow> (string, TrackedResource) gomap \<times> (string, Tombstone) gomap \<times> RemoteEndpointCache" where
  "content s = (sv_resources s, sv_tombstones s, sv_endpointCache s)"

lemma content_updatePeerState [simp]: "content (updatePeerState p f s) = content s"
  by (simp add: content_def updatePeerState_def split: option.split)

lemma hub_spoke_step:
  assumes "cf_Mode (mg_config m) = ModeHubSpoke" and "from_peer e"
  shows "map_option content (mg_server (mgr_step env tls m e)) = map_option content (mg_server m) \<and>
    cf_Mode (mg_config (mgr_step env tls m e)) = ModeHubSpoke"
proof (cases e)
  case (MgMessage now p msg)
  then show ?thesis
    using assms
    by (simp add: mgr_step_def handlePeerMessage_def handleSyncAck_def handleHeartbeat_def handleConflictNotification_def
        split: option.split SyncMessage.split)
next
  case (MgHealth ping)
  have "mg_server (fold (\<lambda>(_, ptr). checkOne ping ptr) cs m) = mg_server m \<and>
    mg_config (fold (\<lambda>(_, ptr). checkOne ping ptr) cs m) = mg_config m" for cs :: "(string, nat) gomap"
    by (induction cs arbitrary: m) (auto simp: checkOne_facts)
  then show ?thesis using assms MgHealth by (simp add: mgr_step_def checkPeerHealth_def)
qed (use assms in \<open>simp_all add: mgr_step_def from_peer_def maintainPeerConnection_def connectionEnded_def
    disconnectClient_def Let_def split: option.split sum.split prod.split\<close>)

text \<open>
  In hub-spoke mode nothing that the peers send to the manager's clients changes the resources,
  the tombstones or the endpoint cache of the hub: data only flows outwards over these streams.
\<close>
lemma hub_spoke_one_way:
  assumes "cf_Mode (mg_config m) = ModeHubSpoke" and "\<forall>e \<in> set es. from_peer e"
  shows "map_option content (mg_server (run (mgr_step env tls) m es)) = map_option content (mg_server m)"
  using assms
proof (induction es arbitrary: m)
  case (Cons e es)
  then show ?case using hub_spoke_step [of m e env tls] by simp
qed simp

definition sample_hub :: Manager where
  "sample_hub = fst (mg_Start (NewManagerFromCRDWithCreds ((Default sample_spec)\<lparr>ns_Mode := ModeHubSpoke\<rparr>) []))"

subsection \<open>Write fencing\<close>

lemma fold_same_rest: "(\<And>x m. same_rest m (f x m)) \<Longrightarrow> same_rest m (fold f xs m)"
proof (induction xs arbitrary: m)
  case (Cons x xs)
  then show ?case using same_rest_trans [of m "f x m" "fold f xs (f x m)"] by simp
qed (simp add: same_rest_def)

lemma same_rest_clients:
  "same_rest m (addClient n p cfg m)" "same_rest m (removeClient n m)" "same_rest m (addClient n p cfg (removeClient n m))"
  using adds_addClient [of n p m cfg] adds_replace [of n p m cfg] removeClient_facts(4) by (simp_all add: adds_def)

definition undetected :: "Manager \<Rightarrow> bool" where
  "undetected m \<longleftrightarrow> cf_SplitBrain (mg_config m) = None \<and> mg_splitBrain m = None"

lemma undetected_same_rest: "same_rest m m' \<Longrightarrow> undetected m \<Longrightarrow> undetected m'"
  by (simp add: undetected_def same_rest_def)

lemma undetected_Start: "undetected m \<Longrightarrow> undetected (fst (mg_Start m))"
proof (cases "mg_started m \<or> cf_LocalMember (mg_config m) = None")
  case False
  assume u: "undetected m"
  let ?add = "fold (\<lambda>p. addClient (pi_Name p) p (mg_config m)) (cf_Peers (mg_config m))"
  have fold: "undetected (?add m')" if "undetected m'" for m'
  proof -
    have "same_rest m' (?add m')" by (rule fold_same_rest) (rule same_rest_clients(1))
    then show ?thesis using that by (rule undetected_same_rest)
  qed
  from False obtain m4 where "mg_Start m = (?add m4, None)" "mg_config m4 = mg_config m" "mg_splitBrain m4 = mg_splitBrain m"
    using u by (auto simp: mg_Start_def Let_def undetected_def)
  then show ?thesis using u fold [of m4] by (simp add: undetected_def)
qed (auto simp: mg_Start_def Let_def undetected_def)

lemma undetected_Stop: "undetected m \<Longrightarrow> undetected (mg_Stop m)"
  using fold_disconnect_facts [where m = "m\<lparr>mg_started := False, mg_antiEntropy := map_option ae_Stop (mg_antiEntropy m),
    mg_cancelled := True\<rparr>" and cs = "mg_clients m"]
  by (simp add: mg_Stop_def Let_def undetected_def same_rest_def)

lemma undetected_Update: "undetected m \<Longrightarrow> cf_SplitBrain cfg = None \<Longrightarrow> undetected (fst (UpdateConfig cfg m))"
proof -
  assume u: "undetected m" "cf_SplitBrain cfg = None"
  let ?O = "peer_map (cf_Peers (mg_config m))" and ?N = "peer_map (cf_Peers cfg)"
  define m1 where "m1 = fold (\<lambda>(n, _) m. if map_of ?N n = None then removeClient n m else m) ?O m"
  define m2 where "m2 = fold (\<lambda>(n, p) m. if map_of ?O n = None then addClient n p cfg m else m) ?N m1"
  define m3 where "m3 = fold (\<lambda>(n, p) m. case map_of ?O n of None \<Rightarrow> m | Some o' \<Rightarrow>
    if \<not> peerInfoEqual (Some o') (Some p) then addClient n p cfg (removeClient n m) else m) ?N m2"
  have refl: "same_rest m m" for m by (simp add: same_rest_def)
  have "same_rest m m1" unfolding m1_def by (rule fold_same_rest) (simp add: split_def same_rest_clients refl)
  moreover have "same_rest m1 m2" unfolding m2_def by (rule fold_same_rest) (simp add: split_def same_rest_clients refl)
  moreover have "same_rest m2 m3"
    unfolding m3_def by (rule fold_same_rest) (simp add: split_def same_rest_clients refl split: option.split)
  ultimately have "undetected m3" using u(1) undetected_same_rest by blast
  then show ?thesis using u by (simp add: UpdateConfig_def Let_def m1_def m2_def m3_def undetected_def)
qed

lemma undetected_Health: "undetected m \<Longrightarrow> undetected (checkPeerHealth ping m)"
proof -
  have "undetected m \<Longrightarrow> undetected (checkOne ping p m)" for p m
    by (simp add: undetected_def checkOne_def Let_def split: prod.split)
  then have "undetected m \<Longrightarrow> undetected (fold (\<lambda>(_, ptr). checkOne ping ptr) cs m)" for cs :: "(string, nat) gomap"
    by (induction cs arbitrary: m) auto
  then show "undetected m \<Longrightarrow> undetected (checkPeerHealth ping m)" by (simp add: checkPeerHealth_def)
qed

definition crd_update :: "Manager \<Rightarrow> mgr_event \<Rightarrow> bool" where
  "crd_update m e = (case e of MgUpdate cfg \<Rightarrow> cf_SplitBrain cfg = None | _ \<Rightarrow> True)"

lemmas undetected_operations = undetected_Start undetected_Stop undetected_Update undetected_Health

lemma undetected_server: "undetected m \<Longrightarrow> undetected (m\<lparr>mg_server := s\<rparr>)"
  "undetected m \<Longrightarrow> undetected (m\<lparr>mg_onResourceChange := c, mg_server := s\<rparr>)"
  by (simp_all add: undetected_def)

lemma undetected_step:
  assumes "undetected m" and "crd_update m e"
  shows "undetected (mgr_step env tls m e)"
proof (cases e)
  case (MgConnect dialOk openOk sendOk recv cb i)
  then show ?thesis
    using assms(1) by (simp add: mgr_step_def undetected_def maintainPeerConnection_def Let_def split: option.split sum.split prod.split)
next
  case (MgEnded i)
  then show ?thesis
    using assms(1) by (simp add: mgr_step_def undetected_def connectionEnded_def disconnectClient_def Let_def)
next
  case (MgMessage now p msg)
  then show ?thesis
    using assms(1) by (simp add: mgr_step_def undetected_def handlePeerMessage_def split: option.split SyncMessage.split)
next
  case (MgFullSync now call p)
  then show ?thesis
    using assms(1) by (auto simp: mgr_step_def undetected_def mg_RequestFullSync_def split: option.splits)
qed (use assms in \<open>simp_all add: mgr_step_def crd_update_def undetected_operations undetected_server RecordChange_def
  OnResourceChange_def mg_SetAgentCount_def mg_ResolveConflict_def split: option.split prod.split\<close>)

interpretation mgr_undetected: invariant_system "mgr_step env tls" crd_update undetected for env tls
  by unfold_locales (rule undetected_step)

text \<open>
  C24. A manager built from a specification never fences writes and never reports a partition, also
  when the specification enables the split-brain detector with fencing: the conversion drops that
  section, so no run creates a detector.
\<close>
theorem crd_manager_never_fences:
  assumes "\<forall>cfg. MgUpdate cfg \<in> set es \<longrightarrow> (\<exists>fed' creds'. cfg = applyCredentials creds' (CRDToConfig fed'))"
  shows "let m = run (mgr_step env tls) (NewManagerFromCRDWithCreds fed creds) es in
    \<not> mg_AreWritesFenced m \<and> mg_GetPartitionInfo m = None"
proof -
  have good: "good_run (mgr_step env tls) crd_update m es" for m
    using assms
  proof (induction es arbitrary: m)
    case (Cons e es)
    then have "crd_update m e"
      by (auto simp: crd_update_def applyCredentials_frame(4) CRDToConfig_frame(2) split: mgr_event.split)
    then show ?case using Cons by auto
  qed simp
  have "undetected (NewManagerFromCRDWithCreds fed creds)"
    by (simp add: undetected_def NewManagerFromCRDWithCreds_def NewManager_def applyCredentials_frame(4) CRDToConfig_frame(2))
  from mgr_undetected.run_inv [OF this good] show ?thesis
    by (simp add: undetected_def mg_AreWritesFenced_def mg_GetPartitionInfo_def Let_def)
qed

theorem crd_manager_never_fences_witness:
  "(\<exists>sb. ns_SplitBrain sample_spec = Some sb \<and> sc_Enabled sb = Some True \<and> sc_FencingEnabled sb = Some True) \<and>
   \<not> mg_AreWritesFenced (run (mgr_step sample_env sample_tls) (NewManagerFromCRDWithCreds sample_spec [])
     [MgStart, MgHealth (\<lambda>_. (sec 1, sec 2, sec 2, False))])"
  using crd_manager_never_fences [of "[MgStart, MgHealth (\<lambda>_. (sec 1, sec 2, sec 2, False))]" sample_env sample_tls sample_spec "[]"]
  by (simp add: sample_spec_def Let_def)

end
