(* ===== verification/Go_Strings.thy ===== *)
theory Go_Strings
  imports Go_Prelude
begin

section \<open>Prelude: Go's string functions\<close>

text \<open>
  The functions of Go's \<open>strings\<close>, \<open>strconv\<close>, \<open>fmt\<close> and \<open>encoding/hex\<close> packages that the agent's
  components use, on strings as lists of bytes, each with the round trip or the characterisation
  its clients rely on.
\<close>

named_theorems go_str \<open>Go's string functions\<close>

subsection \<open>Hexadecimal\<close>

definition hexDigit :: "nat \<Rightarrow> char" where
  "hexDigit d = (if d < 10 then char_of (48 + d) else char_of (87 + d))"

definition hexEncode :: "string \<Rightarrow> string" where
  "hexEncode bs = concat (map (\<lambda>c. [hexDigit (of_char c div 16), hexDigit (of_char c mod 16)]) bs)"

definition fromHexChar :: "char \<Rightarrow> nat option" where
  "fromHexChar c =
     (let n = of_char c :: nat
      in if 48 \<le> n \<and> n \<le> 57 then Some (n - 48)
         else if 97 \<le> n \<and> n \<le> 102 then Some (n - 87)
         else if 65 \<le> n \<and> n \<le> 70 then Some (n - 55)
         else None)"

fun hexDecode :: "string \<Rightarrow> string option" where
  "hexDecode [] = Some []"
| "hexDecode [c] = None"
| "hexDecode (a # b # cs) =
     (case (fromHexChar a, fromHexChar b, hexDecode cs) of
        (Some x, Some y, Some bs) \<Rightarrow> Some (char_of (16 * x + y) # bs)
      | _ \<Rightarrow> None)"

lemma fromHexChar_hexDigit [go_str]: "d < 16 \<Longrightarrow> fromHexChar (hexDigit d) = Some d"
  by (auto simp: fromHexChar_def hexDigit_def Let_def of_char_of)

lemma of_char_less: "(of_char c :: nat) < 256"
  using of_char_mod_256 [of c, where 'a = nat] by (metis mod_less_divisor zero_less_numeral)

lemma hexDecode_hexEncode [go_str]: "hexDecode (hexEncode bs) = Some bs"
proof (induction bs)
  case (Cons c bs)
  have "of_char c div 16 < (16 :: nat)" using of_char_less [of c] by linarith
  then show ?case using Cons by (simp add: hexEncode_def fromHexChar_hexDigit)
qed (simp add: hexEncode_def)

definition isHexDigit :: "char \<Rightarrow> bool" where
  "isHexDigit c \<longleftrightarrow> fromHexChar c \<noteq> None"

lemma hexEncode_set: "list_all isHexDigit (hexEncode bs)"
proof (induction bs)
  case (Cons c bs)
  have "of_char c div 16 < (16 :: nat)" using of_char_less [of c] by linarith
  then show ?case using Cons by (simp add: hexEncode_def isHexDigit_def fromHexChar_hexDigit)
qed (simp add: hexEncode_def)

subsection \<open>Decimal integers\<close>

text \<open>\<open>fmt\<close>'s \<open>%d\<close>, and \<open>strconv.ParseInt(s, 10, 64)\<close>, which fails outside the range of \<open>int64\<close>.\<close>

function decDigits :: "int \<Rightarrow> string" where
  "decDigits n = (if n < 10 then [char_of (48 + n)] else decDigits (n div 10) @ [char_of (48 + n mod 10)])"
  by auto
termination
  by (relation "measure nat") auto

declare decDigits.simps [simp del]

definition fmtInt :: "int \<Rightarrow> string" where
  "fmtInt i = (if i < 0 then CHR ''-'' # decDigits (- i) else decDigits i)"

definition isDigit :: "char \<Rightarrow> bool" where
  "isDigit c \<longleftrightarrow> 48 \<le> (of_char c :: int) \<and> (of_char c :: int) \<le> 57"

definition decValue :: "string \<Rightarrow> int" where
  "decValue ds = foldl (\<lambda>n c. 10 * n + (of_char c - 48)) 0 ds"

definition ParseInt :: "string \<Rightarrow> int option" where
  "ParseInt s =
     (let neg = (s \<noteq> [] \<and> hd s = CHR ''-'');
          ds = (if s \<noteq> [] \<and> hd s \<in> {CHR ''-'', CHR ''+''} then tl s else s)
      in if ds = [] \<or> \<not> list_all isDigit ds then None
         else if neg then (if decValue ds > 2 ^ 63 then None else Some (- decValue ds))
         else if decValue ds \<ge> 2 ^ 63 then None else Some (decValue ds))"

lemma decDigits_facts: "0 \<le> n \<Longrightarrow> decDigits n \<noteq> [] \<and> list_all isDigit (decDigits n) \<and> decValue (decDigits n) = n"
proof (induction n rule: decDigits.induct)
  case (1 n)
  show ?case
  proof (cases "n < 10")
    case True
    then show ?thesis
      using "1.prems" by (subst (1 2 3) decDigits.simps) (simp add: decValue_def isDigit_def of_char_of)
  next
    case False
    then have ih: "decDigits (n div 10) \<noteq> []" "list_all isDigit (decDigits (n div 10))" "decValue (decDigits (n div 10)) = n div 10"
      using 1 by simp_all
    have d: "decDigits n = decDigits (n div 10) @ [char_of (48 + n mod 10)]" using False by (subst decDigits.simps) simp
    have m: "0 \<le> n mod 10" "n mod 10 < 10" by simp_all
    then have c: "of_char (char_of (48 + n mod 10) :: char) = 48 + n mod 10" by (simp add: of_char_of)
    have "isDigit (char_of (48 + n mod 10))" using m by (simp add: isDigit_def c)
    moreover have "decValue (decDigits n) = 10 * decValue (decDigits (n div 10)) + (of_char (char_of (48 + n mod 10) :: char) - 48)"
      by (simp add: d decValue_def)
    ultimately show ?thesis using ih by (simp add: d c)
  qed
qed

lemma decDigits_hd: "0 \<le> n \<Longrightarrow> hd (decDigits n) \<notin> {CHR ''-'', CHR ''+''}"
  using decDigits_facts [of n] by (cases "decDigits n") (auto simp: isDigit_def)

lemma ParseInt_fmtInt [go_str]:
  assumes "MinInt64 \<le> i" and "i \<le> MaxInt64"
  shows "ParseInt (fmtInt i) = Some i"
proof (cases "i < 0")
  case True
  then show ?thesis
    using decDigits_facts [of "- i"] assms(1) by (simp add: ParseInt_def fmtInt_def Let_def MinInt64_def)
next
  case False
  then show ?thesis
    using decDigits_facts [of i] decDigits_hd [of i] assms(2)
    by (simp add: ParseInt_def fmtInt_def Let_def MaxInt64_def)
qed

lemma decValue_nonneg: "list_all isDigit ds \<Longrightarrow> 0 \<le> decValue ds"
  by (induction ds rule: rev_induct) (auto simp: decValue_def isDigit_def)

lemma ParseInt_range: "ParseInt s = Some i \<Longrightarrow> MinInt64 \<le> i \<and> i \<le> MaxInt64"
  using decValue_nonneg [of s] decValue_nonneg [of "tl s"]
  by (auto simp: ParseInt_def Let_def MinInt64_def MaxInt64_def split: if_splits)

lemma fmtInt_set: "set (fmtInt i) \<subseteq> {c. isDigit c \<or> c = CHR ''-''}"
  using decDigits_facts [of i] decDigits_facts [of "- i"] by (cases "i < 0") (auto simp: fmtInt_def list_all_iff)

subsection \<open>Splitting\<close>

text \<open>\<open>strings.SplitN\<close> and \<open>strings.Split\<close> with a separator of one byte, and the cut at the last one (\<open>strings.LastIndex\<close>).\<close>

fun SplitN :: "nat \<Rightarrow> char \<Rightarrow> string \<Rightarrow> string list" where
  "SplitN 0 c s = []"
| "SplitN (Suc 0) c s = [s]"
| "SplitN (Suc (Suc n)) c s =
     (if c \<in> set s then takeWhile (\<lambda>x. x \<noteq> c) s # SplitN (Suc n) c (tl (dropWhile (\<lambda>x. x \<noteq> c) s)) else [s])"

fun Split :: "char \<Rightarrow> string \<Rightarrow> string list" where
  "Split c [] = [[]]"
| "Split c (x # s) = (if x = c then [] # Split c s else (case Split c s of [] \<Rightarrow> [[x]] | p # ps \<Rightarrow> (x # p) # ps))"

definition CutLast :: "char \<Rightarrow> string \<Rightarrow> (string \<times> string) option" where
  "CutLast c s =
     (if c \<in> set s then Some (rev (tl (dropWhile (\<lambda>x. x \<noteq> c) (rev s))), rev (takeWhile (\<lambda>x. x \<noteq> c) (rev s))) else None)"

lemma while_sep:
  "c \<notin> set p \<Longrightarrow> takeWhile (\<lambda>x. x \<noteq> c) (p @ c # s) = p" "c \<notin> set p \<Longrightarrow> dropWhile (\<lambda>x. x \<noteq> c) (p @ c # s) = c # s"
  by (induction p) auto

lemma SplitN_step [go_str]:
  "c \<notin> set p \<Longrightarrow> SplitN (Suc (Suc n)) c (p @ c # s) = p # SplitN (Suc n) c s"
  by (simp add: while_sep)

lemma CutLast_append [go_str]: "c \<notin> set t \<Longrightarrow> CutLast c (s @ c # t) = Some (s, t)"
  using while_sep [of c "rev t" "rev s"] by (simp add: CutLast_def)

lemma CutLast_Some: "CutLast c s = Some (p, t) \<Longrightarrow> s = p @ c # t \<and> c \<notin> set t"
proof -
  assume a: "CutLast c s = Some (p, t)"
  then obtain q r where qr: "s = q @ c # r" "c \<notin> set r" by (auto simp: CutLast_def dest: split_list_last split: if_splits)
  then show ?thesis using a CutLast_append [of c r q] by simp
qed

lemma Split_nonempty [simp]: "Split c s \<noteq> []"
  by (induction s) (auto split: list.split)

lemma Split_parts: "p \<in> set (Split c s) \<Longrightarrow> c \<notin> set p"
  by (induction s arbitrary: p) (auto split: if_splits list.splits)

lemma Split_single: "c \<notin> set s \<Longrightarrow> Split c s = [s]"
  by (induction s) auto

lemma Split_append [go_str]: "c \<notin> set p \<Longrightarrow> Split c (p @ c # s) = p # Split c s"
  by (induction p) auto

text \<open>\<open>strings.HasPrefix\<close> and \<open>strings.TrimPrefix\<close>.\<close>

definition HasPrefix :: "string \<Rightarrow> string \<Rightarrow> bool" where
  "HasPrefix s p \<longleftrightarrow> take (length p) s = p"

definition TrimPrefix :: "string \<Rightarrow> string \<Rightarrow> string" where
  "TrimPrefix s p = (if HasPrefix s p then drop (length p) s else s)"

text \<open>\<open>strings.EqualFold\<close> on ASCII strings: equality up to the case of letters.\<close>

definition toLowerByte :: "char \<Rightarrow> char" where
  "toLowerByte c = (let n = of_char c :: nat in if 65 \<le> n \<and> n \<le> 90 then char_of (n + 32) else c)"

definition EqualFold :: "string \<Rightarrow> string \<Rightarrow> bool" where
  "EqualFold s t \<longleftrightarrow> map toLowerByte s = map toLowerByte t"

end
