(* ===== verification/Config_Gossip.thy ===== *)
theory Config_Gossip
  imports Go_Strings
begin

section \<open>Gossip of configuration versions (\<open>internal/agent/gossip/gossip.go\<close>)\<close>

text \<open>
  Agents multicast the generation time of the configuration they run, record what their peers
  announce, and force a resynchronisation when a majority of the live peers is clearly ahead. One
  tick of each loop and one received datagram are the operations; HMAC-SHA256 is the parameter
  \<open>mac\<close>. A callback is reported as a result. Sockets and goroutines are not modelled.
\<close>

subsection \<open>State and operations\<close>

definition PeerExpiry :: duration where "PeerExpiry = sec 15"
definition GenTimeThreshold :: int where "GenTimeThreshold = 60"
definition ResyncCooldown :: duration where "ResyncCooldown = sec 30"
definition messagePrefix :: string where "messagePrefix = ''config_version''"
definition maxPeers :: int where "maxPeers = 256"

record peerState =
  gp_genTime :: int
  gp_lastSeen :: gotime

record ConfigGossiper =
  gs_nodeName :: string
  gs_psk :: string
  gs_currentGenTime :: int
  gs_peerVersions :: "(string, peerState) gomap"
  gs_peerCount :: int
  gs_lastResyncTime :: int

definition NewConfigGossiper :: "string \<Rightarrow> string \<Rightarrow> ConfigGossiper" where
  "NewConfigGossiper nodeName psk =
     \<lparr>gs_nodeName = nodeName, gs_psk = psk, gs_currentGenTime = 0, gs_peerVersions = [], gs_peerCount = 0,
      gs_lastResyncTime = 0\<rparr>"

definition UpdateGenTime :: "int \<Rightarrow> ConfigGossiper \<Rightarrow> ConfigGossiper" where
  "UpdateGenTime genTime g = g\<lparr>gs_currentGenTime := genTime\<rparr>"

text \<open>One tick of \<open>broadcastLoop\<close>: the datagram that is sent, if any.\<close>

definition broadcast :: "(string \<Rightarrow> string \<Rightarrow> string) \<Rightarrow> gotime \<Rightarrow> ConfigGossiper \<Rightarrow> string option" where
  "broadcast mac now g =
     (let genTime = gs_currentGenTime g
      in if genTime = 0 then None
         else
           (let msg = messagePrefix @ ''|'' @ gs_nodeName g @ ''|'' @ fmtInt genTime @ ''|'' @ fmtInt (unix_nano now)
            in Some (if gs_psk g \<noteq> [] then msg @ ''|'' @ hexEncode (mac (gs_psk g) msg) else msg)))"

text \<open>The authentication at the start of \<open>handleMessage\<close>: the payload, or nothing when the message is dropped.\<close>

definition authenticate :: "(string \<Rightarrow> string \<Rightarrow> string) \<Rightarrow> string \<Rightarrow> ConfigGossiper \<Rightarrow> string option" where
  "authenticate mac data g =
     (if gs_psk g \<noteq> []
      then (case CutLast (CHR ''|'') data of
              None \<Rightarrow> None
            | Some (payload, macHex) \<Rightarrow>
                (case hexDecode macHex of
                   None \<Rightarrow> None
                 | Some receivedMAC \<Rightarrow> if mac (gs_psk g) payload = receivedMAC then Some payload else None))
      else Some data)"

text \<open>The fields of \<open>config_version|<nodeName>|<genTime>|<timestamp>\<close>; the timestamp is not read.\<close>

definition parseAnnouncement :: "string \<Rightarrow> (string \<times> int) option" where
  "parseAnnouncement data =
     (case SplitN 4 (CHR ''|'') data of
        [prefix, peerName, genTimeStr, timestamp] \<Rightarrow>
          if prefix \<noteq> messagePrefix then None else map_option (Pair peerName) (ParseInt genTimeStr)
      | _ \<Rightarrow> None)"

definition recordPeer :: "gotime \<Rightarrow> string \<Rightarrow> int \<Rightarrow> ConfigGossiper \<Rightarrow> ConfigGossiper" where
  "recordPeer now peerName peerGenTime g =
     (let loaded = (map_of (gs_peerVersions g) peerName \<noteq> None);
          st = \<lparr>gp_genTime = peerGenTime, gp_lastSeen = now\<rparr>
      in if \<not> loaded \<and> gs_peerCount g \<ge> maxPeers then g
         else g\<lparr>gs_peerVersions := gm_put peerName st (gs_peerVersions g),
                gs_peerCount := (if loaded then gs_peerCount g else wrap32 (gs_peerCount g + 1))\<rparr>)"

definition handleMessage :: "(string \<Rightarrow> string \<Rightarrow> string) \<Rightarrow> gotime \<Rightarrow> string \<Rightarrow> ConfigGossiper \<Rightarrow> ConfigGossiper" where
  "handleMessage mac now data0 g =
     (case authenticate mac data0 g of
        None \<Rightarrow> g
      | Some data \<Rightarrow>
          (case parseAnnouncement data of
             None \<Rightarrow> g
           | Some (peerName, peerGenTime) \<Rightarrow>
               if peerName = gs_nodeName g then g else recordPeer now peerName peerGenTime g))"

text \<open>
  One step of the \<open>Range\<close> of \<open>checkQuorum\<close>: an expired peer is deleted, a live one is counted, and
  counted as newer when its generation time is ahead by more than the threshold.
\<close>

definition visitPeer ::
  "gotime \<Rightarrow> int \<Rightarrow> string \<times> peerState \<Rightarrow> ConfigGossiper \<times> int \<times> int \<Rightarrow> ConfigGossiper \<times> int \<times> int" where
  "visitPeer now myGenTime entry st =
     (case (entry, st) of ((key, peer), (g, tot, newerCount)) \<Rightarrow>
        if time_sub now (gp_lastSeen peer) > PeerExpiry
        then (g\<lparr>gs_peerVersions := gm_del key (gs_peerVersions g), gs_peerCount := wrap32 (gs_peerCount g - 1)\<rparr>, tot, newerCount)
        else (g, tot + 1, if gp_genTime peer > wrap64 (myGenTime + GenTimeThreshold) then newerCount + 1 else newerCount))"

definition gossip_checkQuorum :: "gotime \<Rightarrow> gotime \<Rightarrow> ConfigGossiper \<Rightarrow> ConfigGossiper \<times> bool" where
  "gossip_checkQuorum now now' g =
     (let myGenTime = gs_currentGenTime g; lastResync = gs_lastResyncTime g
      in if myGenTime = 0 then (g, False)
         else if lastResync > 0 \<and> time_sub now lastResync < ResyncCooldown then (g, False)
         else
           (case fold (visitPeer now myGenTime) (gs_peerVersions g) (g, 0, 0) of
              (g', tot, newerCount) \<Rightarrow>
                if tot > 0 \<and> newerCount > tot div 2
                then (g'\<lparr>gs_lastResyncTime := unix_nano now'\<rparr>, True)
                else (g', False)))"

text \<open>One datagram of \<open>receiveLoop\<close>, whose buffer has 512 bytes.\<close>

definition gossip_receive :: "(string \<Rightarrow> string \<Rightarrow> string) \<Rightarrow> gotime \<Rightarrow> string \<Rightarrow> ConfigGossiper \<Rightarrow> ConfigGossiper" where
  "gossip_receive mac now datagram g = handleMessage mac now (take 512 datagram) g"

subsection \<open>Announcements reach the peers\<close>

lemma length_decDigits: "0 \<le> n \<Longrightarrow> n < 10 ^ Suc k \<Longrightarrow> length (decDigits n) \<le> Suc k"
proof (induction k arbitrary: n)
  case 0
  then show ?case by (subst decDigits.simps) simp
next
  case (Suc k)
  show ?case
  proof (cases "n < 10")
    case False
    have "n div 10 < 10 ^ Suc k" using Suc.prems by simp
    then show ?thesis using Suc.IH [of "n div 10"] Suc.prems(1) False by (subst decDigits.simps) simp
  qed (subst decDigits.simps, simp)
qed

lemma length_fmtInt: "MinInt64 \<le> i \<Longrightarrow> i \<le> MaxInt64 \<Longrightarrow> length (fmtInt i) \<le> 20"
  using length_decDigits [of i 18] length_decDigits [of "- i" 18]
  by (auto simp: fmtInt_def MinInt64_def MaxInt64_def)

lemma length_hexEncode: "length (hexEncode bs) = 2 * length bs"
  by (induction bs) (simp_all add: hexEncode_def)

lemma no_pipe:
  "CHR ''|'' \<notin> set (fmtInt i)" "CHR ''|'' \<notin> set (hexEncode bs)" "CHR ''|'' \<notin> set messagePrefix"
proof -
  show "CHR ''|'' \<notin> set (fmtInt i)" using fmtInt_set [of i] by (auto simp: isDigit_def)
  have "\<not> isHexDigit (CHR ''|'')" by code_simp
  then show "CHR ''|'' \<notin> set (hexEncode bs)" using hexEncode_set [of bs] by (auto simp: list_all_iff)
qed (simp add: messagePrefix_def)

text \<open>The payload of an announcement, and what a receiver reads from it.\<close>

definition announcement :: "string \<Rightarrow> int \<Rightarrow> gotime \<Rightarrow> string" where
  "announcement name genTime t = messagePrefix @ ''|'' @ name @ ''|'' @ fmtInt genTime @ ''|'' @ fmtInt (unix_nano t)"

lemma SplitN_payload:
  assumes "CHR ''|'' \<notin> set name"
  shows "SplitN 4 (CHR ''|'') (announcement name genTime t) = [messagePrefix, name, fmtInt genTime, fmtInt (unix_nano t)]"
proof -
  have "announcement name genTime t = messagePrefix @ CHR ''|'' # (name @ CHR ''|'' # (fmtInt genTime @ CHR ''|'' # fmtInt (unix_nano t)))"
    by (simp add: announcement_def)
  moreover have "SplitN 4 = SplitN (Suc (Suc (Suc (Suc 0))))" by (simp add: numeral_eq_Suc)
  ultimately show ?thesis using SplitN_step no_pipe(1,3) assms SplitN.simps(2) by metis
qed

lemma broadcast_payload:
  assumes "broadcast mac t g = Some msg"
  shows "gs_currentGenTime g \<noteq> 0" and "msg = (let p = announcement (gs_nodeName g) (gs_currentGenTime g) t
    in if gs_psk g \<noteq> [] then p @ CHR ''|'' # hexEncode (mac (gs_psk g) p) else p)"
  using assms by (auto simp: broadcast_def announcement_def Let_def split: if_splits)

lemma authenticate_broadcast:
  assumes "broadcast mac t g = Some msg" and "gs_psk h = gs_psk g"
  shows "authenticate mac msg h = Some (announcement (gs_nodeName g) (gs_currentGenTime g) t)"
  unfolding broadcast_payload(2) [OF assms(1)]
  using assms(2) by (simp add: authenticate_def Let_def CutLast_append no_pipe hexDecode_hexEncode)

lemma length_broadcast:
  assumes "broadcast mac t g = Some msg" and "length (gs_nodeName g) \<le> 253" and "\<And>k m. length (mac k m) = 32"
    and "MinInt64 \<le> gs_currentGenTime g" and "gs_currentGenTime g \<le> MaxInt64"
  shows "length msg \<le> 512"
proof -
  have "length (fmtInt (unix_nano t)) \<le> 20" using wrap64_range [of t] by (intro length_fmtInt) (simp_all add: unix_nano_def)
  then have "length (announcement (gs_nodeName g) (gs_currentGenTime g) t) \<le> 310"
    using length_fmtInt [OF assms(4,5)] assms(2) by (simp add: announcement_def messagePrefix_def)
  then show ?thesis
    unfolding broadcast_payload(2) [OF assms(1)] using assms(3) by (simp add: Let_def length_hexEncode)
qed

text \<open>
  C25. An announcement arrives: an agent that receives what another one multicasts, with the same
  key or without keys, records exactly the sender's generation time and the time of receipt under
  the sender's name, and changes nothing else. This needs names without the separator that fit
  in the receive buffer and a free place in the table for a new peer.
\<close>
theorem gossip_roundtrip:
  assumes "broadcast mac t g = Some msg" and "gs_psk h = gs_psk g" and "gs_nodeName g \<noteq> gs_nodeName h"
    and "CHR ''|'' \<notin> set (gs_nodeName g)" and "length (gs_nodeName g) \<le> 253" and "\<And>k m. length (mac k m) = 32"
    and "MinInt64 \<le> gs_currentGenTime g" and "gs_currentGenTime g \<le> MaxInt64"
    and "map_of (gs_peerVersions h) (gs_nodeName g) \<noteq> None \<or> gs_peerCount h < maxPeers"
  shows "let h' = gossip_receive mac now msg h in
    map_of (gs_peerVersions h') =
      (map_of (gs_peerVersions h))(gs_nodeName g \<mapsto> \<lparr>gp_genTime = gs_currentGenTime g, gp_lastSeen = now\<rparr>) \<and>
    gs_currentGenTime h' = gs_currentGenTime h \<and> gs_lastResyncTime h' = gs_lastResyncTime h"
proof -
  have "take 512 msg = msg" using length_broadcast [OF assms(1,5,6,7,8)] by simp
  then have "gossip_receive mac now msg h = recordPeer now (gs_nodeName g) (gs_currentGenTime g) h"
    using authenticate_broadcast [OF assms(1,2)] SplitN_payload [OF assms(4)] ParseInt_fmtInt [OF assms(7,8)] assms(3)
    by (simp add: gossip_receive_def handleMessage_def parseAnnouncement_def)
  then show ?thesis using assms(9) by (auto simp: recordPeer_def Let_def update_conv')
qed

definition sample_gossiper :: "string \<Rightarrow> ConfigGossiper" where
  "sample_gossiper name = UpdateGenTime 1700000000 (NewConfigGossiper name ''key'')"

theorem gossip_roundtrip_witness:
  "map_option gp_genTime (map_of (gs_peerVersions (gossip_receive (\<lambda>_ _. replicate 32 (CHR ''m'')) 7
     (the (broadcast (\<lambda>_ _. replicate 32 (CHR ''m'')) 5 (sample_gossiper ''n1''))) (NewConfigGossiper ''n2'' ''key''))) ''n1'')
   = Some 1700000000"
proof -
  let ?mac = "\<lambda>_ _. replicate 32 (CHR ''m'')" and ?g = "sample_gossiper ''n1''" and ?h = "NewConfigGossiper ''n2'' ''key''"
  have h: "broadcast ?mac 5 ?g = Some (the (broadcast ?mac 5 ?g))" "gs_psk ?h = gs_psk ?g" "gs_nodeName ?g \<noteq> gs_nodeName ?h"
    "CHR ''|'' \<notin> set (gs_nodeName ?g)" "length (gs_nodeName ?g) \<le> 253" "MinInt64 \<le> gs_currentGenTime ?g"
    "gs_currentGenTime ?g \<le> MaxInt64" "map_of (gs_peerVersions ?h) (gs_nodeName ?g) \<noteq> None \<or> gs_peerCount ?h < maxPeers"
    "gs_nodeName ?g = ''n1''" "gs_currentGenTime ?g = 1700000000"
    by (simp_all add: broadcast_def sample_gossiper_def UpdateGenTime_def NewConfigGossiper_def Let_def MinInt64_def MaxInt64_def
        maxPeers_def)
  from gossip_roundtrip [OF h(1-5) _ h(6-8), of 7] show ?thesis unfolding h(9,10) by (simp add: Let_def)
qed

subsection \<open>The table of peers\<close>

datatype gossip_event = GsGenTime int | GsReceive gotime string | GsTick gotime gotime

definition gossip_step :: "(string \<Rightarrow> string \<Rightarrow> string) \<Rightarrow> ConfigGossiper \<Rightarrow> gossip_event \<Rightarrow> ConfigGossiper" where
  "gossip_step mac g e =
     (case e of
        GsGenTime t \<Rightarrow> UpdateGenTime t g
      | GsReceive now d \<Rightarrow> gossip_receive mac now d g
      | GsTick now now' \<Rightarrow> fst (gossip_checkQuorum now now' g))"

definition gossip_inv :: "ConfigGossiper \<Rightarrow> bool" where
  "gossip_inv g \<longleftrightarrow>
     gm_ok (gs_peerVersions g) \<and> gs_peerCount g = int (length (gs_peerVersions g)) \<and> gs_peerCount g \<le> maxPeers \<and>
     map_of (gs_peerVersions g) (gs_nodeName g) = None"

lemma gossip_inv_record: "gossip_inv g \<Longrightarrow> p \<noteq> gs_nodeName g \<Longrightarrow> gossip_inv (recordPeer now p t g)"
  by (auto simp: gossip_inv_def recordPeer_def Let_def update_conv' gm_length_put maxPeers_def wrap32_def)

lemma handleMessage_cases:
  obtains "handleMessage mac now d g = g"
  | p t payload where "handleMessage mac now d g = recordPeer now p t g" "p \<noteq> gs_nodeName g"
    "authenticate mac d g = Some payload" "parseAnnouncement payload = Some (p, t)"
proof (cases "authenticate mac d g")
  case (Some payload)
  show thesis
  proof (cases "parseAnnouncement payload")
    case parsed: (Some pt)
    then show thesis
      using that Some by (cases pt; cases "fst pt = gs_nodeName g") (auto simp: handleMessage_def)
  qed (use that Some in \<open>simp add: handleMessage_def\<close>)
qed (use that in \<open>simp add: handleMessage_def\<close>)

lemma gossip_inv_receive: "gossip_inv g \<Longrightarrow> gossip_inv (gossip_receive mac now d g)"
  unfolding gossip_receive_def
  by (rule handleMessage_cases [of mac now "take 512 d" g]) (simp_all add: gossip_inv_record)

text \<open>The loop of \<open>checkQuorum\<close>: what it deletes and what it counts.\<close>

definition expired :: "gotime \<Rightarrow> string \<times> peerState \<Rightarrow> bool" where
  "expired now e \<longleftrightarrow> time_sub now (gp_lastSeen (snd e)) > PeerExpiry"

definition ahead :: "int \<Rightarrow> string \<times> peerState \<Rightarrow> bool" where
  "ahead t e \<longleftrightarrow> gp_genTime (snd e) > wrap64 (t + GenTimeThreshold)"

definition live :: "gotime \<Rightarrow> (string, peerState) gomap \<Rightarrow> (string, peerState) gomap" where
  "live now ps = filter (\<lambda>e. \<not> expired now e) ps"

lemma visit_fold:
  assumes "gm_ok es" and "gs_peerVersions g = live now done' @ es" and "gm_ok (done' @ es)"
    and "gs_peerCount g = int (length (gs_peerVersions g))" and "length (done' @ es) \<le> 256"
  shows "fold (visitPeer now t) es (g, tot, n) =
    (g\<lparr>gs_peerVersions := live now (done' @ es), gs_peerCount := int (length (live now (done' @ es)))\<rparr>,
     tot + int (length (live now es)), n + int (length (filter (ahead t) (live now es))))"
  using assms
proof (induction es arbitrary: g tot n done')
  case Nil
  then show ?case by (simp add: live_def)
next
  case (Cons e es)
  obtain k p where e: "e = (k, p)" by (cases e)
  have k: "k \<notin> fst ` set (live now done')" "k \<notin> fst ` set es"
    using Cons.prems(3) by (auto simp: e gm_ok_def live_def)
  have del: "gm_del k (live now done' @ e # es) = live now done' @ es"
    unfolding e using k by (rule gm_del_mid)
  have len: "length (live now done') + length es < 256"
  proof -
    have "length (live now done') \<le> length done'" by (simp add: live_def)
    then show ?thesis using Cons.prems(5) by simp
  qed
  have ok: "gm_ok es" "gm_ok ((done' @ [e]) @ es)" using Cons.prems(1,3) by (simp_all add: gm_ok_def)
  show ?case
  proof (cases "expired now e")
    case True
    let ?g = "g\<lparr>gs_peerVersions := gm_del k (gs_peerVersions g), gs_peerCount := wrap32 (gs_peerCount g - 1)\<rparr>"
    have "gs_peerVersions ?g = live now (done' @ [e]) @ es" using Cons.prems(2) del True by (simp add: live_def)
    moreover have "gs_peerCount ?g = int (length (gs_peerVersions ?g))"
      using Cons.prems(2,4) del len by (simp add: wrap32_def)
    ultimately show ?thesis
      using Cons.IH [OF ok(1) _ ok(2), of ?g] Cons.prems(5) True by (simp add: visitPeer_def e expired_def live_def)
  next
    case False
    have "gs_peerVersions g = live now (done' @ [e]) @ es" using Cons.prems(2) False by (simp add: live_def)
    then show ?thesis
      using Cons.IH [OF ok(1) _ ok(2), of g] Cons.prems(4,5) False by (simp add: visitPeer_def e expired_def ahead_def live_def)
  qed
qed

lemma checkQuorum_eq:
  assumes "gossip_inv g"
  shows "gossip_checkQuorum now now' g =
    (let ps = live now (gs_peerVersions g); t = gs_currentGenTime g;
         g' = g\<lparr>gs_peerVersions := ps, gs_peerCount := int (length ps)\<rparr>
     in if t = 0 \<or> gs_lastResyncTime g > 0 \<and> now - gs_lastResyncTime g < ResyncCooldown then (g, False)
        else if 2 * length (filter (ahead t) ps) > length ps then (g'\<lparr>gs_lastResyncTime := unix_nano now'\<rparr>, True)
        else (g', False))"
proof -
  have inv: "gm_ok (gs_peerVersions g)" "gs_peerCount g = int (length (gs_peerVersions g))" "length (gs_peerVersions g) \<le> 256"
    using assms by (simp_all add: gossip_inv_def maxPeers_def)
  have "live now [] = []" by (simp add: live_def)
  then have f: "fold (visitPeer now t) (gs_peerVersions g) (g, 0, 0) =
    (g\<lparr>gs_peerVersions := live now (gs_peerVersions g), gs_peerCount := int (length (live now (gs_peerVersions g)))\<rparr>,
     int (length (live now (gs_peerVersions g))), int (length (filter (ahead t) (live now (gs_peerVersions g)))))" for t
    using visit_fold [OF inv(1), of g now "[]" t 0 0] inv by simp
  have majority: "int (length ps) > 0 \<and> int (length (filter (ahead t) ps)) > int (length ps) div 2 \<longleftrightarrow>
      2 * length (filter (ahead t) ps) > length ps" for t and ps :: "(string, peerState) gomap"
    using length_filter_le [of "ahead t" ps] by linarith
  have cool: "time_sub now (gs_lastResyncTime g) < ResyncCooldown \<longleftrightarrow> now - gs_lastResyncTime g < ResyncCooldown"
    by (rule time_sub_less) (simp_all add: ResyncCooldown_def sec_def MaxInt64_def MinInt64_def)
  show ?thesis by (simp only: gossip_checkQuorum_def Let_def f prod.case majority cool) auto
qed

lemma gossip_inv_tick: "gossip_inv g \<Longrightarrow> gossip_inv (fst (gossip_checkQuorum now now' g))"
proof -
  assume inv: "gossip_inv g"
  let ?ps = "gs_peerVersions g"
  have len: "length (live now ?ps) \<le> length ?ps" by (simp add: live_def)
  have ok: "gm_ok (live now ?ps)" using inv by (simp add: gossip_inv_def gm_ok_def live_def distinct_map_filter)
  have "gs_nodeName g \<notin> fst ` set (live now ?ps)"
    using inv by (auto simp: gossip_inv_def live_def map_of_eq_None_iff)
  then have "map_of (live now ?ps) (gs_nodeName g) = None" by (simp add: map_of_eq_None_iff)
  then have "gossip_inv (g\<lparr>gs_peerVersions := live now ?ps, gs_peerCount := int (length (live now ?ps))\<rparr>)"
    using inv ok len by (simp add: gossip_inv_def)
  then show ?thesis using inv by (simp add: checkQuorum_eq Let_def gossip_inv_def)
qed

lemma gossip_step_inv: "gossip_inv g \<Longrightarrow> gossip_inv (gossip_step mac g e)"
proof (cases e)
  case (GsGenTime t)
  then show "gossip_inv g \<Longrightarrow> gossip_inv (gossip_step mac g e)" by (simp add: gossip_step_def UpdateGenTime_def gossip_inv_def)
qed (simp_all add: gossip_step_def gossip_inv_receive gossip_inv_tick)

interpretation gsp: invariant_system "gossip_step mac" "\<lambda>_ _. True" gossip_inv for mac
  by unfold_locales (rule gossip_step_inv)

lemma gossip_inv_New: "gossip_inv (NewConfigGossiper name psk)"
  by (simp add: gossip_inv_def NewConfigGossiper_def maxPeers_def)

lemma gossip_step_frame:
  "gs_nodeName (gossip_step mac g e) = gs_nodeName g \<and> gs_psk (gossip_step mac g e) = gs_psk g" if "gossip_inv g"
proof (cases e)
  case (GsReceive now d)
  then show ?thesis
    by (auto simp: gossip_step_def gossip_receive_def recordPeer_def Let_def intro: handleMessage_cases [of mac now "take 512 d" g])
next
  case (GsTick now now')
  then show ?thesis using that by (simp add: gossip_step_def checkQuorum_eq Let_def)
qed (simp add: gossip_step_def UpdateGenTime_def)

lemma gossip_run_inv: "gossip_inv (run (gossip_step mac) (NewConfigGossiper name psk) es)"
  using gsp.run_inv [OF gossip_inv_New good_run_True] .

lemma gossip_run_frame:
  "gs_nodeName (run (gossip_step mac) (NewConfigGossiper name psk) es) = name \<and>
   gs_psk (run (gossip_step mac) (NewConfigGossiper name psk) es) = psk"
proof (induction es rule: rev_induct)
  case (snoc e es)
  then show ?case using gossip_step_frame [OF gossip_run_inv, of mac mac name psk es e] by (simp add: run_append)
qed (simp add: NewConfigGossiper_def)

text \<open>An entry after a step is an entry of before, or the step received it.\<close>

lemma gossip_step_entry:
  assumes "gossip_inv g" and "map_of (gs_peerVersions (gossip_step mac g e)) p = Some st" and "gs_psk g \<noteq> []"
  shows "map_of (gs_peerVersions g) p = Some st \<or>
    (\<exists>d payload macHex. e = GsReceive (gp_lastSeen st) d \<and> take 512 d = payload @ CHR ''|'' # macHex \<and>
       hexDecode macHex = Some (mac (gs_psk g) payload) \<and> parseAnnouncement payload = Some (p, gp_genTime st))"
proof (cases e)
  case (GsReceive now d)
  show ?thesis
  proof (rule handleMessage_cases [of mac now "take 512 d" g])
    fix q t payload
    assume h: "handleMessage mac now (take 512 d) g = recordPeer now q t g" "authenticate mac (take 512 d) g = Some payload"
      "parseAnnouncement payload = Some (q, t)"
    obtain macHex where "CutLast (CHR ''|'') (take 512 d) = Some (payload, macHex)" "hexDecode macHex = Some (mac (gs_psk g) payload)"
      using h(2) assms(3) by (auto simp: authenticate_def split: option.splits if_splits)
    then have d: "take 512 d = payload @ CHR ''|'' # macHex" "hexDecode macHex = Some (mac (gs_psk g) payload)"
      using CutLast_Some by auto
    have "map_of (gs_peerVersions g) p = Some st \<or> p = q \<and> st = \<lparr>gp_genTime = t, gp_lastSeen = now\<rparr>"
      using assms(2) GsReceive h(1)
      by (simp add: gossip_step_def gossip_receive_def recordPeer_def Let_def update_conv' split: if_splits)
    then show ?thesis
    proof
      assume "p = q \<and> st = \<lparr>gp_genTime = t, gp_lastSeen = now\<rparr>"
      then have "e = GsReceive (gp_lastSeen st) d" "parseAnnouncement payload = Some (p, gp_genTime st)"
        using GsReceive h(3) by simp_all
      then show ?thesis using d by blast
    qed blast
  qed (use assms(2) GsReceive in \<open>simp add: gossip_step_def gossip_receive_def\<close>)
next
  case (GsTick now now')
  have "gm_ok (gs_peerVersions g)" using assms(1) by (simp add: gossip_inv_def)
  then have "map_of (live now (gs_peerVersions g)) p = Some st \<Longrightarrow> map_of (gs_peerVersions g) p = Some st"
    by (auto simp: live_def gm_ok_def dest!: map_of_SomeD intro: map_of_is_SomeI)
  then show ?thesis
    using assms(1,2) GsTick by (auto simp: gossip_step_def checkQuorum_eq Let_def split: if_splits)
qed (use assms(2) in \<open>simp add: gossip_step_def UpdateGenTime_def\<close>)



subsection \<open>Resynchronisation\<close>

lemma lastResync_step:
  assumes "gossip_inv g" and "t \<le> gs_lastResyncTime g"
    and "\<forall>v v'. e = GsTick v v' \<longrightarrow> t \<le> v' \<and> MinInt64 \<le> v' \<and> v' \<le> MaxInt64"
  shows "t \<le> gs_lastResyncTime (gossip_step mac g e)"
proof (cases e)
  case (GsReceive now d)
  then show ?thesis
    using assms(2)
    by (auto simp: gossip_step_def gossip_receive_def recordPeer_def Let_def intro: handleMessage_cases [of mac now "take 512 d" g])
next
  case (GsTick v v')
  then show ?thesis
    using assms by (simp add: gossip_step_def checkQuorum_eq Let_def unix_nano_def wrap64_id)
qed (use assms(2) in \<open>simp add: gossip_step_def UpdateGenTime_def\<close>)

text \<open>
  C27. A resynchronisation is forced exactly when the agent runs a configuration, the cooldown is
  over and more than half of the peers heard from within the last 15 seconds are ahead by more
  than 60 seconds; and after one, whatever happens, the next is at least 30 seconds later.
\<close>
theorem gossip_resync:
  assumes "gossip_inv g"
  shows "(snd (gossip_checkQuorum now now' g) \<longleftrightarrow>
      gs_currentGenTime g \<noteq> 0 \<and> \<not> (gs_lastResyncTime g > 0 \<and> now - gs_lastResyncTime g < sec 30) \<and>
      (let alive = filter (\<lambda>(p, st). now - gp_lastSeen st \<le> sec 15) (gs_peerVersions g)
       in 2 * length (filter (\<lambda>(p, st). gp_genTime st > wrap64 (gs_currentGenTime g + 60)) alive) > length alive)) \<and>
    (snd (gossip_checkQuorum now now' g) \<and> 0 < now' \<and> now' \<le> MaxInt64 \<and>
     (\<forall>v v'. GsTick v v' \<in> set es \<longrightarrow> now' \<le> v' \<and> v' \<le> MaxInt64) \<and>
     snd (gossip_checkQuorum later later' (run (gossip_step mac) (fst (gossip_checkQuorum now now' g)) es)) \<longrightarrow>
     now' + sec 30 \<le> later)"
proof -
  have "\<not> expired now (p, st) \<longleftrightarrow> now - gp_lastSeen st \<le> sec 15" for p st
    using time_sub_gt [of PeerExpiry now "gp_lastSeen st"] by (simp add: expired_def PeerExpiry_def sec_def MaxInt64_def MinInt64_def not_less)
  then have live: "live now ps = filter (\<lambda>(p, st). now - gp_lastSeen st \<le> sec 15) ps" for ps
    unfolding live_def by (intro filter_cong) auto
  have ahead: "ahead t = (\<lambda>(p, st). gp_genTime st > wrap64 (t + 60))" for t by (auto simp: ahead_def GenTimeThreshold_def)
  have later: "now' + sec 30 \<le> later"
    if h: "snd (gossip_checkQuorum now now' g)" "0 < now'" "now' \<le> MaxInt64"
      "\<forall>v v'. GsTick v v' \<in> set es \<longrightarrow> now' \<le> v' \<and> v' \<le> MaxInt64"
      "snd (gossip_checkQuorum later later' (run (gossip_step mac) (fst (gossip_checkQuorum now now' g)) es))"
  proof -
    have "now' \<le> gs_lastResyncTime (run (gossip_step mac) h es) \<and> gossip_inv (run (gossip_step mac) h es)"
      if "now' \<le> gs_lastResyncTime h" "gossip_inv h" for h
      using that h(4)
    proof (induction es arbitrary: h)
      case (Cons e es)
      have "now' \<le> gs_lastResyncTime (gossip_step mac h e)"
        using lastResync_step [OF Cons.prems(2,1), of e mac] Cons.prems(3) \<open>0 < now'\<close> by (force simp: MinInt64_def)
      then show ?case using Cons gossip_step_inv by simp
    qed simp
    moreover have "now' \<le> gs_lastResyncTime (fst (gossip_checkQuorum now now' g))"
      using h(1-3) by (auto simp: checkQuorum_eq [OF assms] Let_def unix_nano_def wrap64_id MinInt64_def split: if_splits)
    ultimately have r: "now' \<le> gs_lastResyncTime (run (gossip_step mac) (fst (gossip_checkQuorum now now' g)) es)"
      "gossip_inv (run (gossip_step mac) (fst (gossip_checkQuorum now now' g)) es)"
      using gossip_inv_tick [OF assms] by blast+
    then show ?thesis
      using h(2,5) by (auto simp: checkQuorum_eq Let_def ResyncCooldown_def split: if_splits)
  qed
  have "snd (gossip_checkQuorum now now' g) \<longleftrightarrow>
      gs_currentGenTime g \<noteq> 0 \<and> \<not> (gs_lastResyncTime g > 0 \<and> now - gs_lastResyncTime g < sec 30) \<and>
      2 * length (filter (ahead (gs_currentGenTime g)) (live now (gs_peerVersions g))) > length (live now (gs_peerVersions g))"
    by (simp add: checkQuorum_eq [OF assms] Let_def ResyncCooldown_def)
  then show ?thesis using later unfolding live ahead Let_def by blast
qed

definition sample_lagging :: ConfigGossiper where
  "sample_lagging = run (gossip_step (\<lambda>_ _. '''')) (NewConfigGossiper ''n2'' '''')
     [GsGenTime 100, GsReceive (sec 1) ''config_version|n1|1000|0'']"

theorem gossip_resync_witness:
  "snd (gossip_checkQuorum (sec 2) (sec 2) sample_lagging) \<and>
   \<not> snd (gossip_checkQuorum (sec 10) (sec 10) (fst (gossip_checkQuorum (sec 2) (sec 2) sample_lagging)))"
proof -
  have inv: "gossip_inv sample_lagging"
    unfolding sample_lagging_def by (rule gsp.run_inv [OF gossip_inv_New good_run_True])
  have c: "snd (gossip_checkQuorum (sec 2) (sec 2) sample_lagging)" by code_simp
  show ?thesis
    using gossip_resync [OF inv, of "sec 2" "sec 2" "[]" "sec 10" "sec 10" "\<lambda>_ _. ''''"] c
    by (auto simp: sec_def MaxInt64_def)
qed

text \<open>
  The timestamp in an announcement is not checked: a datagram that was accepted once is accepted
  again at any later time, with the same authentication code, and sets the recorded generation
  time back to the old value and the peer's last sign of life to the time of the replay.
\<close>
lemma replayed_announcement_accepted:
  assumes "authenticate mac (take 512 d) (NewConfigGossiper name psk) = Some payload"
    and "parseAnnouncement payload = Some (p, old)" and "p \<noteq> name"
    and "map_of (gs_peerVersions (run (gossip_step mac) (NewConfigGossiper name psk) es)) p = Some st"
  shows "map_of (gs_peerVersions (gossip_receive mac now d (run (gossip_step mac) (NewConfigGossiper name psk) es))) p =
    Some \<lparr>gp_genTime = old, gp_lastSeen = now\<rparr>"
proof -
  let ?g = "run (gossip_step mac) (NewConfigGossiper name psk) es"
  have "gs_psk ?g = gs_psk (NewConfigGossiper name psk)" using gossip_run_frame by (simp add: NewConfigGossiper_def)
  then have "authenticate mac (take 512 d) ?g = Some payload" using assms(1) unfolding authenticate_def by (simp only:)
  moreover have "p \<noteq> gs_nodeName ?g" using assms(3) gossip_run_frame by simp
  ultimately show ?thesis
    using assms(2,4) by (simp add: gossip_receive_def handleMessage_def recordPeer_def Let_def update_conv')
qed

end
