(* ===== verification/Agent_Tracker.thy ===== *)
theory Agent_Tracker
  imports Go_Prelude
begin

section \<open>Agents of remote clusters (\<open>internal/controller/snapshot/remote_cluster.go\<close>)\<close>

text \<open>
  The tracker of the agents that connect from remote clusters. Calls of the handler that a remote
  cluster registry installs are collected in \<open>rt_notified\<close>; \<open>time.Now\<close> is an argument.
\<close>

subsection \<open>State and operations\<close>

record RemoteAgentInfo =
  ra_NodeName :: string
  ra_ClusterName :: string
  ra_ClusterRegion :: string
  ra_ClusterZone :: string
  ra_AgentVersion :: string
  ra_Connected :: bool
  ra_Healthy :: bool
  ra_LastSeen :: gotime
  ra_Labels :: "(string, string) gomap"

text \<open>The arguments of \<open>UpdateConnection\<close> after the cluster name: connected, agents, ready agents.\<close>

type_synonym connection = "bool \<times> int \<times> int"

record RemoteAgentTracker =
  rt_agents :: "(string, RemoteAgentInfo) gomap"
  rt_handler :: bool
  rt_notified :: "(string \<times> connection) list"

definition NewRemoteAgentTracker :: RemoteAgentTracker where
  "NewRemoteAgentTracker = \<lparr>rt_agents = [], rt_handler = False, rt_notified = []\<rparr>"

definition SetHandler :: "bool \<Rightarrow> RemoteAgentTracker \<Rightarrow> RemoteAgentTracker" where
  "SetHandler handler t = t\<lparr>rt_handler := handler\<rparr>"

definition rt_key :: "string \<Rightarrow> string \<Rightarrow> string" where
  "rt_key clusterName nodeName = clusterName @ ''/'' @ nodeName"

definition countAgentsForCluster :: "string \<Rightarrow> RemoteAgentTracker \<Rightarrow> int \<times> int" where
  "countAgentsForCluster clusterName t =
     fold (\<lambda>(_, agent) (tot, ready).
             if ra_ClusterName agent = clusterName
             then (wrap32 (tot + 1), if ra_Connected agent \<and> ra_Healthy agent then wrap32 (ready + 1) else ready)
             else (tot, ready)) (rt_agents t) (0, 0)"

definition UpdateConnection :: "string \<Rightarrow> connection \<Rightarrow> RemoteAgentTracker \<Rightarrow> RemoteAgentTracker" where
  "UpdateConnection clusterName c t = (if rt_handler t then t\<lparr>rt_notified := rt_notified t @ [(clusterName, c)]\<rparr> else t)"

definition RegisterAgent :: "RemoteAgentInfo \<Rightarrow> RemoteAgentTracker \<Rightarrow> RemoteAgentTracker" where
  "RegisterAgent info t0 =
     (let t = t0\<lparr>rt_agents := gm_put (rt_key (ra_ClusterName info) (ra_NodeName info)) info (rt_agents t0)\<rparr>;
          (agentCount, readyAgents) = countAgentsForCluster (ra_ClusterName info) t
      in UpdateConnection (ra_ClusterName info) (True, agentCount, readyAgents) t)"

definition UnregisterAgent :: "string \<Rightarrow> string \<Rightarrow> RemoteAgentTracker \<Rightarrow> RemoteAgentTracker" where
  "UnregisterAgent clusterName nodeName t0 =
     (let t = t0\<lparr>rt_agents := gm_del (rt_key clusterName nodeName) (rt_agents t0)\<rparr>;
          (agentCount, readyAgents) = countAgentsForCluster clusterName t
      in UpdateConnection clusterName (agentCount > 0, agentCount, readyAgents) t)"

definition rt_UpdateAgentStatus :: "gotime \<Rightarrow> string \<Rightarrow> string \<Rightarrow> bool \<Rightarrow> RemoteAgentTracker \<Rightarrow> RemoteAgentTracker" where
  "rt_UpdateAgentStatus now clusterName nodeName healthy t0 =
     (let key = rt_key clusterName nodeName
      in case map_of (rt_agents t0) key of
           None \<Rightarrow> t0
         | Some agent \<Rightarrow>
             (let t = t0\<lparr>rt_agents := gm_put key (agent\<lparr>ra_Healthy := healthy, ra_LastSeen := now\<rparr>) (rt_agents t0)\<rparr>;
                  (agentCount, readyAgents) = countAgentsForCluster clusterName t
              in UpdateConnection clusterName (True, agentCount, readyAgents) t))"

definition GetAgentsForCluster :: "string \<Rightarrow> RemoteAgentTracker \<Rightarrow> RemoteAgentInfo list" where
  "GetAgentsForCluster clusterName t =
     fold (\<lambda>(_, agent) result. if ra_ClusterName agent = clusterName then result @ [agent] else result) (rt_agents t) []"

definition GetAllRemoteClusters :: "RemoteAgentTracker \<Rightarrow> string list" where
  "GetAllRemoteClusters t =
     gm_keys (fold (\<lambda>(_, agent) set. if ra_ClusterName agent \<noteq> [] then gm_put (ra_ClusterName agent) () set else set)
       (rt_agents t) [])"

definition GetClusterStats :: "string \<Rightarrow> RemoteAgentTracker \<Rightarrow> int \<times> int" where
  "GetClusterStats clusterName t = countAgentsForCluster clusterName t"

text \<open>One agent of \<open>CleanupStaleAgents\<close>: the agents and the clusters to update.\<close>

definition cleanup_agent ::
  "gotime \<Rightarrow> duration \<Rightarrow> string \<times> RemoteAgentInfo \<Rightarrow> (string, RemoteAgentInfo) gomap \<times> (string, unit) gomap
   \<Rightarrow> (string, RemoteAgentInfo) gomap \<times> (string, unit) gomap" where
  "cleanup_agent now maxAge entry st =
     (case (entry, st) of ((key, agent), (agents, clusters)) \<Rightarrow>
        if time_sub now (ra_LastSeen agent) > maxAge
        then
          (let (agents, clusters) =
                 (if ra_Connected agent
                  then (gm_put key (agent\<lparr>ra_Connected := False\<rparr>) agents, gm_put (ra_ClusterName agent) () clusters)
                  else (agents, clusters))
           in if time_sub now (ra_LastSeen agent) > wrap64 (maxAge * 3)
              then (gm_del key agents, gm_put (ra_ClusterName agent) () clusters)
              else (agents, clusters))
        else (agents, clusters))"

definition rt_CleanupStaleAgents :: "gotime \<Rightarrow> duration \<Rightarrow> RemoteAgentTracker \<Rightarrow> RemoteAgentTracker" where
  "rt_CleanupStaleAgents now maxAge t0 =
     (let (agents, clustersToUpdate) = fold (cleanup_agent now maxAge) (rt_agents t0) (rt_agents t0, []);
          t = t0\<lparr>rt_agents := agents\<rparr>
      in fold (\<lambda>clusterName t.
                 let (agentCount, readyAgents) = countAgentsForCluster clusterName t
                 in UpdateConnection clusterName (agentCount > 0, agentCount, readyAgents) t)
           (gm_keys clustersToUpdate) t)"

subsection \<open>What the handler was told\<close>

definition in_cluster :: "string \<Rightarrow> string \<times> RemoteAgentInfo \<Rightarrow> bool" where
  "in_cluster c e \<longleftrightarrow> ra_ClusterName (snd e) = c"

definition ready_in :: "string \<Rightarrow> string \<times> RemoteAgentInfo \<Rightarrow> bool" where
  "ready_in c e \<longleftrightarrow> in_cluster c e \<and> ra_Connected (snd e) \<and> ra_Healthy (snd e)"

text \<open>The connection of a cluster as the agents determine it, and as the handler was last told.\<close>

definition cluster_view :: "(string, RemoteAgentInfo) gomap \<Rightarrow> string \<Rightarrow> connection" where
  "cluster_view agents c =
     (filter (in_cluster c) agents \<noteq> [], int (length (filter (in_cluster c) agents)), int (length (filter (ready_in c) agents)))"

definition reported :: "RemoteAgentTracker \<Rightarrow> string \<Rightarrow> connection" where
  "reported t c = (case map_of (rev (rt_notified t)) c of None \<Rightarrow> (False, 0, 0) | Some v \<Rightarrow> v)"

definition agents_ok :: "(string, RemoteAgentInfo) gomap \<Rightarrow> bool" where
  "agents_ok agents \<longleftrightarrow> gm_ok agents \<and> length agents < 2 ^ 31 \<and>
     gm_all (\<lambda>k a. k = rt_key (ra_ClusterName a) (ra_NodeName a) \<and> CHR ''/'' \<notin> set (ra_ClusterName a)) agents"

definition tracker_inv :: "RemoteAgentTracker \<Rightarrow> bool" where
  "tracker_inv t \<longleftrightarrow> agents_ok (rt_agents t) \<and> rt_handler t \<and> (\<forall>c. reported t c = cluster_view (rt_agents t) c)"

lemma count_fold:
  assumes "0 \<le> a" and "0 \<le> b" and "a + int (length es) < 2 ^ 31" and "b + int (length es) < 2 ^ 31"
  shows "fold (\<lambda>(_, agent) (tot, ready).
      if ra_ClusterName agent = c
      then (wrap32 (tot + 1), if ra_Connected agent \<and> ra_Healthy agent then wrap32 (ready + 1) else ready)
      else (tot, ready)) es (a, b) = (a + int (length (filter (in_cluster c) es)), b + int (length (filter (ready_in c) es)))"
  using assms by (induction es arbitrary: a b) (auto simp: in_cluster_def ready_in_def wrap32_id MinInt32_def MaxInt32_def)

lemma count_eq:
  "agents_ok (rt_agents t) \<Longrightarrow>
   countAgentsForCluster c t = (int (length (filter (in_cluster c) (rt_agents t))), int (length (filter (ready_in c) (rt_agents t))))"
  unfolding countAgentsForCluster_def using count_fold [of 0 0 "rt_agents t" c] by (simp add: agents_ok_def)

lemma rt_key_inj:
  "CHR ''/'' \<notin> set c \<Longrightarrow> CHR ''/'' \<notin> set c' \<Longrightarrow> rt_key c n = rt_key c' n' \<longleftrightarrow> c = c' \<and> n = n'"
proof (induction c arbitrary: c')
  case Nil
  then show ?case by (cases c') (auto simp: rt_key_def)
next
  case (Cons x c)
  then show ?case by (cases c') (auto simp: rt_key_def)
qed

lemma reported_Update:
  "rt_handler t \<Longrightarrow> reported (UpdateConnection c v t) c' = (if c' = c then v else reported t c')"
  by (simp add: reported_def UpdateConnection_def)

lemma UpdateConnection_frame [simp]:
  "rt_agents (UpdateConnection c v t) = rt_agents t" "rt_handler (UpdateConnection c v t) = rt_handler t"
  by (simp_all add: UpdateConnection_def)

text \<open>A step that changes the agents of one cluster and reports that cluster keeps the invariant.\<close>

lemma tracker_inv_report:
  assumes "tracker_inv t" and "agents_ok agents" and "\<And>c'. c' \<noteq> c \<Longrightarrow> cluster_view agents c' = cluster_view (rt_agents t) c'"
    and "conn = (filter (in_cluster c) agents \<noteq> [])" and "countAgentsForCluster c (t\<lparr>rt_agents := agents\<rparr>) = (n, m)"
  shows "tracker_inv (UpdateConnection c (conn, n, m) (t\<lparr>rt_agents := agents\<rparr>))"
proof -
  have "(n, m) = (int (length (filter (in_cluster c) agents)), int (length (filter (ready_in c) agents)))"
    using count_eq [of "t\<lparr>rt_agents := agents\<rparr>" c] assms(2,5) by simp
  then have "(conn, n, m) = cluster_view agents c" using assms(4) by (simp add: cluster_view_def)
  moreover have "reported (t\<lparr>rt_agents := agents\<rparr>) = reported t" by (simp add: reported_def fun_eq_iff)
  ultimately show ?thesis using assms(1-3) by (auto simp: tracker_inv_def reported_Update)
qed

lemma agents_ok_entry:
  "agents_ok agents \<Longrightarrow> map_of agents k = Some a \<Longrightarrow> k = rt_key (ra_ClusterName a) (ra_NodeName a) \<and> CHR ''/'' \<notin> set (ra_ClusterName a)"
  unfolding agents_ok_def by (elim conjE) (drule (1) gm_all_lookup)

lemma agents_ok_mem:
  "agents_ok agents \<Longrightarrow> (k, a) \<in> set agents \<Longrightarrow> k = rt_key (ra_ClusterName a) (ra_NodeName a) \<and> CHR ''/'' \<notin> set (ra_ClusterName a)"
  using agents_ok_entry gm_mem_iff by (metis agents_ok_def)

lemma other_cluster:
  assumes "agents_ok agents" and "CHR ''/'' \<notin> set c" and "c' \<noteq> c" and "(rt_key c n, a) \<in> set agents"
  shows "\<not> in_cluster c' (rt_key c n, a)" and "\<not> ready_in c' (rt_key c n, a)"
  using agents_ok_mem [OF assms(1,4)] rt_key_inj [OF assms(2)] assms(3) by (auto simp: in_cluster_def ready_in_def)

lemma view_put:
  assumes "agents_ok agents" and "CHR ''/'' \<notin> set c" and "ra_ClusterName a = c" and "c' \<noteq> c"
  shows "cluster_view (gm_put (rt_key c n) a agents) c' = cluster_view agents c'"
proof -
  have "\<not> in_cluster c' (rt_key c n, a)" "\<not> ready_in c' (rt_key c n, a)" using assms(3,4) by (auto simp: in_cluster_def ready_in_def)
  then have "filter (in_cluster c') (gm_put (rt_key c n) a agents) = filter (in_cluster c') agents"
    "filter (ready_in c') (gm_put (rt_key c n) a agents) = filter (ready_in c') agents"
    using other_cluster [OF assms(1,2,4)] by (simp_all add: gm_filter_put)
  then show ?thesis by (simp only: cluster_view_def)
qed

lemma view_del:
  assumes "agents_ok agents" and "CHR ''/'' \<notin> set c" and "c' \<noteq> c"
  shows "cluster_view (gm_del (rt_key c n) agents) c' = cluster_view agents c'"
proof -
  have "filter (in_cluster c') (gm_del (rt_key c n) agents) = filter (in_cluster c') agents"
    "filter (ready_in c') (gm_del (rt_key c n) agents) = filter (ready_in c') agents"
    using other_cluster [OF assms] by (simp_all add: gm_filter_del)
  then show ?thesis by (simp only: cluster_view_def)
qed

lemma agents_ok_put:
  assumes "agents_ok agents" and "CHR ''/'' \<notin> set (ra_ClusterName a)"
    and "map_of agents (rt_key (ra_ClusterName a) (ra_NodeName a)) \<noteq> None \<or> length agents + 1 < 2 ^ 31"
  shows "agents_ok (gm_put (rt_key (ra_ClusterName a) (ra_NodeName a)) a agents)"
  using assms by (auto simp: agents_ok_def gm_length_put)

lemma agents_ok_del: "agents_ok agents \<Longrightarrow> agents_ok (gm_del k agents)"
  using length_delete_le [of k agents] by (auto simp: agents_ok_def)

lemma put_in_cluster: "ra_ClusterName a = c \<Longrightarrow> filter (in_cluster c) (gm_put k a m) \<noteq> []"
  by (induction m) (auto simp: in_cluster_def)

lemma tracker_inv_Register:
  assumes "tracker_inv t" and "CHR ''/'' \<notin> set (ra_ClusterName info)" and "length (rt_agents t) + 1 < 2 ^ 31"
  shows "tracker_inv (RegisterAgent info t)"
proof -
  let ?agents = "gm_put (rt_key (ra_ClusterName info) (ra_NodeName info)) info (rt_agents t)"
  have ok: "agents_ok (rt_agents t)" "agents_ok ?agents" using assms agents_ok_put by (auto simp: tracker_inv_def)
  obtain n m where c: "countAgentsForCluster (ra_ClusterName info) (t\<lparr>rt_agents := ?agents\<rparr>) = (n, m)" by fastforce
  have "tracker_inv (UpdateConnection (ra_ClusterName info) (True, n, m) (t\<lparr>rt_agents := ?agents\<rparr>))"
    using assms(1) ok(2) _ _ c
    by (rule tracker_inv_report) (use view_put [OF ok(1) assms(2) refl] put_in_cluster [OF refl] in auto)
  then show ?thesis by (simp add: RegisterAgent_def c)
qed

lemma tracker_inv_Unregister:
  assumes "tracker_inv t" and "CHR ''/'' \<notin> set c"
  shows "tracker_inv (UnregisterAgent c n t)"
proof -
  let ?agents = "gm_del (rt_key c n) (rt_agents t)"
  have ok: "agents_ok (rt_agents t)" "agents_ok ?agents" using assms agents_ok_del by (auto simp: tracker_inv_def)
  obtain k m where c: "countAgentsForCluster c (t\<lparr>rt_agents := ?agents\<rparr>) = (k, m)" by fastforce
  then have "k = int (length (filter (in_cluster c) ?agents))" using count_eq [of "t\<lparr>rt_agents := ?agents\<rparr>" c] ok(2) by simp
  then have k: "(0 < k) = (filter (in_cluster c) ?agents \<noteq> [])" by simp
  have "tracker_inv (UpdateConnection c (0 < k, k, m) (t\<lparr>rt_agents := ?agents\<rparr>))"
    using assms(1) ok(2) _ k c by (rule tracker_inv_report) (rule view_del [OF ok(1) assms(2)])
  then show ?thesis by (simp add: UnregisterAgent_def c)
qed

lemma tracker_inv_Status:
  assumes "tracker_inv t" and "CHR ''/'' \<notin> set c"
  shows "tracker_inv (rt_UpdateAgentStatus now c n h t)"
proof (cases "map_of (rt_agents t) (rt_key c n)")
  case None
  then show ?thesis using assms(1) by (simp add: rt_UpdateAgentStatus_def)
next
  case (Some a)
  have ok: "agents_ok (rt_agents t)" using assms(1) by (simp add: tracker_inv_def)
  have a: "ra_ClusterName a = c" "ra_NodeName a = n"
    using agents_ok_entry [OF ok Some] rt_key_inj [OF assms(2), of "ra_ClusterName a" n "ra_NodeName a"] by simp_all
  let ?a = "a\<lparr>ra_Healthy := h, ra_LastSeen := now\<rparr>"
  let ?agents = "gm_put (rt_key c n) ?a (rt_agents t)"
  have ok': "agents_ok ?agents" using agents_ok_put [OF ok, of ?a] assms(2) Some a by simp
  obtain k m where k: "countAgentsForCluster c (t\<lparr>rt_agents := ?agents\<rparr>) = (k, m)" by fastforce
  have "tracker_inv (UpdateConnection c (True, k, m) (t\<lparr>rt_agents := ?agents\<rparr>))"
    using assms(1) ok' _ _ k
    by (rule tracker_inv_report) (use view_put [OF ok assms(2), of ?a] put_in_cluster [of ?a c] a in auto)
  then show ?thesis by (simp add: rt_UpdateAgentStatus_def Some k)
qed

text \<open>The loop of \<open>CleanupStaleAgents\<close>: what becomes of an agent, and which clusters are told.\<close>

definition stale :: "gotime \<Rightarrow> duration \<Rightarrow> RemoteAgentInfo \<Rightarrow> bool" where
  "stale now maxAge a \<longleftrightarrow> time_sub now (ra_LastSeen a) > maxAge"

definition gone :: "gotime \<Rightarrow> duration \<Rightarrow> RemoteAgentInfo \<Rightarrow> bool" where
  "gone now maxAge a \<longleftrightarrow> stale now maxAge a \<and> time_sub now (ra_LastSeen a) > wrap64 (maxAge * 3)"

definition cleaned :: "gotime \<Rightarrow> duration \<Rightarrow> string \<times> RemoteAgentInfo \<Rightarrow> (string \<times> RemoteAgentInfo) list" where
  "cleaned now maxAge e =
     (if gone now maxAge (snd e) then []
      else [(fst e, if stale now maxAge (snd e) then (snd e)\<lparr>ra_Connected := False\<rparr> else snd e)])"

definition touched :: "gotime \<Rightarrow> duration \<Rightarrow> RemoteAgentInfo \<Rightarrow> bool" where
  "touched now maxAge a \<longleftrightarrow> stale now maxAge a \<and> (ra_Connected a \<or> gone now maxAge a)"

lemma cleanup_step:
  assumes "k \<notin> fst ` set xs" and "k \<notin> fst ` set ys"
  shows "cleanup_agent now maxAge (k, a) (xs @ (k, a) # ys, cl) =
    (xs @ cleaned now maxAge (k, a) @ ys, if touched now maxAge a then gm_put (ra_ClusterName a) () cl else cl)"
proof -
  have "gm_put k (a\<lparr>ra_Connected := False\<rparr>) (xs @ (k, a) # ys) = xs @ (k, a\<lparr>ra_Connected := False\<rparr>) # ys"
    using assms(1) by (rule gm_put_mid)
  moreover have "gm_del k (xs @ (k, b) # ys) = xs @ ys" for b using assms by (rule gm_del_mid)
  moreover have "gm_put c () (gm_put c () cl) = gm_put c () cl" for c by (induction cl) auto
  moreover have "\<not> ra_Connected a \<Longrightarrow> a\<lparr>ra_Connected := False\<rparr> = a" by simp
  ultimately show ?thesis
    by (auto simp: cleanup_agent_def cleaned_def touched_def gone_def stale_def)
qed

lemma cleanup_fold_agents:
  assumes "gm_ok (xs @ es)"
  shows "fst (fold (cleanup_agent now maxAge) es (xs @ es, cl)) = xs @ concat (map (cleaned now maxAge) es)"
    and "fst ` set (snd (fold (cleanup_agent now maxAge) es (xs @ es, cl))) =
      fst ` set cl \<union> ra_ClusterName ` {a \<in> snd ` set es. touched now maxAge a}"
proof -
  have "fst (fold (cleanup_agent now maxAge) es (xs @ es, cl)) = xs @ concat (map (cleaned now maxAge) es) \<and>
    fst ` set (snd (fold (cleanup_agent now maxAge) es (xs @ es, cl))) =
      fst ` set cl \<union> ra_ClusterName ` {a \<in> snd ` set es. touched now maxAge a}"
    using assms
  proof (induction es arbitrary: xs cl)
    case (Cons e es)
    obtain k a where e: "e = (k, a)" by (cases e)
    have k: "k \<notin> fst ` set xs" "k \<notin> fst ` set es" using Cons.prems by (auto simp: e gm_ok_def)
    have "gm_ok ((xs @ cleaned now maxAge e) @ es)" using Cons.prems by (auto simp: e gm_ok_def cleaned_def)
    from Cons.IH [OF this, of "if touched now maxAge a then gm_put (ra_ClusterName a) () cl else cl"]
    show ?case using cleanup_step [OF k, of now maxAge a cl] by (auto simp: e)
  qed simp
  then show "fst (fold (cleanup_agent now maxAge) es (xs @ es, cl)) = xs @ concat (map (cleaned now maxAge) es)"
    and "fst ` set (snd (fold (cleanup_agent now maxAge) es (xs @ es, cl))) =
      fst ` set cl \<union> ra_ClusterName ` {a \<in> snd ` set es. touched now maxAge a}"
    by blast+
qed

lemma cleaned_map:
  "concat (map (cleaned now maxAge) es) =
   map (\<lambda>e. (fst e, if stale now maxAge (snd e) then (snd e)\<lparr>ra_Connected := False\<rparr> else snd e))
     (filter (\<lambda>e. \<not> gone now maxAge (snd e)) es)"
  by (induction es) (auto simp: cleaned_def)

lemma agents_ok_cleaned:
  assumes "agents_ok agents"
  shows "agents_ok (concat (map (cleaned now maxAge) agents))"
proof -
  have "length (filter (\<lambda>e. \<not> gone now maxAge (snd e)) agents) < 2 ^ 31"
    using assms by (intro le_less_trans [OF length_filter_le]) (simp add: agents_ok_def)
  then show ?thesis
    using assms unfolding cleaned_map
    by (auto simp: agents_ok_def gm_ok_def gm_all_def list_all_iff comp_def distinct_map_filter)
qed

lemma view_cleaned:
  assumes "\<forall>e \<in> set agents. in_cluster c e \<longrightarrow> \<not> touched now maxAge (snd e)"
  shows "cluster_view (concat (map (cleaned now maxAge) agents)) c = cluster_view agents c"
proof -
  have "filter (in_cluster c) (concat (map (cleaned now maxAge) agents)) = filter (in_cluster c) agents \<and>
    filter (ready_in c) (concat (map (cleaned now maxAge) agents)) = filter (ready_in c) agents"
    using assms by (induction agents) (auto simp: cleaned_def touched_def gone_def in_cluster_def ready_in_def)
  then show ?thesis by (simp add: cluster_view_def)
qed

lemma report_fold:
  assumes "agents_ok (rt_agents t)" and "rt_handler t"
  shows "reported (fold (\<lambda>clusterName t.
      let (agentCount, readyAgents) = countAgentsForCluster clusterName t
      in UpdateConnection clusterName (agentCount > 0, agentCount, readyAgents) t) cs t) c =
      (if c \<in> set cs then cluster_view (rt_agents t) c else reported t c) \<and>
    rt_agents (fold (\<lambda>clusterName t.
      let (agentCount, readyAgents) = countAgentsForCluster clusterName t
      in UpdateConnection clusterName (agentCount > 0, agentCount, readyAgents) t) cs t) = rt_agents t \<and>
    rt_handler (fold (\<lambda>clusterName t.
      let (agentCount, readyAgents) = countAgentsForCluster clusterName t
      in UpdateConnection clusterName (agentCount > 0, agentCount, readyAgents) t) cs t)"
  using assms
  by (induction cs arbitrary: t) (auto simp: count_eq cluster_view_def reported_Update)

lemma tracker_inv_Cleanup:
  assumes "tracker_inv t"
  shows "tracker_inv (rt_CleanupStaleAgents now maxAge t)"
proof -
  let ?agents = "concat (map (cleaned now maxAge) (rt_agents t))" and ?t = "t\<lparr>rt_agents := concat (map (cleaned now maxAge) (rt_agents t))\<rparr>"
  obtain cl where f: "fold (cleanup_agent now maxAge) (rt_agents t) (rt_agents t, []) = (?agents, cl)"
    and cl: "fst ` set cl = ra_ClusterName ` {a \<in> snd ` set (rt_agents t). touched now maxAge a}"
    using cleanup_fold_agents [of "[]" "rt_agents t" now maxAge "[]"] assms
    by (cases "fold (cleanup_agent now maxAge) (rt_agents t) (rt_agents t, [])") (simp add: tracker_inv_def agents_ok_def)
  have ok: "agents_ok (rt_agents ?t)" "rt_handler ?t"
    using assms agents_ok_cleaned by (simp_all add: tracker_inv_def)
  have r: "reported ?t c = cluster_view (rt_agents t) c" for c
    using assms by (simp add: tracker_inv_def reported_def)
  have "cluster_view ?agents c = cluster_view (rt_agents t) c" if "c \<notin> fst ` set cl" for c
    using that unfolding cl by (intro view_cleaned) (auto simp: in_cluster_def)
  then show ?thesis
    using report_fold [OF ok, of "gm_keys cl"] ok(1) r by (simp add: rt_CleanupStaleAgents_def f tracker_inv_def)
qed

datatype tracker_event =
    RtRegister RemoteAgentInfo
  | RtUnregister string string
  | RtStatus gotime string string bool
  | RtCleanup gotime duration

definition tracker_step :: "RemoteAgentTracker \<Rightarrow> tracker_event \<Rightarrow> RemoteAgentTracker" where
  "tracker_step t e =
     (case e of
        RtRegister info \<Rightarrow> RegisterAgent info t
      | RtUnregister c n \<Rightarrow> UnregisterAgent c n t
      | RtStatus now c n h \<Rightarrow> rt_UpdateAgentStatus now c n h t
      | RtCleanup now maxAge \<Rightarrow> rt_CleanupStaleAgents now maxAge t)"

text \<open>Cluster names have no slash, and the number of agents fits an \<open>int32\<close>.\<close>

definition tracker_good :: "RemoteAgentTracker \<Rightarrow> tracker_event \<Rightarrow> bool" where
  "tracker_good t e \<longleftrightarrow>
     (case e of
        RtRegister info \<Rightarrow> CHR ''/'' \<notin> set (ra_ClusterName info) \<and> int (length (rt_agents t)) + 1 < 2 ^ 31
      | RtUnregister c n \<Rightarrow> CHR ''/'' \<notin> set c
      | RtStatus now c n h \<Rightarrow> CHR ''/'' \<notin> set c
      | RtCleanup now maxAge \<Rightarrow> True)"

lemma tracker_step_inv: "tracker_inv t \<Longrightarrow> tracker_good t e \<Longrightarrow> tracker_inv (tracker_step t e)"
  by (cases e)
    (simp_all add: tracker_step_def tracker_good_def tracker_inv_Register tracker_inv_Unregister tracker_inv_Status tracker_inv_Cleanup)

interpretation trk: invariant_system tracker_step tracker_good tracker_inv
  by unfold_locales (rule tracker_step_inv)

lemma tracker_inv_New: "tracker_inv (SetHandler True NewRemoteAgentTracker)"
  by (simp add: tracker_inv_def agents_ok_def SetHandler_def NewRemoteAgentTracker_def reported_def cluster_view_def)

text \<open>
  C33. The registry of remote clusters is never out of date: after every sequence of registrations,
  disconnections, status reports and cleanups, what the handler was told last about a cluster
  (connected, number of agents, number of ready agents) is exactly what the agents of that cluster
  determine, and a cluster about which it was told nothing has no agents.
\<close>
theorem registry_is_current:
  assumes "good_run tracker_step tracker_good (SetHandler True NewRemoteAgentTracker) es"
  shows "let t = run tracker_step (SetHandler True NewRemoteAgentTracker) es;
             total = int (length (filter (\<lambda>(k, a). ra_ClusterName a = c) (rt_agents t)));
             ready = int (length (filter (\<lambda>(k, a). ra_ClusterName a = c \<and> ra_Connected a \<and> ra_Healthy a) (rt_agents t)))
         in GetClusterStats c t = (total, ready) \<and>
            (case map_of (rev (rt_notified t)) c of
               None \<Rightarrow> total = 0
             | Some told \<Rightarrow> told = (total > 0, total, ready))"
proof -
  let ?t = "run tracker_step (SetHandler True NewRemoteAgentTracker) es"
  have inv: "tracker_inv ?t" using tracker_inv_New assms by (rule trk.run_inv)
  have f: "in_cluster c = (\<lambda>(k, a). ra_ClusterName a = c)" "ready_in c = (\<lambda>(k, a). ra_ClusterName a = c \<and> ra_Connected a \<and> ra_Healthy a)"
    by (auto simp: in_cluster_def ready_in_def fun_eq_iff)
  have "GetClusterStats c ?t = (int (length (filter (in_cluster c) (rt_agents ?t))), int (length (filter (ready_in c) (rt_agents ?t))))"
    using inv count_eq by (simp add: GetClusterStats_def tracker_inv_def)
  moreover have "reported ?t c = cluster_view (rt_agents ?t) c" using inv by (simp add: tracker_inv_def)
  ultimately show ?thesis
    unfolding Let_def f reported_def cluster_view_def by (auto split: option.splits)
qed

definition sample_agent :: "string \<Rightarrow> RemoteAgentInfo" where
  "sample_agent node = \<lparr>ra_NodeName = node, ra_ClusterName = ''edge'', ra_ClusterRegion = [], ra_ClusterZone = [],
     ra_AgentVersion = ''v1'', ra_Connected = True, ra_Healthy = True, ra_LastSeen = 0, ra_Labels = []\<rparr>"

theorem registry_is_current_witness:
  "let t = run tracker_step (SetHandler True NewRemoteAgentTracker)
         [RtRegister (sample_agent ''n1''), RtRegister (sample_agent ''n2''), RtStatus 5 ''edge'' ''n2'' False]
   in GetClusterStats ''edge'' t = (2, 1) \<and> map_of (rev (rt_notified t)) ''edge'' = Some (True, 2, 1)"
proof -
  let ?es = "[RtRegister (sample_agent ''n1''), RtRegister (sample_agent ''n2''), RtStatus 5 ''edge'' ''n2'' False]"
  let ?t = "run tracker_step (SetHandler True NewRemoteAgentTracker) ?es"
  have "good_run tracker_step tracker_good (SetHandler True NewRemoteAgentTracker) ?es" by code_simp
  note c = registry_is_current [OF this, of "''edge''", unfolded Let_def]
  moreover have "GetClusterStats ''edge'' ?t = (2, 1)" "map_of (rev (rt_notified ?t)) ''edge'' \<noteq> None" by code_simp+
  ultimately show ?thesis unfolding Let_def by auto
qed

end
