(* ===== verification/Snapshot_Meta.thy ===== *)
theory Snapshot_Meta
  imports Fed_Convergence Go_Strings
begin

section \<open>Federation metadata of snapshots (\<open>internal/controller/federation/snapshot_integration.go\<close>)\<close>

text \<open>
  The enhancer that stamps configuration snapshots with a vector clock, a sequence number and a
  content hash, the comparison of snapshots, and the extraction of the resource changes between
  two snapshots. A resource is its namespace, its name and the rest of its message; protobuf
  encoding and SHA-256 are the parameters of \<open>snap_env\<close>.
\<close>

subsection \<open>State and operations\<close>

record namespacedResource =
  nr_Namespace :: string
  nr_Name :: string
  nr_Body :: bytes

record FederationMetadata =
  md_VectorClock :: "(string, int) gomap"
  md_FederationId :: string
  md_OriginController :: string
  md_ContentHash :: string
  md_SequenceNumber :: int
  md_FromFederation :: bool

record ControllerEndpoint =
  ct_Name :: string
  ct_Endpoint :: string
  ct_Priority :: int
  ct_Region :: string
  ct_Zone :: string
  ct_Healthy :: bool
  ct_VectorClock :: "(string, int) gomap"

record ControllerInfo =
  cn_Name :: string
  cn_Endpoint :: string
  cn_Priority :: int
  cn_Region :: string
  cn_Zone :: string
  cn_Healthy :: bool
  cn_VectorClock :: "(string, int) gomap"

text \<open>\<open>cs_Other\<close> stands for the fields of the message that this file neither reads nor writes.\<close>

record ConfigSnapshot =
  cs_Version :: string
  cs_Gateways :: "namespacedResource list"
  cs_Routes :: "namespacedResource list"
  cs_Clusters :: "namespacedResource list"
  cs_Policies :: "namespacedResource list"
  cs_FederationMetadata :: "FederationMetadata option"
  cs_AvailableControllers :: "ControllerInfo list"
  cs_Other :: bytes

record snap_env =
  se_marshalSnapshot :: "ConfigSnapshot \<Rightarrow> bytes option"
  se_marshal :: "namespacedResource \<Rightarrow> bytes"
  se_sha256 :: "bytes \<Rightarrow> bytes"

record SnapshotEnhancer =
  sn_federationID :: string
  sn_controllerName :: string
  sn_vectorClock :: VectorClock
  sn_sequenceNumber :: int
  sn_controllers :: "ControllerEndpoint list"

definition NewSnapshotEnhancer :: "string \<Rightarrow> string \<Rightarrow> SnapshotEnhancer" where
  "NewSnapshotEnhancer federationID controllerName =
     \<lparr>sn_federationID = federationID, sn_controllerName = controllerName, sn_vectorClock = NewVectorClock,
      sn_sequenceNumber = 0, sn_controllers = []\<rparr>"

definition SetVectorClock :: "VectorClock \<Rightarrow> SnapshotEnhancer \<Rightarrow> SnapshotEnhancer" where
  "SetVectorClock vc e = e\<lparr>sn_vectorClock := vc\<rparr>"

definition UpdateControllers :: "ControllerEndpoint list \<Rightarrow> SnapshotEnhancer \<Rightarrow> SnapshotEnhancer" where
  "UpdateControllers controllers e = e\<lparr>sn_controllers := controllers\<rparr>"

definition calculateContentHash :: "snap_env \<Rightarrow> ConfigSnapshot \<Rightarrow> string" where
  "calculateContentHash env snapshot =
     (case se_marshalSnapshot env
             (snapshot\<lparr>cs_FederationMetadata := None, cs_AvailableControllers := [], cs_Version := ''''\<rparr>) of
        None \<Rightarrow> ''''
      | Some data \<Rightarrow> hexEncode (take 16 (se_sha256 env data)))"

definition controllerInfo :: "ControllerEndpoint \<Rightarrow> ControllerInfo" where
  "controllerInfo ctrl =
     \<lparr>cn_Name = ct_Name ctrl, cn_Endpoint = ct_Endpoint ctrl, cn_Priority = ct_Priority ctrl, cn_Region = ct_Region ctrl,
      cn_Zone = ct_Zone ctrl, cn_Healthy = ct_Healthy ctrl, cn_VectorClock = ct_VectorClock ctrl\<rparr>"

definition EnhanceSnapshot ::
  "snap_env \<Rightarrow> ConfigSnapshot option \<Rightarrow> bool \<Rightarrow> SnapshotEnhancer \<Rightarrow> SnapshotEnhancer \<times> ConfigSnapshot option" where
  "EnhanceSnapshot env snapshot fromFederation e0 =
     (case snapshot of
        None \<Rightarrow> (e0, None)
      | Some snap \<Rightarrow>
          (let e1 = e0\<lparr>sn_sequenceNumber := wrap64 (sn_sequenceNumber e0 + 1)\<rparr>;
               e = (if fromFederation then e1
                    else e1\<lparr>sn_vectorClock := fst (vc_Increment (sn_controllerName e1) (sn_vectorClock e1))\<rparr>);
               metadata = \<lparr>md_VectorClock = vc_ToMap (sn_vectorClock e), md_FederationId = sn_federationID e,
                 md_OriginController = sn_controllerName e, md_ContentHash = calculateContentHash env snap,
                 md_SequenceNumber = sn_sequenceNumber e, md_FromFederation = fromFederation\<rparr>
           in (e, Some (snap\<lparr>cs_FederationMetadata := Some metadata,
                             cs_AvailableControllers := map controllerInfo (sn_controllers e)\<rparr>))))"

definition sn_MergeVectorClock :: "(string, int) gomap \<Rightarrow> SnapshotEnhancer \<Rightarrow> SnapshotEnhancer" where
  "sn_MergeVectorClock incoming e = e\<lparr>sn_vectorClock := vc_MergeMap incoming (sn_vectorClock e)\<rparr>"

definition sn_GetVectorClock :: "SnapshotEnhancer \<Rightarrow> (string, int) gomap" where
  "sn_GetVectorClock e = vc_ToMap (sn_vectorClock e)"

text \<open>A nil snapshot and a snapshot without metadata are treated alike.\<close>

definition metadata_of :: "ConfigSnapshot option \<Rightarrow> FederationMetadata option" where
  "metadata_of s = (case s of None \<Rightarrow> None | Some x \<Rightarrow> cs_FederationMetadata x)"

definition CompareSnapshots :: "ConfigSnapshot option \<Rightarrow> ConfigSnapshot option \<Rightarrow> int" where
  "CompareSnapshots a b =
     (case (metadata_of a, metadata_of b) of
        (None, None) \<Rightarrow> 0
      | (None, Some _) \<Rightarrow> - 1
      | (Some _, None) \<Rightarrow> 1
      | (Some ma, Some mb) \<Rightarrow>
          vc_Compare (NewVectorClockFromMap (md_VectorClock ma)) (Some (NewVectorClockFromMap (md_VectorClock mb))))"

definition IsNewerSnapshot :: "ConfigSnapshot option \<Rightarrow> ConfigSnapshot option \<Rightarrow> bool" where
  "IsNewerSnapshot a b \<longleftrightarrow> CompareSnapshots a b = 1"

definition SnapshotsAreConcurrent :: "ConfigSnapshot option \<Rightarrow> ConfigSnapshot option \<Rightarrow> bool" where
  "SnapshotsAreConcurrent a b \<longleftrightarrow> CompareSnapshots a b = 0"

definition SnapshotNeedsSync :: "ConfigSnapshot option \<Rightarrow> (string, int) gomap \<Rightarrow> bool" where
  "SnapshotNeedsSync snapshot peerVectorClock =
     (case metadata_of snapshot of
        None \<Rightarrow> False
      | Some m \<Rightarrow> vc_Compare (NewVectorClockFromMap (md_VectorClock m)) (Some (NewVectorClockFromMap peerVectorClock)) \<ge> 0)"

subsection \<open>Changes between snapshots\<close>

definition resourceKey :: "namespacedResource \<Rightarrow> string" where
  "resourceKey r = nr_Namespace r @ ''/'' @ nr_Name r"

definition hashBytes :: "snap_env \<Rightarrow> bytes \<Rightarrow> string" where
  "hashBytes env data = hexEncode (take 8 (se_sha256 env data))"

text \<open>A change with every field that the code does not set at its zero value.\<close>

definition ResourceChange_zero :: ResourceChange where
  "ResourceChange_zero =
     \<lparr>rc_ChangeId = '''', rc_VectorClock = [], rc_ChangeType = CHANGE_TYPE_UNSPECIFIED, rc_ResourceType = '''', rc_Namespace = '''',
      rc_Name = '''', rc_ResourceVersion = '''', rc_ResourceData = '''', rc_ResourceHash = '''', rc_Timestamp = 0,
      rc_OriginMember = '''', rc_Labels = None\<rparr>"

definition detectDeletions ::
  "namespacedResource list \<Rightarrow> (string, bool) gomap \<Rightarrow> string \<Rightarrow> ResourceChange list \<Rightarrow> ResourceChange list" where
  "detectDeletions baseline currentKeys resourceType changes =
     fold (\<lambda>r changes.
             if \<not> gm_get False currentKeys (resourceKey r)
             then changes @ [ResourceChange_zero\<lparr>rc_ChangeType := PB_DELETED, rc_ResourceType := resourceType,
                               rc_Namespace := nr_Namespace r, rc_Name := nr_Name r\<rparr>]
             else changes) baseline changes"

definition buildBaselineHashes ::
  "snap_env \<Rightarrow> namespacedResource list \<Rightarrow> string \<Rightarrow> (string, string) gomap \<Rightarrow> (string, string) gomap" where
  "buildBaselineHashes env resources resourceType hashes =
     fold (\<lambda>r. gm_put (resourceType @ ''/'' @ resourceKey r) (hashBytes env (se_marshal env r))) resources hashes"

definition detectCreatesUpdates ::
  "snap_env \<Rightarrow> (string, namespacedResource) gomap \<Rightarrow> string \<Rightarrow> (string, string) gomap \<Rightarrow> (string, int) gomap
   \<Rightarrow> ResourceChange list \<Rightarrow> ResourceChange list" where
  "detectCreatesUpdates env currentMap resourceType baselineHashes vectorClock changes =
     fold (\<lambda>(_, r) changes.
             let data = se_marshal env r; hash = hashBytes env data;
                 change = (\<lambda>t. ResourceChange_zero\<lparr>rc_ChangeType := t, rc_ResourceType := resourceType,
                   rc_Namespace := nr_Namespace r, rc_Name := nr_Name r, rc_ResourceData := data, rc_ResourceHash := hash,
                   rc_VectorClock := vectorClock\<rparr>)
             in case map_of baselineHashes (resourceType @ ''/'' @ resourceKey r) of
                  None \<Rightarrow> changes @ [change PB_CREATED]
                | Some oldHash \<Rightarrow> if oldHash = hash then changes else changes @ [change PB_UPDATED]) currentMap changes"

definition buildResourceMap :: "namespacedResource list \<Rightarrow> (string, namespacedResource) gomap" where
  "buildResourceMap resources = fold (\<lambda>r. gm_put (resourceKey r) r) resources []"

definition keysFromMap :: "(string, namespacedResource) gomap \<Rightarrow> (string, bool) gomap" where
  "keysFromMap m = fold (\<lambda>(k, _). gm_put k True) m []"

definition ExtractResourceChanges :: "snap_env \<Rightarrow> ConfigSnapshot \<Rightarrow> ConfigSnapshot option \<Rightarrow> ResourceChange list" where
  "ExtractResourceChanges env current baseline =
     (let gateways = buildResourceMap (cs_Gateways current); routes = buildResourceMap (cs_Routes current);
          clusters = buildResourceMap (cs_Clusters current); policies = buildResourceMap (cs_Policies current);
          deletions = (case baseline of
                         None \<Rightarrow> []
                       | Some b \<Rightarrow>
                           detectDeletions (cs_Policies b) (keysFromMap policies) ''ProxyPolicy''
                             (detectDeletions (cs_Clusters b) (keysFromMap clusters) ''ProxyBackend''
                               (detectDeletions (cs_Routes b) (keysFromMap routes) ''ProxyRoute''
                                 (detectDeletions (cs_Gateways b) (keysFromMap gateways) ''ProxyGateway'' []))));
          vectorClock = (case cs_FederationMetadata current of None \<Rightarrow> [] | Some m \<Rightarrow> md_VectorClock m);
          hashes = (case baseline of
                      None \<Rightarrow> []
                    | Some b \<Rightarrow>
                        buildBaselineHashes env (cs_Policies b) ''ProxyPolicy''
                          (buildBaselineHashes env (cs_Clusters b) ''ProxyBackend''
                            (buildBaselineHashes env (cs_Routes b) ''ProxyRoute''
                              (buildBaselineHashes env (cs_Gateways b) ''ProxyGateway'' []))))
      in detectCreatesUpdates env policies ''ProxyPolicy'' hashes vectorClock
           (detectCreatesUpdates env clusters ''ProxyBackend'' hashes vectorClock
             (detectCreatesUpdates env routes ''ProxyRoute'' hashes vectorClock
               (detectCreatesUpdates env gateways ''ProxyGateway'' hashes vectorClock deletions))))"

subsection \<open>What the extracted changes do\<close>

text \<open>
  A snapshot as the store it describes: the encoded resource under \<open>type/namespace/name\<close>, the
  last one where a key occurs twice. Applying a change to such a store removes the resource of a
  deletion and writes the data of every other change.
\<close>

definition typed_resources :: "ConfigSnapshot \<Rightarrow> (string \<times> namespacedResource) list" where
  "typed_resources s = map (Pair ''ProxyGateway'') (cs_Gateways s) @ map (Pair ''ProxyRoute'') (cs_Routes s) @
     map (Pair ''ProxyBackend'') (cs_Clusters s) @ map (Pair ''ProxyPolicy'') (cs_Policies s)"

definition snapshot_store :: "snap_env \<Rightarrow> ConfigSnapshot \<Rightarrow> string \<rightharpoonup> bytes" where
  "snapshot_store env s =
     map_of (map (\<lambda>(t, r). (t @ ''/'' @ resourceKey r, se_marshal env r)) (rev (typed_resources s)))"

definition extracted_key :: "ResourceChange \<Rightarrow> string" where
  "extracted_key c = rc_ResourceType c @ ''/'' @ rc_Namespace c @ ''/'' @ rc_Name c"

definition apply_extracted :: "ResourceChange \<Rightarrow> (string \<rightharpoonup> bytes) \<Rightarrow> string \<rightharpoonup> bytes" where
  "apply_extracted c m =
     m(extracted_key c := if rc_ChangeType c = PB_DELETED then None else Some (rc_ResourceData c))"

lemma map_of_fold_put:
  "map_of (fold (\<lambda>r. gm_put (f r) (g r)) rs m) = map_of m ++ map_of (map (\<lambda>r. (f r, g r)) (rev rs))"
  by (induction rs arbitrary: m) (simp_all add: update_conv')

lemma hashes_of_store:
  "map_of (buildBaselineHashes env (cs_Policies b) ''ProxyPolicy''
      (buildBaselineHashes env (cs_Clusters b) ''ProxyBackend''
        (buildBaselineHashes env (cs_Routes b) ''ProxyRoute''
          (buildBaselineHashes env (cs_Gateways b) ''ProxyGateway'' []))))
   = map_option (hashBytes env) \<circ> snapshot_store env b"
proof -
  have *: "map_option (hashBytes env) \<circ> map_of xs = map_of (map (\<lambda>(k, d). (k, hashBytes env d)) xs)" for xs :: "(string \<times> bytes) list"
    by (simp add: map_of_map)
  show ?thesis
    unfolding buildBaselineHashes_def map_of_fold_put snapshot_store_def *
    by (simp add: typed_resources_def rev_map o_def map_add_assoc)
qed

lemma typed_key_inj:
  assumes "t \<in> {''ProxyGateway'', ''ProxyRoute'', ''ProxyBackend'', ''ProxyPolicy''}"
    and "t' \<in> {''ProxyGateway'', ''ProxyRoute'', ''ProxyBackend'', ''ProxyPolicy''}"
  shows "t @ ''/'' @ a = t' @ ''/'' @ b \<longleftrightarrow> t = t' \<and> a = b"
  using assms by auto

lemma store_keys: "dom (snapshot_store env s) = (\<lambda>(t, r). t @ ''/'' @ resourceKey r) ` set (typed_resources s)"
  by (simp add: snapshot_store_def dom_map_of_conv_image_fst image_image case_prod_beta)

lemma dom_buildResourceMap: "dom (map_of (buildResourceMap rs)) = resourceKey ` set rs"
  unfolding buildResourceMap_def map_of_fold_put by (auto simp: dom_map_of_conv_image_fst image_image)

lemma keysFromMap_get: "gm_get False (keysFromMap m) k \<longleftrightarrow> k \<in> dom (map_of m)"
proof -
  have "gm_get False (fold (\<lambda>(k, _). gm_put k True) m ks) k \<longleftrightarrow> k \<in> dom (map_of m) \<or> gm_get False ks k" for ks
    by (induction m arbitrary: ks) (auto simp: gm_get_put split: if_splits)
  then show ?thesis by (simp add: keysFromMap_def gm_get_def)
qed

definition deletion :: "string \<Rightarrow> namespacedResource \<Rightarrow> ResourceChange" where
  "deletion t r = ResourceChange_zero\<lparr>rc_ChangeType := PB_DELETED, rc_ResourceType := t,
     rc_Namespace := nr_Namespace r, rc_Name := nr_Name r\<rparr>"

definition upsert :: "snap_env \<Rightarrow> (string, int) gomap \<Rightarrow> pbChangeType \<Rightarrow> string \<Rightarrow> namespacedResource \<Rightarrow> ResourceChange" where
  "upsert env vc ct t r = ResourceChange_zero\<lparr>rc_ChangeType := ct, rc_ResourceType := t,
     rc_Namespace := nr_Namespace r, rc_Name := nr_Name r, rc_ResourceData := se_marshal env r,
     rc_ResourceHash := hashBytes env (se_marshal env r), rc_VectorClock := vc\<rparr>"

lemma extracted_key_deletion [simp]: "extracted_key (deletion t r) = t @ ''/'' @ resourceKey r"
  by (simp add: deletion_def extracted_key_def resourceKey_def)

lemma extracted_key_upsert [simp]: "extracted_key (upsert env vc ct t r) = t @ ''/'' @ resourceKey r"
  by (simp add: upsert_def extracted_key_def resourceKey_def)

lemma set_detectDeletions:
  "set (detectDeletions base (keysFromMap (buildResourceMap cur)) t ch) =
   set ch \<union> deletion t ` {r \<in> set base. resourceKey r \<notin> resourceKey ` set cur}"
proof -
  have "set (detectDeletions base ks t ch) = set ch \<union> deletion t ` {r \<in> set base. \<not> gm_get False ks (resourceKey r)}" for ks
    unfolding detectDeletions_def by (induction base arbitrary: ch) (auto simp: deletion_def)
  then show ?thesis by (simp add: keysFromMap_get dom_buildResourceMap)
qed

lemma set_detectCreatesUpdates:
  "set (detectCreatesUpdates env m t hs vc ch) = set ch \<union>
     {upsert env vc (if t @ ''/'' @ resourceKey r \<in> dom (map_of hs) then PB_UPDATED else PB_CREATED) t r | r.
        r \<in> snd ` set m \<and> map_of hs (t @ ''/'' @ resourceKey r) \<noteq> Some (hashBytes env (se_marshal env r))}"
  (is "_ = set ch \<union> ?U m")
proof -
  have "set (detectCreatesUpdates env m t hs vc ch) = set ch \<union> ?U m"
  proof (induction m arbitrary: ch)
    case Nil
    then show ?case by (simp add: detectCreatesUpdates_def)
  next
    case (Cons kr m)
    then show ?case
      by (cases kr) (auto simp: detectCreatesUpdates_def Let_def upsert_def split: option.splits)
  qed
  then show ?thesis .
qed

definition of_type :: "string \<Rightarrow> ConfigSnapshot \<Rightarrow> namespacedResource list" where
  "of_type t s =
     (if t = ''ProxyGateway'' then cs_Gateways s else if t = ''ProxyRoute'' then cs_Routes s
      else if t = ''ProxyBackend'' then cs_Clusters s else if t = ''ProxyPolicy'' then cs_Policies s else [])"

abbreviation resource_types :: "string set" where
  "resource_types \<equiv> {''ProxyGateway'', ''ProxyRoute'', ''ProxyBackend'', ''ProxyPolicy''}"

lemma typed_resources_set: "(t, r) \<in> set (typed_resources s) \<longleftrightarrow> r \<in> set (of_type t s)"
  by (cases "t = ''ProxyGateway''"; cases "t = ''ProxyRoute''"; cases "t = ''ProxyBackend''"; cases "t = ''ProxyPolicy''")
    (simp_all add: typed_resources_def of_type_def image_iff)

lemma of_type_types: "r \<in> set (of_type t s) \<Longrightarrow> t \<in> resource_types"
  by (auto simp: of_type_def split: if_splits)

lemma map_of_segment:
  assumes "t \<in> resource_types" and "t' \<in> resource_types"
  shows "map_of (map (\<lambda>(t, r). (t @ ''/'' @ resourceKey r, se_marshal env r)) (rev (map (Pair t') rs))) (t @ ''/'' @ k) =
    (if t = t' then map_option (se_marshal env) (map_of (buildResourceMap rs) k) else None)"
proof -
  define K :: "string \<Rightarrow> string \<Rightarrow> string" where "K = (\<lambda>a b. a @ ''/'' @ b)"
  have inj: "K t k = K t' b \<longleftrightarrow> t = t' \<and> k = b" for b
    unfolding K_def by (rule typed_key_inj [OF assms])
  have "map_of (map (\<lambda>(t, r). (K t (resourceKey r), se_marshal env r)) (map (Pair t') xs)) (K t k) =
    (if t = t' then map_option (se_marshal env) (map_of (map (\<lambda>r. (resourceKey r, r)) xs) k) else None)" for xs
    by (induction xs) (auto simp: inj)
  from this [of "rev rs"] show ?thesis
    unfolding buildResourceMap_def map_of_fold_put K_def by (simp add: rev_map)
qed

lemma store_at:
  assumes "t \<in> resource_types"
  shows "snapshot_store env s (t @ ''/'' @ k) = map_option (se_marshal env) (map_of (buildResourceMap (of_type t s)) k)"
proof -
  let ?seg = "\<lambda>t' rs. map_of (map (\<lambda>(t, r). (t @ ''/'' @ resourceKey r, se_marshal env r)) (rev (map (Pair t') rs)))"
  have seg: "?seg t' rs (t @ ''/'' @ k) = (if t = t' then map_option (se_marshal env) (map_of (buildResourceMap rs) k) else None)"
    if "t' \<in> resource_types" for t' rs
    using map_of_segment [OF assms that] .
  have "snapshot_store env s = ?seg ''ProxyGateway'' (cs_Gateways s) ++ ?seg ''ProxyRoute'' (cs_Routes s)
      ++ ?seg ''ProxyBackend'' (cs_Clusters s) ++ ?seg ''ProxyPolicy'' (cs_Policies s)"
    by (simp add: snapshot_store_def typed_resources_def)
  then have "snapshot_store env s (t @ ''/'' @ k) =
     (case ?seg ''ProxyPolicy'' (cs_Policies s) (t @ ''/'' @ k) of Some d \<Rightarrow> Some d | None \<Rightarrow>
       (case ?seg ''ProxyBackend'' (cs_Clusters s) (t @ ''/'' @ k) of Some d \<Rightarrow> Some d | None \<Rightarrow>
         (case ?seg ''ProxyRoute'' (cs_Routes s) (t @ ''/'' @ k) of Some d \<Rightarrow> Some d | None \<Rightarrow>
           ?seg ''ProxyGateway'' (cs_Gateways s) (t @ ''/'' @ k))))"
    by (simp only: map_add_def)
  then show ?thesis
    using assms by (simp only: seg insert_iff simp_thms) (auto simp: of_type_def split: option.splits)
qed

lemma resource_map_ok: "gm_ok (buildResourceMap rs)"
proof -
  have "gm_ok m \<Longrightarrow> gm_ok (fold (\<lambda>r. gm_put (resourceKey r) r) rs m)" for m
    by (induction rs arbitrary: m) auto
  then show ?thesis by (simp add: buildResourceMap_def)
qed

lemma resource_map_key: "map_of (buildResourceMap rs) k = Some r \<Longrightarrow> resourceKey r = k \<and> r \<in> set rs"
  unfolding buildResourceMap_def map_of_fold_put by (auto dest: map_of_SomeD)

lemma resource_map_snd: "r \<in> snd ` set (buildResourceMap rs) \<longleftrightarrow> map_of (buildResourceMap rs) (resourceKey r) = Some r"
  using gm_mem_iff [OF resource_map_ok] resource_map_key by (force simp: image_iff)

text \<open>The changes as a set, without the order in which the maps are traversed.\<close>

definition changed_clock :: "ConfigSnapshot \<Rightarrow> (string, int) gomap" where
  "changed_clock s = (case cs_FederationMetadata s of None \<Rightarrow> [] | Some m \<Rightarrow> md_VectorClock m)"

definition baseline_store :: "snap_env \<Rightarrow> ConfigSnapshot option \<Rightarrow> string \<rightharpoonup> bytes" where
  "baseline_store env b = (case b of None \<Rightarrow> Map.empty | Some s \<Rightarrow> snapshot_store env s)"

lemma of_type_simps:
  "cs_Gateways s = of_type ''ProxyGateway'' s" "cs_Routes s = of_type ''ProxyRoute'' s"
  "cs_Clusters s = of_type ''ProxyBackend'' s" "cs_Policies s = of_type ''ProxyPolicy'' s"
  by (simp_all add: of_type_def)

definition deletions_of :: "ConfigSnapshot \<Rightarrow> ConfigSnapshot \<Rightarrow> string \<Rightarrow> ResourceChange set" where
  "deletions_of cur b t = deletion t ` {r \<in> set (of_type t b). resourceKey r \<notin> resourceKey ` set (of_type t cur)}"

definition upserts_of :: "snap_env \<Rightarrow> ConfigSnapshot \<Rightarrow> ConfigSnapshot option \<Rightarrow> string \<Rightarrow> ResourceChange set" where
  "upserts_of env cur base t =
     {upsert env (changed_clock cur)
        (if t @ ''/'' @ resourceKey r \<in> dom (baseline_store env base) then PB_UPDATED else PB_CREATED) t r | r.
        r \<in> snd ` set (buildResourceMap (of_type t cur)) \<and>
        map_option (hashBytes env) (baseline_store env base (t @ ''/'' @ resourceKey r)) \<noteq> Some (hashBytes env (se_marshal env r))}"

lemma set_ExtractResourceChanges:
  "set (ExtractResourceChanges env cur base) =
     (case base of None \<Rightarrow> {} | Some b \<Rightarrow> \<Union>t \<in> resource_types. deletions_of cur b t) \<union>
     (\<Union>t \<in> resource_types. upserts_of env cur base t)"
proof -
  have u: "set (detectCreatesUpdates env (buildResourceMap (of_type t cur)) t hs (changed_clock cur) ch) =
      set ch \<union> upserts_of env cur base t"
    if "map_of hs = map_option (hashBytes env) \<circ> baseline_store env base" for t hs ch
    unfolding set_detectCreatesUpdates upserts_of_def that by (simp add: dom_def)
  have d: "set (detectDeletions (of_type t b) (keysFromMap (buildResourceMap (of_type t cur))) t ch) = set ch \<union> deletions_of cur b t" for t b ch
    unfolding set_detectDeletions deletions_of_def ..
  have none: "map_of [] = map_option (hashBytes env) \<circ> baseline_store env None" by (simp add: baseline_store_def fun_eq_iff)
  have some: "map_of (buildBaselineHashes env (of_type ''ProxyPolicy'' b) ''ProxyPolicy''
      (buildBaselineHashes env (of_type ''ProxyBackend'' b) ''ProxyBackend''
        (buildBaselineHashes env (of_type ''ProxyRoute'' b) ''ProxyRoute''
          (buildBaselineHashes env (of_type ''ProxyGateway'' b) ''ProxyGateway'' [])))) =
      map_option (hashBytes env) \<circ> baseline_store env (Some b)" for b
    using hashes_of_store [of env b] unfolding of_type_simps by (simp only: baseline_store_def option.case)
  show ?thesis
  proof (cases base)
    case None
    show ?thesis
      using u [unfolded None, OF none]
      by (simp only: ExtractResourceChanges_def Let_def None option.case of_type_simps changed_clock_def [symmetric] list.set UN_insert UN_empty) auto
  next
    case (Some b)
    show ?thesis
      using u [unfolded Some, OF some [of b]]
      by (simp only: ExtractResourceChanges_def Let_def Some option.case of_type_simps changed_clock_def [symmetric] d list.set UN_insert UN_empty) auto
  qed
qed

lemma apply_extracted_fold:
  assumes "\<forall>c \<in> set cs. goal (extracted_key c) = (if rc_ChangeType c = PB_DELETED then None else Some (rc_ResourceData c))"
  shows "fold apply_extracted cs m k = (if k \<in> extracted_key ` set cs then goal k else m k)"
  using assms by (induction cs arbitrary: m) (auto simp: apply_extracted_def)

lemma store_SomeE:
  assumes "snapshot_store env s k = Some d"
  obtains t r where "t \<in> resource_types" "k = t @ ''/'' @ resourceKey r"
    "map_of (buildResourceMap (of_type t s)) (resourceKey r) = Some r" "d = se_marshal env r"
proof -
  from assms obtain t q where tq: "k = t @ ''/'' @ resourceKey q" "q \<in> set (of_type t s)"
    using domI [of "snapshot_store env s" k d] unfolding store_keys by (auto simp: typed_resources_set)
  from tq(2) have t: "t \<in> resource_types" by (rule of_type_types)
  have "map_option (se_marshal env) (map_of (buildResourceMap (of_type t s)) (resourceKey q)) = Some d"
    using assms unfolding tq(1) store_at [OF t] .
  then obtain r where r: "map_of (buildResourceMap (of_type t s)) (resourceKey q) = Some r" "d = se_marshal env r"
    by auto
  then have "resourceKey r = resourceKey q" using resource_map_key by blast
  then show thesis using that [OF t, of r] r tq(1) by metis
qed

lemma store_None: "t \<in> resource_types \<Longrightarrow> snapshot_store env s (t @ ''/'' @ k) = None \<longleftrightarrow> k \<notin> resourceKey ` set (of_type t s)"
  using dom_buildResourceMap [of "of_type t s"] by (simp only: store_at option.map_disc_iff domIff [symmetric]) auto

text \<open>Every change says what the current snapshot has, and is about a difference.\<close>

lemma extracted_sound:
  assumes "c \<in> set (ExtractResourceChanges env cur base)"
  shows "snapshot_store env cur (extracted_key c) = (if rc_ChangeType c = PB_DELETED then None else Some (rc_ResourceData c))"
    and "baseline_store env base (extracted_key c) \<noteq> snapshot_store env cur (extracted_key c)"
proof -
  consider (del) b t r where "base = Some b" "t \<in> resource_types" "c = deletion t r" "r \<in> set (of_type t b)"
      "resourceKey r \<notin> resourceKey ` set (of_type t cur)"
    | (ups) t where "t \<in> resource_types" "c \<in> upserts_of env cur base t"
    using assms unfolding set_ExtractResourceChanges by (auto simp: deletions_of_def split: option.splits)
  then have "snapshot_store env cur (extracted_key c) = (if rc_ChangeType c = PB_DELETED then None else Some (rc_ResourceData c)) \<and>
    baseline_store env base (extracted_key c) \<noteq> snapshot_store env cur (extracted_key c)"
  proof cases
    case del
    then have "snapshot_store env cur (extracted_key c) = None" "snapshot_store env b (extracted_key c) \<noteq> None"
      by (simp_all only: extracted_key_deletion store_None) auto
    then show ?thesis using del(1,3) by (simp add: baseline_store_def deletion_def)
  next
    case ups
    then obtain r ct where r: "c = upsert env (changed_clock cur) ct t r" "ct \<noteq> PB_DELETED"
      "map_of (buildResourceMap (of_type t cur)) (resourceKey r) = Some r"
      "map_option (hashBytes env) (baseline_store env base (t @ ''/'' @ resourceKey r)) \<noteq> Some (hashBytes env (se_marshal env r))"
      unfolding upserts_of_def resource_map_snd by auto
    then have "snapshot_store env cur (extracted_key c) = Some (se_marshal env r)"
      using ups(1) by (simp only: extracted_key_upsert store_at option.map)
    moreover have "extracted_key c = t @ ''/'' @ resourceKey r" "rc_ChangeType c = ct" "rc_ResourceData c = se_marshal env r"
      unfolding r(1) by (simp_all only: extracted_key_upsert) (simp_all add: upsert_def)
    ultimately show ?thesis using r(2,4) by auto
  qed
  then show "snapshot_store env cur (extracted_key c) = (if rc_ChangeType c = PB_DELETED then None else Some (rc_ResourceData c))"
    and "baseline_store env base (extracted_key c) \<noteq> snapshot_store env cur (extracted_key c)"
    by blast+
qed

lemma extracted_complete:
  assumes "\<And>d d'. baseline_store env base k = Some d \<Longrightarrow> snapshot_store env cur k = Some d' \<Longrightarrow>
      hashBytes env d = hashBytes env d' \<Longrightarrow> d = d'"
    and "k \<notin> extracted_key ` set (ExtractResourceChanges env cur base)"
  shows "baseline_store env base k = snapshot_store env cur k"
proof (cases "snapshot_store env cur k")
  case (Some d)
  then obtain t r where r: "t \<in> resource_types" "k = t @ ''/'' @ resourceKey r"
    "map_of (buildResourceMap (of_type t cur)) (resourceKey r) = Some r" "d = se_marshal env r"
    by (rule store_SomeE)
  have "map_option (hashBytes env) (baseline_store env base k) = Some (hashBytes env d)"
  proof (rule ccontr)
    assume "\<not> ?thesis"
    then have "\<exists>ct. upsert env (changed_clock cur) ct t r \<in> upserts_of env cur base t"
      using r unfolding upserts_of_def resource_map_snd by blast
    then obtain ct where "upsert env (changed_clock cur) ct t r \<in> set (ExtractResourceChanges env cur base)"
      using r(1) unfolding set_ExtractResourceChanges by blast
    then have "extracted_key (upsert env (changed_clock cur) ct t r) \<in> extracted_key ` set (ExtractResourceChanges env cur base)"
      by (rule imageI)
    then show False using assms(2) unfolding extracted_key_upsert r(2) [symmetric] by contradiction
  qed
  then obtain d' where "baseline_store env base k = Some d'" "hashBytes env d' = hashBytes env d" by auto
  then show ?thesis using assms(1) Some by simp
next
  case None
  have "baseline_store env base k = None"
  proof (rule ccontr)
    assume "\<not> ?thesis"
    then obtain b d where b: "base = Some b" "snapshot_store env b k = Some d"
      by (auto simp: baseline_store_def split: option.splits)
    from b(2) obtain t r where r: "t \<in> resource_types" "k = t @ ''/'' @ resourceKey r"
      "map_of (buildResourceMap (of_type t b)) (resourceKey r) = Some r"
      by (rule store_SomeE)
    have "deletion t r \<in> deletions_of cur b t"
      using None r resource_map_key [OF r(3)] store_None [OF r(1)] unfolding deletions_of_def by blast
    then have "deletion t r \<in> set (ExtractResourceChanges env cur base)"
      using r(1) b(1) unfolding set_ExtractResourceChanges by auto
    then have "extracted_key (deletion t r) \<in> extracted_key ` set (ExtractResourceChanges env cur base)" by (rule imageI)
    then show False using assms(2) unfolding extracted_key_deletion r(2) [symmetric] by contradiction
  qed
  then show ?thesis using None by simp
qed


text \<open>A resource is encoded as its body, and the digest is the body itself.\<close>

definition sample_snap_env :: snap_env where
  "sample_snap_env = \<lparr>se_marshalSnapshot = \<lambda>s. Some (concat (map nr_Body (cs_Gateways s))), se_marshal = nr_Body, se_sha256 = id\<rparr>"

definition sample_resource :: "string \<Rightarrow> string \<Rightarrow> namespacedResource" where
  "sample_resource name body = \<lparr>nr_Namespace = ''ns'', nr_Name = name, nr_Body = body\<rparr>"

definition sample_snapshot :: "namespacedResource list \<Rightarrow> namespacedResource list \<Rightarrow> ConfigSnapshot" where
  "sample_snapshot gateways routes =
     \<lparr>cs_Version = ''v'', cs_Gateways = gateways, cs_Routes = routes, cs_Clusters = [], cs_Policies = [],
      cs_FederationMetadata = None, cs_AvailableControllers = [], cs_Other = []\<rparr>"


text \<open>
  A deletion that was extracted from two snapshots carries no vector clock, so a federation
  server that stores the resource with any positive clock entry takes the deletion for an older
  change and keeps the resource.
\<close>
lemma extracted_deletion_ignored:
  assumes "c \<in> set (ExtractResourceChanges env cur base)" and "rc_ChangeType c = PB_DELETED"
    and "map_of (sv_resources s) (change_str c) = Some r" and "gm_ok (tr_VectorClock r)" and "map_nonneg (tr_VectorClock r)"
    and "gm_get 0 (tr_VectorClock r) m > 0"
  shows "let s' = fst (handleResourceChange fenv now p c s) in
    sv_resources s' = sv_resources s \<and> sv_tombstones s' = sv_tombstones s"
proof -
  have "rc_VectorClock c = []"
    using assms(1,2) unfolding set_ExtractResourceChanges
    by (auto simp: deletions_of_def upserts_of_def deletion_def upsert_def ResourceChange_zero_def split: option.splits if_splits)
  then have "vc_val (change_vc c) = (\<lambda>_. 0)" by (simp add: vc_val_FromMap gm_get_def fun_eq_iff)
  moreover have "(\<lambda>_. 0) < gm_get 0 (tr_VectorClock r)"
    using assms(6) map_nonneg_get [OF assms(5)] unfolding val_less_iff by blast
  ultimately have "HappenedBefore (change_vc c) (NewVectorClockFromMap (tr_VectorClock r))"
    using assms(4) by (simp add: HappenedBefore_val vc_val_FromMap)
  from handle_older [OF assms(3) this] show ?thesis by (simp add: Let_def)
qed

subsection \<open>Successive snapshots of a controller\<close>

datatype sn_event =
    SnEnhance "ConfigSnapshot option" bool
  | SnMerge "(string, int) gomap"
  | SnControllers "ControllerEndpoint list"
  | SnClock VectorClock

definition sn_step :: "snap_env \<Rightarrow> SnapshotEnhancer \<Rightarrow> sn_event \<Rightarrow> SnapshotEnhancer" where
  "sn_step env e ev =
     (case ev of
        SnEnhance snap fromFederation \<Rightarrow> fst (EnhanceSnapshot env snap fromFederation e)
      | SnMerge incoming \<Rightarrow> sn_MergeVectorClock incoming e
      | SnControllers controllers \<Rightarrow> UpdateControllers controllers e
      | SnClock vc \<Rightarrow> SetVectorClock vc e)"

text \<open>The local counter does not overflow, and a clock that is installed is not behind.\<close>

definition sn_room :: "SnapshotEnhancer \<Rightarrow> bool" where
  "sn_room e \<longleftrightarrow> MinInt64 \<le> vc_Get (sn_vectorClock e) (sn_controllerName e) \<and> vc_Get (sn_vectorClock e) (sn_controllerName e) < MaxInt64"

definition sn_good :: "SnapshotEnhancer \<Rightarrow> sn_event \<Rightarrow> bool" where
  "sn_good e ev \<longleftrightarrow>
     (case ev of
        SnEnhance _ _ \<Rightarrow> sn_room e
      | SnClock vc \<Rightarrow> vc_ok vc \<and> vc_val (sn_vectorClock e) \<le> vc_val vc
      | _ \<Rightarrow> True)"

lemma Increment_greater:
  assumes "sn_room e"
  shows "vc_val (sn_vectorClock e) < vc_val (fst (vc_Increment (sn_controllerName e) (sn_vectorClock e)))"
  unfolding vc_Increment_val
  by (rule fun_less_upd [OF _ refl]) (use assms in \<open>simp add: sn_room_def vc_Get_val wrap64_id\<close>)

lemma Enhance_clock:
  "sn_vectorClock (fst (EnhanceSnapshot env (Some s) fromFed e)) =
     (if fromFed then sn_vectorClock e else fst (vc_Increment (sn_controllerName e) (sn_vectorClock e)))"
  "sn_vectorClock (fst (EnhanceSnapshot env None fromFed e)) = sn_vectorClock e"
  by (simp_all add: EnhanceSnapshot_def Let_def)

lemma sn_step_clock:
  assumes "vc_ok (sn_vectorClock e)" and "sn_good e ev"
  shows "vc_ok (sn_vectorClock (sn_step env e ev))" and "vc_val (sn_vectorClock e) \<le> vc_val (sn_vectorClock (sn_step env e ev))"
proof -
  have "vc_ok (sn_vectorClock (sn_step env e ev)) \<and> vc_val (sn_vectorClock e) \<le> vc_val (sn_vectorClock (sn_step env e ev))"
  proof (cases ev)
    case (SnEnhance snap fromFed)
    then show ?thesis
      using assms Increment_greater [of e]
      by (cases snap) (auto simp: sn_step_def sn_good_def Enhance_clock less_imp_le)
  qed (use assms in \<open>simp_all add: sn_step_def sn_good_def sn_MergeVectorClock_def UpdateControllers_def SetVectorClock_def vc_MergeMap_ge\<close>)
  then show "vc_ok (sn_vectorClock (sn_step env e ev))" and "vc_val (sn_vectorClock e) \<le> vc_val (sn_vectorClock (sn_step env e ev))"
    by blast+
qed

interpretation snp: monotone_system "sn_step env" sn_good "\<lambda>e. vc_ok (sn_vectorClock e)" "\<lambda>e. vc_val (sn_vectorClock e)" "(\<le>)" for env
  by unfold_locales (auto intro: sn_step_clock)

lemma Enhance_metadata:
  assumes "EnhanceSnapshot env (Some s) fromFed e = (e', Some s')"
  shows "metadata_of (Some s') = Some \<lparr>md_VectorClock = vc_ToMap (sn_vectorClock e'), md_FederationId = sn_federationID e,
      md_OriginController = sn_controllerName e, md_ContentHash = calculateContentHash env s',
      md_SequenceNumber = wrap64 (sn_sequenceNumber e + 1), md_FromFederation = fromFed\<rparr>"
  using assms by (auto simp: EnhanceSnapshot_def Let_def metadata_of_def calculateContentHash_def)



end
