(* ===== verification/Config_Server.thy ===== *)
theory Config_Server
  imports Agent_Tracker Snapshot_Meta
begin

section \<open>Distribution of configuration to agents (\<open>internal/controller/snapshot/server.go\<close>)\<close>

text \<open>
  The gRPC server that streams configuration snapshots to the agents: identity checks, the cache
  with its subscriptions, the update trigger, the stream of one agent and the status of agents.
  A stream is identified by a number, which also names its update channel. The handler of a
  stream is cut where it waits: opening, subscribing, one tick, one notification, and the end with
  the deferred calls. The built snapshot and the outcome of a send are arguments of these steps.
  Operations that would panic on a closed channel return \<open>None\<close>.
\<close>

subsection \<open>Identity of a peer\<close>

datatype rpc_error = PermissionDenied | Internal | Unavailable | InvalidArgument | StreamCanceled

text \<open>Of a certificate: the URI SANs as scheme and path, and the common name.\<close>

record peerCert =
  px_URIs :: "(string \<times> string) list"
  px_CommonName :: string

datatype peerAuth = NoPeer | NoTLSInfo | TLSInfo "peerCert list"

text \<open>The loop over the URI SANs: \<open>None\<close> when a name matches, otherwise whether an agent identity was seen.\<close>

fun scanURIs :: "(string \<times> string) list \<Rightarrow> string \<Rightarrow> bool \<Rightarrow> bool option" where
  "scanURIs [] requestedNode foundSPIFFEAgent = Some foundSPIFFEAgent"
| "scanURIs ((scheme, path) # uris) requestedNode foundSPIFFEAgent =
     (if scheme = ''spiffe''
      then
        (let parts = Split (CHR ''/'') path
         in if length parts \<ge> 3 \<and> parts ! 1 = ''agent''
            then if parts ! 2 = requestedNode then None else scanURIs uris requestedNode True
            else scanURIs uris requestedNode foundSPIFFEAgent)
      else scanURIs uris requestedNode foundSPIFFEAgent)"

definition validatePeerNodeName :: "peerAuth \<Rightarrow> string \<Rightarrow> rpc_error option" where
  "validatePeerNodeName peer requestedNode =
     (case peer of
        TLSInfo (peerCert # _) \<Rightarrow>
          (case scanURIs (px_URIs peerCert) requestedNode False of
             None \<Rightarrow> None
           | Some True \<Rightarrow> Some PermissionDenied
           | Some False \<Rightarrow>
               if px_CommonName peerCert \<noteq> [] then
                 if px_CommonName peerCert = requestedNode then None else Some PermissionDenied
               else Some PermissionDenied)
      | _ \<Rightarrow> None)"

subsection \<open>Cache and subscriptions\<close>

text \<open>\<open>ca_chans\<close> holds the buffers of the open channels; a channel that is closed has no entry.\<close>

record Cache =
  ca_snapshots :: "(string, ConfigSnapshot) gomap"
  ca_subscribers :: "(string, nat list) gomap"
  ca_chans :: "(nat, string list) gomap"

definition NewCache :: Cache where
  "NewCache = \<lparr>ca_snapshots = [], ca_subscribers = [], ca_chans = []\<rparr>"

definition ca_Get :: "string \<Rightarrow> Cache \<Rightarrow> ConfigSnapshot option" where
  "ca_Get nodeName c = map_of (ca_snapshots c) nodeName"

definition ca_Set :: "string \<Rightarrow> ConfigSnapshot \<Rightarrow> Cache \<Rightarrow> Cache" where
  "ca_Set nodeName snapshot c = c\<lparr>ca_snapshots := gm_put nodeName snapshot (ca_snapshots c)\<rparr>"

definition Subscribe :: "string \<Rightarrow> nat \<Rightarrow> Cache \<Rightarrow> Cache" where
  "Subscribe nodeName ch c =
     c\<lparr>ca_subscribers := gm_put nodeName (gm_get [] (ca_subscribers c) nodeName @ [ch]) (ca_subscribers c)\<rparr>"

definition closeChan :: "nat \<Rightarrow> Cache \<Rightarrow> Cache option" where
  "closeChan ch c = (if map_of (ca_chans c) ch = None then None else Some (c\<lparr>ca_chans := gm_del ch (ca_chans c)\<rparr>))"

definition Unsubscribe :: "string \<Rightarrow> nat \<Rightarrow> Cache \<Rightarrow> Cache option" where
  "Unsubscribe nodeName ch c =
     (let subs = gm_get [] (ca_subscribers c) nodeName
      in if ch \<in> set subs
         then closeChan ch (c\<lparr>ca_subscribers := gm_put nodeName (remove1 ch subs) (ca_subscribers c)\<rparr>)
         else Some c)"

text \<open>The capacity of an update channel, and a send that gives up when the channel is full.\<close>

definition updateChCap :: int where "updateChCap = 10"

definition trySend :: "string \<Rightarrow> nat \<Rightarrow> Cache option \<Rightarrow> Cache option" where
  "trySend v ch c0 =
     (case c0 of
        None \<Rightarrow> None
      | Some c \<Rightarrow>
          (case map_of (ca_chans c) ch of
             None \<Rightarrow> None
           | Some buf \<Rightarrow>
               Some (if int (length buf) < updateChCap then c\<lparr>ca_chans := gm_put ch (buf @ [v]) (ca_chans c)\<rparr> else c)))"

definition Notify :: "string \<Rightarrow> Cache \<Rightarrow> Cache option" where
  "Notify nodeName c = fold (trySend nodeName) (gm_get [] (ca_subscribers c) nodeName) (Some c)"

definition NotifyAll :: "Cache \<Rightarrow> Cache option" where
  "NotifyAll c = fold (\<lambda>(nodeName, chs). fold (trySend nodeName) chs) (ca_subscribers c) (Some c)"

definition ca_Clear :: "Cache \<Rightarrow> Cache" where
  "ca_Clear c = c\<lparr>ca_snapshots := []\<rparr>"

definition GetCacheSize :: "Cache \<Rightarrow> int" where
  "GetCacheSize c = int (length (ca_snapshots c))"

definition ca_GetVersion :: "string \<Rightarrow> Cache \<Rightarrow> string" where
  "ca_GetVersion nodeName c = (case map_of (ca_snapshots c) nodeName of Some snapshot \<Rightarrow> cs_Version snapshot | None \<Rightarrow> '''')"

subsection \<open>The server\<close>

record AgentStatusInfo =
  as_NodeName :: string
  as_AgentVersion :: string
  as_AppliedConfigVersion :: string
  as_Healthy :: bool
  as_LastSeen :: gotime
  as_Connected :: bool
  as_ActiveConnections :: int
  as_Errors :: "string list"
  as_Metrics :: "(string, int) gomap"
  as_ClusterName :: string
  as_ClusterRegion :: string
  as_ClusterZone :: string

record StreamConfigRequest =
  rq_NodeName :: string
  rq_AgentVersion :: string
  rq_LastAppliedVersion :: string
  rq_ClusterName :: string
  rq_ClusterRegion :: string
  rq_ClusterZone :: string
  rq_ClusterLabels :: "(string, string) gomap"

record AgentStatus =
  ag_NodeName :: string
  ag_AppliedConfigVersion :: string
  ag_Healthy :: bool
  ag_Metrics :: "(string, int) gomap"
  ag_Errors :: "string list"
  ag_ClusterName :: string

text \<open>The local variables of \<open>StreamConfig\<close> while it waits, and the snapshots it has sent.\<close>

record StreamState =
  st_req :: StreamConfigRequest
  st_lastVersion :: string
  st_subscribed :: bool
  st_sent :: "ConfigSnapshot list"

text \<open>\<open>cv_debounce\<close> is the node name of the pending debounce timer.\<close>

record ConfigServer =
  cv_cache :: Cache
  cv_statusMap :: "(string, AgentStatusInfo) gomap"
  cv_remoteAgentTracker :: RemoteAgentTracker
  cv_activeStreams :: int
  cv_dirty :: bool
  cv_debounce :: "string option"
  cv_shutdown :: bool
  cv_streams :: "(nat, StreamState) gomap"

definition AgentExpiryDuration :: duration where "AgentExpiryDuration = sec 30"

definition NewConfigServer :: ConfigServer where
  "NewConfigServer =
     \<lparr>cv_cache = NewCache, cv_statusMap = [], cv_remoteAgentTracker = NewRemoteAgentTracker, cv_activeStreams = 0,
      cv_dirty = False, cv_debounce = None, cv_shutdown = False, cv_streams = []\<rparr>"

definition SetRemoteClusterHandler :: "bool \<Rightarrow> ConfigServer \<Rightarrow> ConfigServer" where
  "SetRemoteClusterHandler handler s = s\<lparr>cv_remoteAgentTracker := SetHandler handler (cv_remoteAgentTracker s)\<rparr>"

definition AgentStatusInfo_new :: "string \<Rightarrow> AgentStatusInfo" where
  "AgentStatusInfo_new nodeName =
     \<lparr>as_NodeName = nodeName, as_AgentVersion = '''', as_AppliedConfigVersion = '''', as_Healthy = False, as_LastSeen = 0,
      as_Connected = False, as_ActiveConnections = 0, as_Errors = [], as_Metrics = [], as_ClusterName = '''',
      as_ClusterRegion = '''', as_ClusterZone = ''''\<rparr>"

definition storeAgentStatus :: "gotime \<Rightarrow> AgentStatus \<Rightarrow> ConfigServer \<Rightarrow> ConfigServer" where
  "storeAgentStatus now req s =
     (let status = gm_get (AgentStatusInfo_new (ag_NodeName req)) (cv_statusMap s) (ag_NodeName req);
          status = status\<lparr>as_AppliedConfigVersion := ag_AppliedConfigVersion req, as_Healthy := ag_Healthy req, as_LastSeen := now,
                     as_Errors := ag_Errors req, as_Metrics := ag_Metrics req\<rparr>;
          status = (case map_of (ag_Metrics req) ''active_connections'' of
                      Some activeConns \<Rightarrow> status\<lparr>as_ActiveConnections := activeConns\<rparr>
                    | None \<Rightarrow> status)
      in s\<lparr>cv_statusMap := gm_put (ag_NodeName req) status (cv_statusMap s)\<rparr>)"

definition updateAgentConnectionWithCluster ::
  "gotime \<Rightarrow> string \<Rightarrow> string \<Rightarrow> string \<Rightarrow> string \<Rightarrow> string \<Rightarrow> bool \<Rightarrow> ConfigServer \<Rightarrow> ConfigServer" where
  "updateAgentConnectionWithCluster now nodeName agentVersion clusterName clusterRegion clusterZone connected s =
     (let key = (if clusterName \<noteq> [] then clusterName @ ''/'' @ nodeName else nodeName);
          status = gm_get (AgentStatusInfo_new nodeName) (cv_statusMap s) key;
          status = status\<lparr>as_Connected := connected, as_AgentVersion := agentVersion, as_LastSeen := now,
                     as_ClusterName := clusterName, as_ClusterRegion := clusterRegion, as_ClusterZone := clusterZone\<rparr>
      in s\<lparr>cv_statusMap := gm_put key status (cv_statusMap s)\<rparr>)"

definition GetAgentStatus :: "string \<Rightarrow> ConfigServer \<Rightarrow> AgentStatusInfo option" where
  "GetAgentStatus nodeName s = map_of (cv_statusMap s) nodeName"

definition GetAllAgentStatuses :: "ConfigServer \<Rightarrow> AgentStatusInfo list" where
  "GetAllAgentStatuses s = map snd (cv_statusMap s)"

text \<open>One tick of \<open>cleanupStaleAgents\<close>.\<close>

definition cleanupStaleAgents :: "gotime \<Rightarrow> ConfigServer \<Rightarrow> ConfigServer" where
  "cleanupStaleAgents now s =
     s\<lparr>cv_statusMap := map (\<lambda>(key, status).
         (key, if time_sub now (as_LastSeen status) > AgentExpiryDuration \<and> as_Connected status
               then status\<lparr>as_Connected := False\<rparr> else status)) (cv_statusMap s)\<rparr>"

definition ReportStatus :: "gotime \<Rightarrow> peerAuth \<Rightarrow> AgentStatus \<Rightarrow> ConfigServer \<Rightarrow> ConfigServer \<times> rpc_error option" where
  "ReportStatus now peer req s =
     (case validatePeerNodeName peer (ag_NodeName req) of
        Some err \<Rightarrow> (s, Some err)
      | None \<Rightarrow>
          (let s = storeAgentStatus now req s
           in (if ag_ClusterName req \<noteq> []
               then s\<lparr>cv_remoteAgentTracker :=
                        rt_UpdateAgentStatus now (ag_ClusterName req) (ag_NodeName req) (ag_Healthy req) (cv_remoteAgentTracker s)\<rparr>
               else s, None)))"

definition TriggerUpdate :: "string \<Rightarrow> ConfigServer \<Rightarrow> ConfigServer" where
  "TriggerUpdate nodeName s = s\<lparr>cv_dirty := True, cv_debounce := Some nodeName\<rparr>"

definition doTrigger :: "string \<Rightarrow> ConfigServer \<Rightarrow> ConfigServer option" where
  "doTrigger nodeName s =
     map_option (\<lambda>c. s\<lparr>cv_cache := c\<rparr>) (if nodeName = [] then NotifyAll (cv_cache s) else Notify nodeName (cv_cache s))"

text \<open>The debounce timer fires.\<close>

definition debounceFires :: "ConfigServer \<Rightarrow> ConfigServer option" where
  "debounceFires s =
     (case cv_debounce s of None \<Rightarrow> Some s | Some nodeName \<Rightarrow> doTrigger nodeName (s\<lparr>cv_debounce := None\<rparr>))"

definition cv_Shutdown :: "ConfigServer \<Rightarrow> ConfigServer option" where
  "cv_Shutdown s = (if cv_shutdown s then None else Some (s\<lparr>cv_debounce := None, cv_shutdown := True\<rparr>))"

definition incrementStreams :: "ConfigServer \<Rightarrow> ConfigServer" where
  "incrementStreams s = s\<lparr>cv_activeStreams := wrap64 (cv_activeStreams s + 1)\<rparr>"

definition decrementStreams :: "ConfigServer \<Rightarrow> ConfigServer" where
  "decrementStreams s = s\<lparr>cv_activeStreams := wrap64 (cv_activeStreams s - 1)\<rparr>"

definition GetActiveStreamCount :: "ConfigServer \<Rightarrow> int" where
  "GetActiveStreamCount s = cv_activeStreams s"

subsection \<open>The stream of an agent\<close>

definition setConnection :: "gotime \<Rightarrow> StreamConfigRequest \<Rightarrow> bool \<Rightarrow> ConfigServer \<Rightarrow> ConfigServer" where
  "setConnection now req connected s =
     updateAgentConnectionWithCluster now (rq_NodeName req) (rq_AgentVersion req) (rq_ClusterName req) (rq_ClusterRegion req)
       (rq_ClusterZone req) connected s"

definition remoteAgentInfo :: "gotime \<Rightarrow> StreamConfigRequest \<Rightarrow> RemoteAgentInfo" where
  "remoteAgentInfo now req =
     \<lparr>ra_NodeName = rq_NodeName req, ra_ClusterName = rq_ClusterName req, ra_ClusterRegion = rq_ClusterRegion req,
      ra_ClusterZone = rq_ClusterZone req, ra_AgentVersion = rq_AgentVersion req, ra_Connected = True, ra_Healthy = True,
      ra_LastSeen = now, ra_Labels = rq_ClusterLabels req\<rparr>"

text \<open>The deferred calls that are registered before the first snapshot is built, last one first.\<close>

definition streamDeferred :: "gotime \<Rightarrow> StreamConfigRequest \<Rightarrow> ConfigServer \<Rightarrow> ConfigServer" where
  "streamDeferred now req s =
     (let s = decrementStreams s;
          s = (if rq_ClusterName req \<noteq> []
               then s\<lparr>cv_remoteAgentTracker := UnregisterAgent (rq_ClusterName req) (rq_NodeName req) (cv_remoteAgentTracker s)\<rparr>
               else s)
      in setConnection now req False s)"

text \<open>
  From the call of \<open>StreamConfig\<close> to the sent initial snapshot. \<open>built\<close> is the result of the
  snapshot builder, \<open>sendOk\<close> the outcome of the send and \<open>now'\<close> the time of the deferred calls when
  the handler returns early.
\<close>

definition streamOpen ::
  "nat \<Rightarrow> gotime \<Rightarrow> gotime \<Rightarrow> peerAuth \<Rightarrow> StreamConfigRequest \<Rightarrow> ConfigSnapshot option \<Rightarrow> bool \<Rightarrow> ConfigServer
   \<Rightarrow> ConfigServer \<times> rpc_error option" where
  "streamOpen sid now now' peer req built sendOk s0 =
     (case validatePeerNodeName peer (rq_NodeName req) of
        Some err \<Rightarrow> (s0, Some err)
      | None \<Rightarrow>
          (let s = setConnection now req True s0;
               s = (if rq_ClusterName req \<noteq> []
                    then s\<lparr>cv_remoteAgentTracker := RegisterAgent (remoteAgentInfo now req) (cv_remoteAgentTracker s)\<rparr>
                    else s);
               s = incrementStreams s
           in case built of
                None \<Rightarrow> (streamDeferred now' req s, Some Internal)
              | Some snapshot \<Rightarrow>
                  (let s = s\<lparr>cv_cache := ca_Set (rq_NodeName req) snapshot (cv_cache s)\<rparr>
                   in if \<not> sendOk then (streamDeferred now' req s, Some Internal)
                      else (s\<lparr>cv_streams := gm_put sid \<lparr>st_req = req, st_lastVersion = cs_Version snapshot, st_subscribed = False,
                                st_sent = [snapshot]\<rparr> (cv_streams s)\<rparr>, None))))"

text \<open>The update channel is created and subscribed.\<close>

definition streamSubscribe :: "nat \<Rightarrow> ConfigServer \<Rightarrow> ConfigServer" where
  "streamSubscribe sid s =
     (case map_of (cv_streams s) sid of
        None \<Rightarrow> s
      | Some st \<Rightarrow>
          if st_subscribed st then s
          else
            (let c = cv_cache s; c = c\<lparr>ca_chans := gm_put sid [] (ca_chans c)\<rparr>
             in s\<lparr>cv_cache := Subscribe (rq_NodeName (st_req st)) sid c,
                  cv_streams := gm_put sid (st\<lparr>st_subscribed := True\<rparr>) (cv_streams s)\<rparr>))"

text \<open>The handler returns after it has subscribed: every deferred call.\<close>

definition streamReturn :: "gotime \<Rightarrow> nat \<Rightarrow> ConfigServer \<Rightarrow> ConfigServer option" where
  "streamReturn now sid s =
     (case map_of (cv_streams s) sid of
        None \<Rightarrow> Some s
      | Some st \<Rightarrow>
          if st_subscribed st
          then map_option (\<lambda>c. streamDeferred now (st_req st) (s\<lparr>cv_cache := c, cv_streams := gm_del sid (cv_streams s)\<rparr>))
                 (Unsubscribe (rq_NodeName (st_req st)) sid (cv_cache s))
          else Some s)"

text \<open>
  What both cases of the loop do with a rebuilt snapshot: nothing when the build failed or the
  version is the one sent last, otherwise send and cache it; a failed send ends the stream.
\<close>

definition streamPush :: "gotime \<Rightarrow> nat \<Rightarrow> StreamState \<Rightarrow> ConfigSnapshot option \<Rightarrow> bool \<Rightarrow> ConfigServer \<Rightarrow> ConfigServer option" where
  "streamPush now sid st built sendOk s =
     (case built of
        None \<Rightarrow> Some s
      | Some newSnapshot \<Rightarrow>
          if cs_Version newSnapshot = st_lastVersion st then Some s
          else if \<not> sendOk then streamReturn now sid s
          else Some (s\<lparr>cv_streams := gm_put sid (st\<lparr>st_lastVersion := cs_Version newSnapshot,
                                                    st_sent := st_sent st @ [newSnapshot]\<rparr>) (cv_streams s),
                       cv_cache := ca_Set (rq_NodeName (st_req st)) newSnapshot (cv_cache s)\<rparr>))"

text \<open>The ticker of a subscribed stream.\<close>

definition streamTick :: "gotime \<Rightarrow> nat \<Rightarrow> ConfigSnapshot option \<Rightarrow> bool \<Rightarrow> ConfigServer \<Rightarrow> ConfigServer option" where
  "streamTick now sid built sendOk s =
     (case map_of (cv_streams s) sid of
        None \<Rightarrow> Some s
      | Some st \<Rightarrow>
          if \<not> st_subscribed st then Some s
          else if \<not> cv_dirty s then Some s
          else streamPush now sid st built sendOk (s\<lparr>cv_dirty := False\<rparr>))"

text \<open>A notification is received from the update channel, when there is one.\<close>

definition streamUpdate :: "gotime \<Rightarrow> nat \<Rightarrow> ConfigSnapshot option \<Rightarrow> bool \<Rightarrow> ConfigServer \<Rightarrow> ConfigServer option" where
  "streamUpdate now sid built sendOk s =
     (case map_of (cv_streams s) sid of
        None \<Rightarrow> Some s
      | Some st \<Rightarrow>
          if \<not> st_subscribed st then Some s
          else
            (case map_of (ca_chans (cv_cache s)) sid of
               Some (_ # buf) \<Rightarrow>
                 streamPush now sid st built sendOk
                   (s\<lparr>cv_cache := (cv_cache s)\<lparr>ca_chans := gm_put sid buf (ca_chans (cv_cache s))\<rparr>\<rparr>)
             | _ \<Rightarrow> Some s))"

text \<open>Certificates for the mesh. Signing and the data of the mesh CA are parameters.\<close>

record MeshCA =
  mc_SignCSR :: "bytes \<Rightarrow> string \<Rightarrow> (bytes \<times> int) option"
  mc_CACertPEM :: bytes
  mc_TrustDomain :: string

record MeshCertificateResponse =
  mr_Certificate :: bytes
  mr_CaCertificate :: bytes
  mr_SpiffeId :: string
  mr_ExpiryUnix :: int

definition RequestMeshCertificate :: "MeshCA option \<Rightarrow> peerAuth \<Rightarrow> bytes \<Rightarrow> string \<Rightarrow> rpc_error + MeshCertificateResponse" where
  "RequestMeshCertificate meshCA peer csr nodeName =
     (case validatePeerNodeName peer nodeName of
        Some err \<Rightarrow> Inl err
      | None \<Rightarrow>
          (case meshCA of
             None \<Rightarrow> Inl Unavailable
           | Some ca \<Rightarrow>
               if csr = [] then Inl InvalidArgument
               else if nodeName = [] then Inl InvalidArgument
               else
                 (case mc_SignCSR ca csr nodeName of
                    None \<Rightarrow> Inl Internal
                  | Some (certPEM, notAfter) \<Rightarrow>
                      Inr \<lparr>mr_Certificate = certPEM, mr_CaCertificate = mc_CACertPEM ca,
                           mr_SpiffeId = ''spiffe://'' @ mc_TrustDomain ca @ ''/agent/'' @ nodeName, mr_ExpiryUnix = notAfter\<rparr>)))"

subsection \<open>Who may act for a node\<close>

text \<open>The nodes that the SPIFFE identities of a certificate name.\<close>

definition agent_node :: "string \<times> string \<Rightarrow> string option" where
  "agent_node uri =
     (case Split (CHR ''/'') (snd uri) of
        _ # a # node # _ \<Rightarrow> if fst uri = ''spiffe'' \<and> a = ''agent'' then Some node else None
      | _ \<Rightarrow> None)"

lemma split_parts:
  "(length (Split (CHR ''/'') p) \<ge> 3 \<and> Split (CHR ''/'') p ! 1 = ''agent'') \<longleftrightarrow> (\<exists>x n r. Split (CHR ''/'') p = x # ''agent'' # n # r)"
proof
  assume "length (Split (CHR ''/'') p) \<ge> 3 \<and> Split (CHR ''/'') p ! 1 = ''agent''"
  then show "\<exists>x n r. Split (CHR ''/'') p = x # ''agent'' # n # r"
    by (cases "Split (CHR ''/'') p" rule: remdups_adj.cases; cases "tl (tl (Split (CHR ''/'') p))") auto
qed auto

lemma scanURIs_eq:
  "scanURIs uris node found =
     (if Some node \<in> agent_node ` set uris then None else Some (found \<or> (\<exists>n. Some n \<in> agent_node ` set uris)))"
proof (induction uris node found rule: scanURIs.induct)
  case (2 scheme path uris node found)
  show ?case
  proof (cases "scheme = ''spiffe'' \<and> (\<exists>x n r. Split (CHR ''/'') path = x # ''agent'' # n # r)")
    case True
    then obtain x n r where s: "scheme = ''spiffe''" "Split (CHR ''/'') path = x # ''agent'' # n # r" by blast
    then have "agent_node (scheme, path) = Some n" by (simp add: agent_node_def)
    then show ?thesis using 2 s by auto
  next
    case False
    then have "agent_node (scheme, path) = None" by (auto simp: agent_node_def split: list.splits)
    then show ?thesis using 2 False split_parts [of path] by (auto simp: Let_def)
  qed
qed simp

text \<open>
  C32. With a client certificate a call for a node is let through exactly when one of the
  certificate's SPIFFE agent identities names that node, or when it has no such identity and its
  common name is the node; in particular a certificate without a recognisable identity is refused.
\<close>
theorem validatePeerNodeName_exact:
  "validatePeerNodeName (TLSInfo (cert # rest)) node = None \<longleftrightarrow>
     (\<exists>uri \<in> set (px_URIs cert). agent_node uri = Some node) \<or>
     ((\<forall>uri \<in> set (px_URIs cert). agent_node uri = None) \<and> node \<noteq> [] \<and> px_CommonName cert = node)"
proof -
  have "(\<exists>uri \<in> set us. agent_node uri = Some node) \<longleftrightarrow> Some node \<in> agent_node ` set us" for us
    unfolding image_iff by (simp add: eq_commute)
  moreover have "(\<forall>uri \<in> set us. agent_node uri = None) \<longleftrightarrow> \<not> (\<exists>n. Some n \<in> agent_node ` set us)" for us
    unfolding image_iff by (metis not_None_eq)
  ultimately show ?thesis
    by (auto simp: validatePeerNodeName_def scanURIs_eq split: option.splits if_splits bool.splits)
qed

theorem validatePeerNodeName_exact_witness:
  "let cert = \<lparr>px_URIs = [(''spiffe'', ''/agent/n1'')], px_CommonName = ''n2''\<rparr>
   in validatePeerNodeName (TLSInfo [cert]) ''n1'' = None \<and> validatePeerNodeName (TLSInfo [cert]) ''n2'' \<noteq> None"
proof -
  let ?cert = "\<lparr>px_URIs = [(''spiffe'', ''/agent/n1'')], px_CommonName = ''n2''\<rparr>"
  have "agent_node (''spiffe'', ''/agent/n1'') = Some ''n1''" by code_simp
  then show ?thesis
    using validatePeerNodeName_exact [of ?cert "[]" "''n1''"] validatePeerNodeName_exact [of ?cert "[]" "''n2''"]
    unfolding Let_def by simp
qed

end
