(* ===== verification/Config_Streams.thy ===== *)
theory Config_Streams
  imports Config_Server
begin

section \<open>Runs of the configuration server\<close>

text \<open>
  Streams, subscriptions and channels in every run of the server, the delivery of an update to
  every agent, and the cases in which the bookkeeping goes wrong.
\<close>

subsection \<open>Subscriptions\<close>

definition sub_of :: "(nat, StreamState) gomap \<Rightarrow> nat \<Rightarrow> string \<Rightarrow> bool" where
  "sub_of streams ch node \<longleftrightarrow>
     (case map_of streams ch of None \<Rightarrow> False | Some st \<Rightarrow> st_subscribed st \<and> rq_NodeName (st_req st) = node)"

text \<open>
  The lists of subscribers name exactly the streams that are subscribed, each once, and exactly
  their channels are open.
\<close>

definition links_ok :: "(nat, StreamState) gomap \<Rightarrow> Cache \<Rightarrow> bool" where
  "links_ok streams c \<longleftrightarrow>
     gm_ok (ca_subscribers c) \<and> gm_ok (ca_chans c) \<and> gm_all (\<lambda>_ buf. length buf \<le> 10) (ca_chans c) \<and>
     (\<forall>node. distinct (gm_get [] (ca_subscribers c) node)) \<and>
     (\<forall>node ch. ch \<in> set (gm_get [] (ca_subscribers c) node) \<longleftrightarrow> sub_of streams ch node) \<and>
     (\<forall>ch. map_of (ca_chans c) ch \<noteq> None \<longleftrightarrow> (\<exists>node. sub_of streams ch node))"

text \<open>A stream has sent its last version last, never the same version twice in a row, and its node is cached.\<close>

definition stream_ok :: "Cache \<Rightarrow> StreamState \<Rightarrow> bool" where
  "stream_ok c st \<longleftrightarrow>
     st_sent st \<noteq> [] \<and> cs_Version (last (st_sent st)) = st_lastVersion st \<and>
     successively (\<noteq>) (map cs_Version (st_sent st)) \<and> ca_Get (rq_NodeName (st_req st)) c \<noteq> None"

definition config_inv :: "ConfigServer \<Rightarrow> bool" where
  "config_inv s \<longleftrightarrow>
     gm_ok (cv_streams s) \<and> int (length (cv_streams s)) < 2 ^ 62 \<and> cv_activeStreams s = int (length (cv_streams s)) \<and>
     links_ok (cv_streams s) (cv_cache s) \<and> gm_all (\<lambda>_. stream_ok (cv_cache s)) (cv_streams s)"

lemma sub_of_unique: "sub_of streams ch n \<Longrightarrow> sub_of streams ch m \<Longrightarrow> n = m"
  by (auto simp: sub_of_def split: option.splits)

lemma sub_of_put: "sub_of (gm_put k st streams) ch node \<longleftrightarrow>
    (if ch = k then st_subscribed st \<and> rq_NodeName (st_req st) = node else sub_of streams ch node)"
  by (simp add: sub_of_def update_conv')

lemma sub_of_del: "sub_of (gm_del k streams) ch node \<longleftrightarrow> ch \<noteq> k \<and> sub_of streams ch node"
  by (auto simp: sub_of_def delete_conv')

lemma links_ok_cong: "(\<And>ch node. sub_of streams ch node \<longleftrightarrow> sub_of streams' ch node) \<Longrightarrow> links_ok streams c \<longleftrightarrow> links_ok streams' c"
  by (simp add: links_ok_def)

lemma links_ok_Set [simp]: "links_ok streams (ca_Set node snap c) \<longleftrightarrow> links_ok streams c"
  by (simp add: links_ok_def ca_Set_def)

lemma links_openD:
  assumes "links_ok streams c" and "sub_of streams ch node"
  shows "ch \<in> set (gm_get [] (ca_subscribers c) node)" and "\<exists>buf. map_of (ca_chans c) ch = Some buf \<and> length buf \<le> 10"
proof -
  show "ch \<in> set (gm_get [] (ca_subscribers c) node)" using assms by (simp add: links_ok_def)
  have "map_of (ca_chans c) ch \<noteq> None" using assms by (auto simp: links_ok_def)
  then obtain buf where "map_of (ca_chans c) ch = Some buf" by blast
  moreover have "gm_all (\<lambda>_ buf. length buf \<le> 10) (ca_chans c)" using assms(1) by (simp add: links_ok_def)
  ultimately show "\<exists>buf. map_of (ca_chans c) ch = Some buf \<and> length buf \<le> 10" using gm_all_lookup by fastforce
qed

lemma stream_ok_mono:
  "stream_ok c st \<Longrightarrow> (\<And>node. ca_Get node c \<noteq> None \<Longrightarrow> ca_Get node c' \<noteq> None) \<Longrightarrow> stream_ok c' st"
  by (auto simp: stream_ok_def)

lemma ca_Get_Set [simp]: "ca_Get n (ca_Set node snap c) = (if n = node then Some snap else ca_Get n c)"
  by (simp add: ca_Get_def ca_Set_def update_conv')

subsection \<open>Notifications\<close>

text \<open>What sending to some channels keeps.\<close>

definition keeps_links :: "Cache \<Rightarrow> Cache \<Rightarrow> bool" where
  "keeps_links c c' \<longleftrightarrow>
     ca_subscribers c' = ca_subscribers c \<and> ca_snapshots c' = ca_snapshots c \<and>
     (gm_ok (ca_chans c) \<longrightarrow> gm_ok (ca_chans c')) \<and>
     (gm_all (\<lambda>_ buf. length buf \<le> 10) (ca_chans c) \<longrightarrow> gm_all (\<lambda>_ buf. length buf \<le> 10) (ca_chans c')) \<and>
     (\<forall>ch. map_of (ca_chans c') ch = None \<longleftrightarrow> map_of (ca_chans c) ch = None) \<and>
     (\<forall>ch. map_of (ca_chans c') ch = Some [] \<longrightarrow> map_of (ca_chans c) ch = Some [])"

lemma keeps_links_refl: "keeps_links c c"
  by (simp add: keeps_links_def)

lemma keeps_links_trans: "keeps_links a b \<Longrightarrow> keeps_links b c \<Longrightarrow> keeps_links a c"
  by (simp add: keeps_links_def)

lemma links_ok_keeps: "links_ok streams c \<Longrightarrow> keeps_links c c' \<Longrightarrow> links_ok streams c'"
  by (simp add: links_ok_def keeps_links_def)

lemma trySend_open:
  assumes "map_of (ca_chans c) ch \<noteq> None"
  obtains c' where "trySend v ch (Some c) = Some c'" "keeps_links c c'" "map_of (ca_chans c') ch \<noteq> Some []"
proof -
  from assms obtain buf where "map_of (ca_chans c) ch = Some buf" by blast
  then show thesis
    using that by (cases "int (length buf) < updateChCap"; cases buf)
      (auto simp: trySend_def keeps_links_def update_conv' updateChCap_def)
qed

lemma trySend_fold:
  assumes "\<forall>ch \<in> set chs. map_of (ca_chans c) ch \<noteq> None"
  shows "\<exists>c'. fold (trySend v) chs (Some c) = Some c' \<and> keeps_links c c' \<and> (\<forall>ch \<in> set chs. map_of (ca_chans c') ch \<noteq> Some [])"
  using assms
proof (induction chs arbitrary: c)
  case Nil
  then show ?case by (simp add: keeps_links_refl)
next
  case (Cons ch chs)
  obtain c1 where c1: "trySend v ch (Some c) = Some c1" "keeps_links c c1" "map_of (ca_chans c1) ch \<noteq> Some []"
    using trySend_open Cons.prems by (metis list.set_intros(1))
  have "\<forall>ch \<in> set chs. map_of (ca_chans c1) ch \<noteq> None" using Cons.prems c1(2) by (simp add: keeps_links_def)
  from Cons.IH [OF this] obtain c2 where c2: "fold (trySend v) chs (Some c1) = Some c2" "keeps_links c1 c2"
    "\<forall>ch \<in> set chs. map_of (ca_chans c2) ch \<noteq> Some []" by blast
  then have "map_of (ca_chans c2) ch \<noteq> Some []" using c1(3) by (auto simp: keeps_links_def)
  then show ?case using c1 c2 keeps_links_trans by auto
qed

lemma notify_fold:
  assumes "\<forall>(node, chs) \<in> set subs. \<forall>ch \<in> set chs. map_of (ca_chans c) ch \<noteq> None"
  shows "\<exists>c'. fold (\<lambda>(node, chs). fold (trySend node) chs) subs (Some c) = Some c' \<and> keeps_links c c' \<and>
    (\<forall>(node, chs) \<in> set subs. \<forall>ch \<in> set chs. map_of (ca_chans c') ch \<noteq> Some [])"
  using assms
proof (induction subs arbitrary: c)
  case Nil
  then show ?case by (simp add: keeps_links_refl)
next
  case (Cons e subs)
  obtain node chs where e: "e = (node, chs)" by (cases e)
  obtain c1 where c1: "fold (trySend node) chs (Some c) = Some c1" "keeps_links c c1"
    "\<forall>ch \<in> set chs. map_of (ca_chans c1) ch \<noteq> Some []"
    using trySend_fold [of chs c node] Cons.prems by (auto simp: e)
  have "\<forall>(node, chs) \<in> set subs. \<forall>ch \<in> set chs. map_of (ca_chans c1) ch \<noteq> None"
    using Cons.prems c1(2) by (auto simp: keeps_links_def)
  from Cons.IH [OF this] obtain c2 where c2: "fold (\<lambda>(node, chs). fold (trySend node) chs) subs (Some c1) = Some c2"
    "keeps_links c1 c2" "\<forall>(node, chs) \<in> set subs. \<forall>ch \<in> set chs. map_of (ca_chans c2) ch \<noteq> Some []" by blast
  then have "\<forall>ch \<in> set chs. map_of (ca_chans c2) ch \<noteq> Some []" using c1(3) by (auto simp: keeps_links_def)
  then show ?case using c1 c2 keeps_links_trans by (auto simp: e)
qed

lemma Notify_ok:
  assumes "links_ok streams c"
  shows "\<exists>c'. Notify node c = Some c' \<and> keeps_links c c' \<and> (\<forall>ch. sub_of streams ch node \<longrightarrow> map_of (ca_chans c') ch \<noteq> Some [])"
proof -
  have "\<forall>ch \<in> set (gm_get [] (ca_subscribers c) node). map_of (ca_chans c) ch \<noteq> None"
    using assms by (auto simp: links_ok_def)
  from trySend_fold [OF this, of node] show ?thesis using assms by (auto simp: Notify_def links_ok_def)
qed

lemma NotifyAll_ok:
  assumes "links_ok streams c"
  shows "\<exists>c'. NotifyAll c = Some c' \<and> keeps_links c c' \<and> (\<forall>ch node. sub_of streams ch node \<longrightarrow> map_of (ca_chans c') ch \<noteq> Some [])"
proof -
  have mem: "(node, chs) \<in> set (ca_subscribers c) \<longleftrightarrow> map_of (ca_subscribers c) node = Some chs" for node chs
    using assms by (intro gm_mem_iff) (simp add: links_ok_def)
  have "map_of (ca_chans c) ch \<noteq> None" if "(node, chs) \<in> set (ca_subscribers c)" "ch \<in> set chs" for node chs ch
    using assms that unfolding mem links_ok_def by (metis gm_get_def option.simps(5))
  then have "\<forall>(node, chs) \<in> set (ca_subscribers c). \<forall>ch \<in> set chs. map_of (ca_chans c) ch \<noteq> None" by blast
  from notify_fold [OF this] obtain c' where c': "NotifyAll c = Some c'" "keeps_links c c'"
    "\<And>node chs ch. (node, chs) \<in> set (ca_subscribers c) \<Longrightarrow> ch \<in> set chs \<Longrightarrow> map_of (ca_chans c') ch \<noteq> Some []"
    unfolding NotifyAll_def by blast
  have "map_of (ca_chans c') ch \<noteq> Some []" if "sub_of streams ch node" for ch node
  proof -
    have ch: "ch \<in> set (gm_get [] (ca_subscribers c) node)" using assms that by (rule links_openD)
    then obtain chs where "map_of (ca_subscribers c) node = Some chs" "ch \<in> set chs"
      by (cases "map_of (ca_subscribers c) node") (simp_all add: gm_get_def)
    then show ?thesis using c'(3) mem by blast
  qed
  with c' show ?thesis by blast
qed

subsection \<open>Every step keeps the invariant\<close>

lemma config_inv_frame:
  "config_inv s \<Longrightarrow> cv_streams s' = cv_streams s \<Longrightarrow> cv_cache s' = cv_cache s \<Longrightarrow> cv_activeStreams s' = cv_activeStreams s \<Longrightarrow>
   config_inv s'"
  by (simp add: config_inv_def)

lemma setConnection_frame [simp]:
  "cv_streams (setConnection now req b s) = cv_streams s" "cv_cache (setConnection now req b s) = cv_cache s"
  "cv_activeStreams (setConnection now req b s) = cv_activeStreams s" "cv_dirty (setConnection now req b s) = cv_dirty s"
  by (simp_all add: setConnection_def updateAgentConnectionWithCluster_def Let_def)

lemma streamDeferred_frame [simp]:
  "cv_streams (streamDeferred now req s) = cv_streams s" "cv_cache (streamDeferred now req s) = cv_cache s"
  "cv_activeStreams (streamDeferred now req s) = wrap64 (cv_activeStreams s - 1)" "cv_dirty (streamDeferred now req s) = cv_dirty s"
  by (simp_all add: streamDeferred_def decrementStreams_def Let_def)

lemma config_inv_keeps:
  assumes "config_inv s" and "keeps_links (cv_cache s) c"
  shows "config_inv (s\<lparr>cv_cache := c\<rparr>)"
proof -
  have "ca_Get node c = ca_Get node (cv_cache s)" for node using assms(2) by (simp add: keeps_links_def ca_Get_def)
  then have "stream_ok c = stream_ok (cv_cache s)" by (simp add: stream_ok_def fun_eq_iff)
  then show ?thesis using assms links_ok_keeps [of "cv_streams s" "cv_cache s" c] by (simp add: config_inv_def)
qed

lemma doTrigger_ok:
  assumes "config_inv s"
  shows "\<exists>c. doTrigger node s = Some (s\<lparr>cv_cache := c\<rparr>) \<and> keeps_links (cv_cache s) c \<and>
    (\<forall>ch n. (node = [] \<or> n = node) \<and> sub_of (cv_streams s) ch n \<longrightarrow> map_of (ca_chans c) ch \<noteq> Some [])"
proof -
  have l: "links_ok (cv_streams s) (cv_cache s)" using assms by (simp add: config_inv_def)
  show ?thesis
  proof (cases "node = []")
    case True
    then show ?thesis using NotifyAll_ok [OF l] by (auto simp: doTrigger_def)
  next
    case False
    then show ?thesis using Notify_ok [OF l, of node] by (auto simp: doTrigger_def)
  qed
qed

lemma config_inv_fires: "config_inv s \<Longrightarrow> \<exists>s'. debounceFires s = Some s' \<and> config_inv s'"
proof (cases "cv_debounce s")
  case (Some node)
  assume inv: "config_inv s"
  then have "config_inv (s\<lparr>cv_debounce := None\<rparr>)" by (rule config_inv_frame) simp_all
  from doTrigger_ok [OF this, of node] config_inv_keeps [OF this] show ?thesis by (auto simp: debounceFires_def Some)
qed (simp add: debounceFires_def)

lemma gm_length_del: "gm_ok m \<Longrightarrow> map_of m k \<noteq> None \<Longrightarrow> length m = Suc (length (gm_del k m))"
  by (simp add: gm_length_card delete_conv' card_Suc_Diff1 [OF finite_dom_map_of] domIff del: card_Diff_insert)

lemma Unsubscribe_ok:
  assumes "links_ok streams c" and "sub_of streams ch node"
  shows "\<exists>c'. Unsubscribe node ch c = Some c' \<and> links_ok (gm_del ch streams) c' \<and> ca_snapshots c' = ca_snapshots c"
proof -
  let ?subs = "gm_get [] (ca_subscribers c) node"
  let ?c = "c\<lparr>ca_subscribers := gm_put node (remove1 ch ?subs) (ca_subscribers c), ca_chans := gm_del ch (ca_chans c)\<rparr>"
  have ch: "ch \<in> set ?subs" "map_of (ca_chans c) ch \<noteq> None" using links_openD [OF assms] by auto
  then have u: "Unsubscribe node ch c = Some ?c" by (simp add: Unsubscribe_def closeChan_def Let_def)
  have d: "distinct (gm_get [] (ca_subscribers c) n)" for n using assms(1) by (simp add: links_ok_def)
  have "set (gm_get [] (ca_subscribers ?c) n) = set (gm_get [] (ca_subscribers c) n) - {ch}" for n
  proof (cases "n = node")
    case False
    then have "ch \<notin> set (gm_get [] (ca_subscribers c) n)" using assms sub_of_unique by (auto simp: links_ok_def)
    then show ?thesis using False by (simp add: gm_get_put)
  qed (simp add: gm_get_put d)
  moreover have "distinct (gm_get [] (ca_subscribers ?c) n)" for n using d by (simp add: gm_get_put distinct_remove1)
  ultimately have "links_ok (gm_del ch streams) ?c"
    using assms(1) unfolding links_ok_def by (auto simp: sub_of_del delete_conv')
  then show ?thesis using u by simp
qed

lemma config_inv_Return:
  assumes "config_inv s"
  shows "\<exists>s'. streamReturn now sid s = Some s' \<and> config_inv s' \<and> cv_dirty s' = cv_dirty s"
proof (cases "\<exists>st. map_of (cv_streams s) sid = Some st \<and> st_subscribed st")
  case True
  then obtain st where st: "map_of (cv_streams s) sid = Some st" "st_subscribed st" by blast
  have l: "links_ok (cv_streams s) (cv_cache s)" and ok: "gm_ok (cv_streams s)" using assms by (simp_all add: config_inv_def)
  have "sub_of (cv_streams s) sid (rq_NodeName (st_req st))" using st by (simp add: sub_of_def)
  from Unsubscribe_ok [OF l this] obtain c where c: "Unsubscribe (rq_NodeName (st_req st)) sid (cv_cache s) = Some c"
    "links_ok (gm_del sid (cv_streams s)) c" "ca_snapshots c = ca_snapshots (cv_cache s)" by blast
  have "stream_ok c = stream_ok (cv_cache s)" using c(3) by (simp add: stream_ok_def ca_Get_def fun_eq_iff)
  then have "config_inv (streamDeferred now (st_req st) (s\<lparr>cv_cache := c, cv_streams := gm_del sid (cv_streams s)\<rparr>))"
    using assms c(2) gm_length_del [OF ok, of sid] st(1)
    by (simp add: config_inv_def wrap64_id MinInt64_def MaxInt64_def)
  then show ?thesis using st c(1) by (simp add: streamReturn_def)
next
  case False
  then show ?thesis using assms by (auto simp: streamReturn_def split: option.splits)
qed

lemma successively_snoc: "successively P (xs @ [x]) \<longleftrightarrow> successively P xs \<and> (xs = [] \<or> P (last xs) x)"
  by (induction xs rule: induct_list012) auto

lemma config_inv_push:
  assumes "config_inv s" and "map_of (cv_streams s) sid = Some st" and "st_subscribed st"
  shows "\<exists>s'. streamPush now sid st built sendOk s = Some s' \<and> config_inv s' \<and> cv_dirty s' = cv_dirty s"
proof -
  have "config_inv (s\<lparr>cv_streams := gm_put sid (st\<lparr>st_lastVersion := cs_Version new, st_sent := st_sent st @ [new]\<rparr>) (cv_streams s),
      cv_cache := ca_Set (rq_NodeName (st_req st)) new (cv_cache s)\<rparr>)"
    if "cs_Version new \<noteq> st_lastVersion st" for new
  proof -
    let ?st = "st\<lparr>st_lastVersion := cs_Version new, st_sent := st_sent st @ [new]\<rparr>"
    have all: "gm_all (\<lambda>_. stream_ok (cv_cache s)) (cv_streams s)" and ok: "gm_ok (cv_streams s)"
      using assms(1) by (simp_all add: config_inv_def)
    have st: "stream_ok (cv_cache s) st" using gm_all_lookup [OF all assms(2)] .
    have "links_ok (gm_put sid ?st (cv_streams s)) (cv_cache s) \<longleftrightarrow> links_ok (cv_streams s) (cv_cache s)"
      using assms(2) by (intro links_ok_cong) (simp add: sub_of_put, simp add: sub_of_def)
    moreover have "stream_ok (ca_Set (rq_NodeName (st_req st)) new (cv_cache s)) ?st"
      using st that by (auto simp: stream_ok_def successively_snoc last_map)
    moreover have "gm_all (\<lambda>_. stream_ok (ca_Set (rq_NodeName (st_req st)) new (cv_cache s))) (cv_streams s)"
      using all by (rule gm_all_mono) (auto elim: stream_ok_mono)
    ultimately show ?thesis using assms(1,2) by (simp add: config_inv_def gm_length_put [OF ok])
  qed
  then show ?thesis
    using assms(1) config_inv_Return [OF assms(1), of now sid] by (auto simp: streamPush_def split: option.splits)
qed

datatype config_event =
    CfOpen nat gotime gotime peerAuth StreamConfigRequest "ConfigSnapshot option" bool
  | CfSubscribe nat
  | CfTick gotime nat "ConfigSnapshot option" bool
  | CfUpdate gotime nat "ConfigSnapshot option" bool
  | CfReturn gotime nat
  | CfTrigger string
  | CfFires
  | CfReport gotime peerAuth AgentStatus
  | CfCleanup gotime
  | CfHandler bool
  | CfShutdown

text \<open>A step of the server; \<open>None\<close> is a panic.\<close>

definition config_event_step :: "config_event \<Rightarrow> ConfigServer \<Rightarrow> ConfigServer option" where
  "config_event_step e s =
     (case e of
        CfOpen sid now now' peer req built sendOk \<Rightarrow> Some (fst (streamOpen sid now now' peer req built sendOk s))
      | CfSubscribe sid \<Rightarrow> Some (streamSubscribe sid s)
      | CfTick now sid built sendOk \<Rightarrow> streamTick now sid built sendOk s
      | CfUpdate now sid built sendOk \<Rightarrow> streamUpdate now sid built sendOk s
      | CfReturn now sid \<Rightarrow> streamReturn now sid s
      | CfTrigger node \<Rightarrow> Some (TriggerUpdate node s)
      | CfFires \<Rightarrow> debounceFires s
      | CfReport now peer req \<Rightarrow> Some (fst (ReportStatus now peer req s))
      | CfCleanup now \<Rightarrow> Some (cleanupStaleAgents now s)
      | CfHandler h \<Rightarrow> Some (SetRemoteClusterHandler h s)
      | CfShutdown \<Rightarrow> cv_Shutdown s)"

definition config_step :: "ConfigServer option \<Rightarrow> config_event \<Rightarrow> ConfigServer option" where
  "config_step s e = (case s of None \<Rightarrow> None | Some s \<Rightarrow> config_event_step e s)"

text \<open>A new stream has a new number, and the server is shut down once.\<close>

definition config_good :: "ConfigServer option \<Rightarrow> config_event \<Rightarrow> bool" where
  "config_good so e \<longleftrightarrow>
     (case so of
        None \<Rightarrow> True
      | Some s \<Rightarrow>
          (case e of
             CfOpen sid now now' peer req built sendOk \<Rightarrow>
               map_of (cv_streams s) sid = None \<and> int (length (cv_streams s)) + 1 < 2 ^ 62
           | CfShutdown \<Rightarrow> \<not> cv_shutdown s
           | _ \<Rightarrow> True))"

lemma config_inv_open:
  assumes "config_inv s" and "map_of (cv_streams s) sid = None" and "int (length (cv_streams s)) + 1 < 2 ^ 62"
  shows "config_inv (fst (streamOpen sid now now' peer req built sendOk s))"
proof (cases "validatePeerNodeName peer (rq_NodeName req)")
  case None
  let ?t = "\<lambda>s. if rq_ClusterName req \<noteq> []
    then s\<lparr>cv_remoteAgentTracker := RegisterAgent (remoteAgentInfo now req) (cv_remoteAgentTracker s)\<rparr> else s"
  let ?s = "incrementStreams (?t (setConnection now req True s))"
  have f: "cv_streams ?s = cv_streams s" "cv_cache ?s = cv_cache s" "cv_activeStreams ?s = cv_activeStreams s + 1"
    using assms(1,3) by (simp_all add: incrementStreams_def config_inv_def wrap64_id MinInt64_def MaxInt64_def)
  have all: "gm_all (\<lambda>_. stream_ok (cv_cache s)) (cv_streams s)" and ok: "gm_ok (cv_streams s)"
    using assms(1) by (simp_all add: config_inv_def)
  have all': "gm_all (\<lambda>_. stream_ok (ca_Set node snap (cv_cache s))) (cv_streams s)" for node snap
    using all by (rule gm_all_mono) (auto elim: stream_ok_mono)
  have undo: "wrap64 (int (length (cv_streams s))) = int (length (cv_streams s))"
    using assms(1) by (simp add: config_inv_def wrap64_id MinInt64_def MaxInt64_def)
  have early: "config_inv (streamDeferred now' req (?s\<lparr>cv_cache := c\<rparr>))" "config_inv (streamDeferred now' req ?s)"
    if "c = ca_Set node snap (cv_cache s)" for c node snap
    using assms(1) all' that by (simp_all add: config_inv_def f undo)
  have links: "links_ok (gm_put sid st (cv_streams s)) (cv_cache s)" if "\<not> st_subscribed st" for st
  proof -
    have "links_ok (gm_put sid st (cv_streams s)) (cv_cache s) \<longleftrightarrow> links_ok (cv_streams s) (cv_cache s)"
      using assms(2) that by (intro links_ok_cong) (simp add: sub_of_put, simp add: sub_of_def)
    then show ?thesis using assms(1) by (simp add: config_inv_def)
  qed
  show ?thesis
  proof (cases built)
    case None': None
    then show ?thesis using early by (simp add: streamOpen_def None Let_def)
  next
    case (Some snap)
    let ?st = "\<lparr>st_req = req, st_lastVersion = cs_Version snap, st_subscribed = False, st_sent = [snap]\<rparr>"
    have "config_inv (?s\<lparr>cv_cache := ca_Set (rq_NodeName req) snap (cv_cache s), cv_streams := gm_put sid ?st (cv_streams s)\<rparr>)"
      using assms all' links [of ?st] ok by (simp add: config_inv_def f gm_length_put) (simp add: stream_ok_def)
    then show ?thesis using early f by (simp add: streamOpen_def None Some Let_def)
  qed
qed (use assms in \<open>simp add: streamOpen_def\<close>)

lemma config_inv_subscribe:
  assumes "config_inv s"
  shows "config_inv (streamSubscribe sid s)"
proof (cases "\<exists>st. map_of (cv_streams s) sid = Some st \<and> \<not> st_subscribed st")
  case True
  then obtain st where st: "map_of (cv_streams s) sid = Some st" "\<not> st_subscribed st" by blast
  let ?st = "st\<lparr>st_subscribed := True\<rparr>" and ?c = "(cv_cache s)\<lparr>ca_chans := gm_put sid [] (ca_chans (cv_cache s))\<rparr>"
  let ?node = "rq_NodeName (st_req st)"
  have all: "gm_all (\<lambda>_. stream_ok (cv_cache s)) (cv_streams s)" and ok: "gm_ok (cv_streams s)"
    and l: "links_ok (cv_streams s) (cv_cache s)"
    using assms by (simp_all add: config_inv_def)
  have "stream_ok (cv_cache s) st" using gm_all_lookup [OF all st(1)] .
  moreover have "stream_ok (Subscribe ?node sid ?c) = stream_ok (cv_cache s)"
    by (simp add: stream_ok_def ca_Get_def Subscribe_def fun_eq_iff)
  moreover have "stream_ok (cv_cache s) ?st = stream_ok (cv_cache s) st" by (simp add: stream_ok_def)
  moreover have no: "\<not> sub_of (cv_streams s) sid n" for n using st by (simp add: sub_of_def)
  have "links_ok (gm_put sid ?st (cv_streams s)) (Subscribe ?node sid ?c)"
    using l no unfolding links_ok_def by (auto simp: Subscribe_def sub_of_put gm_get_put update_conv')
  ultimately have "config_inv (s\<lparr>cv_cache := Subscribe ?node sid ?c, cv_streams := gm_put sid ?st (cv_streams s)\<rparr>)"
    using assms all st(1) by (simp add: config_inv_def gm_length_put [OF ok])
  then show ?thesis using st by (simp add: streamSubscribe_def Let_def)
next
  case False
  then show ?thesis using assms by (auto simp: streamSubscribe_def split: option.splits)
qed

lemma config_inv_tick:
  assumes "config_inv s"
  shows "\<exists>s'. streamTick now sid built sendOk s = Some s' \<and> config_inv s'"
proof -
  have "config_inv (s\<lparr>cv_dirty := False\<rparr>)" using assms by (rule config_inv_frame) simp_all
  from config_inv_push [OF this, of sid] show ?thesis
    using assms by (fastforce simp: streamTick_def split: option.splits)
qed

lemma config_inv_drain:
  assumes "config_inv s" and "map_of (ca_chans (cv_cache s)) sid = Some (v # buf)"
  shows "config_inv (s\<lparr>cv_cache := (cv_cache s)\<lparr>ca_chans := gm_put sid buf (ca_chans (cv_cache s))\<rparr>\<rparr>)"
proof -
  let ?c = "(cv_cache s)\<lparr>ca_chans := gm_put sid buf (ca_chans (cv_cache s))\<rparr>"
  have l: "links_ok (cv_streams s) (cv_cache s)" using assms(1) by (simp add: config_inv_def)
  then have "length (v # buf) \<le> 10" using gm_all_lookup [OF _ assms(2), of "\<lambda>_ buf. length buf \<le> 10"] by (simp add: links_ok_def)
  then have "links_ok (cv_streams s) ?c"
    using l assms(2) unfolding links_ok_def by (auto simp: update_conv')
  moreover have "stream_ok ?c = stream_ok (cv_cache s)" by (simp add: stream_ok_def ca_Get_def fun_eq_iff)
  ultimately show ?thesis using assms(1) by (simp add: config_inv_def)
qed

lemma config_inv_update:
  assumes "config_inv s"
  shows "\<exists>s'. streamUpdate now sid built sendOk s = Some s' \<and> config_inv s'"
proof (cases "\<exists>st v buf. map_of (cv_streams s) sid = Some st \<and> st_subscribed st \<and> map_of (ca_chans (cv_cache s)) sid = Some (v # buf)")
  case True
  then obtain st v buf where st: "map_of (cv_streams s) sid = Some st" "st_subscribed st"
    and b: "map_of (ca_chans (cv_cache s)) sid = Some (v # buf)" by blast
  from config_inv_push [OF config_inv_drain [OF assms b], of sid st now built sendOk] show ?thesis
    using st by (auto simp: streamUpdate_def b)
next
  case False
  then show ?thesis using assms by (auto simp: streamUpdate_def split: option.splits list.splits)
qed

lemma config_event_inv:
  assumes "config_inv s" and "config_good (Some s) e"
  shows "\<exists>s'. config_event_step e s = Some s' \<and> config_inv s'"
proof (cases e)
  case (CfReport now peer req)
  have "config_inv (fst (ReportStatus now peer req s))"
    using assms(1) by (rule config_inv_frame) (simp_all add: ReportStatus_def storeAgentStatus_def Let_def split: option.splits)
  then show ?thesis by (simp add: config_event_step_def CfReport)
next
  case (CfReturn now sid)
  then show ?thesis using config_inv_Return [OF assms(1), of now sid] by (auto simp: config_event_step_def)
next
  case (CfShutdown)
  have "config_inv (s\<lparr>cv_debounce := None, cv_shutdown := True\<rparr>)" using assms(1) by (rule config_inv_frame) simp_all
  then show ?thesis using assms(2) by (simp add: config_event_step_def CfShutdown cv_Shutdown_def config_good_def)
qed (use assms config_inv_frame [OF assms(1)] in \<open>simp_all add: config_event_step_def config_good_def config_inv_open config_inv_subscribe
    config_inv_tick config_inv_update config_inv_fires TriggerUpdate_def cleanupStaleAgents_def SetRemoteClusterHandler_def\<close>)

interpretation cfg: invariant_system config_step config_good "\<lambda>so. \<exists>s. so = Some s \<and> config_inv s"
  by unfold_locales (use config_event_inv in \<open>auto simp: config_step_def\<close>)

lemma config_inv_New: "config_inv NewConfigServer"
  by (simp add: config_inv_def NewConfigServer_def NewCache_def links_ok_def sub_of_def gm_get_def)

text \<open>
  C30. In every run of the server, whatever agents connect, disconnect and report and whatever is
  triggered: the server does not panic, the number of active streams is exact, an agent is never
  sent the same version twice in a row, what it was sent last is what the stream compares with, and
  exactly the subscribed streams receive notifications, over channels that are open and hold at most ten.
\<close>
theorem config_server_runs:
  assumes "good_run config_step config_good (Some NewConfigServer) es"
  shows "\<exists>s. run config_step (Some NewConfigServer) es = Some s \<and>
    GetActiveStreamCount s = int (length (cv_streams s)) \<and>
    (\<forall>sid st. map_of (cv_streams s) sid = Some st \<longrightarrow>
       st_sent st \<noteq> [] \<and> st_lastVersion st = cs_Version (last (st_sent st)) \<and> successively (\<noteq>) (map cs_Version (st_sent st)) \<and>
       (st_subscribed st \<longleftrightarrow> sid \<in> set (gm_get [] (ca_subscribers (cv_cache s)) (rq_NodeName (st_req st)))) \<and>
       (st_subscribed st \<longrightarrow> (\<exists>buf. map_of (ca_chans (cv_cache s)) sid = Some buf \<and> int (length buf) \<le> updateChCap)))"
proof -
  have "\<exists>s. run config_step (Some NewConfigServer) es = Some s \<and> config_inv s"
    using config_inv_New assms by (intro cfg.run_inv) auto
  then obtain s where s: "run config_step (Some NewConfigServer) es = Some s" "config_inv s" by blast
  have l: "links_ok (cv_streams s) (cv_cache s)" and all: "gm_all (\<lambda>_. stream_ok (cv_cache s)) (cv_streams s)"
    using s(2) by (simp_all add: config_inv_def)
  have "st_sent st \<noteq> [] \<and> st_lastVersion st = cs_Version (last (st_sent st)) \<and> successively (\<noteq>) (map cs_Version (st_sent st)) \<and>
      (st_subscribed st \<longleftrightarrow> sid \<in> set (gm_get [] (ca_subscribers (cv_cache s)) (rq_NodeName (st_req st)))) \<and>
      (st_subscribed st \<longrightarrow> (\<exists>buf. map_of (ca_chans (cv_cache s)) sid = Some buf \<and> int (length buf) \<le> updateChCap))"
    if st: "map_of (cv_streams s) sid = Some st" for sid st
  proof -
    have "stream_ok (cv_cache s) st" using gm_all_lookup [OF all st] .
    moreover have "sub_of (cv_streams s) sid (rq_NodeName (st_req st)) \<longleftrightarrow> st_subscribed st" using st by (simp add: sub_of_def)
    ultimately show ?thesis
      using l links_openD(2) [OF l] by (auto simp: stream_ok_def links_ok_def updateChCap_def)
  qed
  then show ?thesis using s by (auto simp: GetActiveStreamCount_def config_inv_def)
qed

text \<open>An agent of the node \<open>n1\<close> that connects and subscribes, for the witnesses.\<close>

definition sample_request :: "string \<Rightarrow> string \<Rightarrow> StreamConfigRequest" where
  "sample_request cluster node = \<lparr>rq_NodeName = node, rq_AgentVersion = ''v1'', rq_LastAppliedVersion = [], rq_ClusterName = cluster,
     rq_ClusterRegion = [], rq_ClusterZone = [], rq_ClusterLabels = []\<rparr>"

definition sample_version :: "string \<Rightarrow> ConfigSnapshot" where
  "sample_version v = (sample_snapshot [] [])\<lparr>cs_Version := v\<rparr>"

definition sample_streams :: "config_event list" where
  "sample_streams =
     [CfOpen 1 0 0 NoPeer (sample_request [] ''n1'') (Some (sample_version ''a'')) True, CfSubscribe 1,
      CfOpen 2 0 0 NoPeer (sample_request [] ''n2'') (Some (sample_version ''a'')) True, CfSubscribe 2]"

lemma sample_streams_good: "good_run config_step config_good (Some NewConfigServer) sample_streams"
  by code_simp

theorem config_server_runs_witness:
  "\<exists>s. run config_step (Some NewConfigServer) sample_streams = Some s \<and> GetActiveStreamCount s = int (length (cv_streams s))"
  using config_server_runs [OF sample_streams_good] by blast

subsection \<open>An update reaches every agent\<close>

text \<open>A stream handles a notification, with the snapshot that the builder makes for its node.\<close>

definition handleUpdate :: "(string \<Rightarrow> ConfigSnapshot) \<Rightarrow> gotime \<Rightarrow> nat \<Rightarrow> ConfigServer option \<Rightarrow> ConfigServer option" where
  "handleUpdate build now sid so =
     (case so of
        None \<Rightarrow> None
      | Some s \<Rightarrow>
          (case map_of (cv_streams s) sid of
             None \<Rightarrow> Some s
           | Some st \<Rightarrow> streamUpdate now sid (Some (build (rq_NodeName (st_req st)))) True s))"

definition updated :: "(string \<Rightarrow> ConfigSnapshot) \<Rightarrow> StreamState \<Rightarrow> StreamState" where
  "updated build st =
     (let new = build (rq_NodeName (st_req st))
      in if cs_Version new = st_lastVersion st then st
         else st\<lparr>st_lastVersion := cs_Version new, st_sent := st_sent st @ [new]\<rparr>)"

lemma handleUpdate_pending:
  assumes "map_of (cv_streams s) sid = Some st" and "st_subscribed st" and "map_of (ca_chans (cv_cache s)) sid = Some (v # buf)"
  shows "\<exists>s'. handleUpdate build now sid (Some s) = Some s' \<and>
    map_of (cv_streams s') = (map_of (cv_streams s))(sid \<mapsto> updated build st) \<and>
    map_of (ca_chans (cv_cache s')) = (map_of (ca_chans (cv_cache s)))(sid \<mapsto> buf)"
  using assms
  by (auto simp: handleUpdate_def streamUpdate_def streamPush_def updated_def Let_def update_conv' ca_Set_def fun_upd_idem)

lemma handleUpdate_idle:
  assumes "\<And>st. map_of (cv_streams s) sid = Some st \<Longrightarrow> \<not> st_subscribed st"
  shows "handleUpdate build now sid (Some s) = Some s"
  using assms by (auto simp: handleUpdate_def streamUpdate_def split: option.splits)

lemma handleUpdate_fold:
  assumes "distinct sids"
    and "\<And>sid st. sid \<in> set sids \<Longrightarrow> map_of (cv_streams s) sid = Some st \<Longrightarrow> st_subscribed st \<Longrightarrow>
      \<exists>v buf. map_of (ca_chans (cv_cache s)) sid = Some (v # buf)"
  shows "\<exists>s'. fold (handleUpdate build now) sids (Some s) = Some s' \<and>
    (\<forall>sid. map_of (cv_streams s') sid =
       map_option (\<lambda>st. if sid \<in> set sids \<and> st_subscribed st then updated build st else st) (map_of (cv_streams s) sid))"
  using assms
proof (induction sids arbitrary: s)
  case Nil
  then show ?case by (simp add: option.map_ident)
next
  case (Cons k sids)
  show ?case
  proof (cases "\<exists>st. map_of (cv_streams s) k = Some st \<and> st_subscribed st")
    case True
    then obtain st where st: "map_of (cv_streams s) k = Some st" "st_subscribed st" by blast
    then obtain v buf where b: "map_of (ca_chans (cv_cache s)) k = Some (v # buf)" using Cons.prems(2) [of k st] by auto
    obtain s1 where s1: "handleUpdate build now k (Some s) = Some s1"
      "map_of (cv_streams s1) = (map_of (cv_streams s))(k \<mapsto> updated build st)"
      "map_of (ca_chans (cv_cache s1)) = (map_of (ca_chans (cv_cache s)))(k \<mapsto> buf)"
      using handleUpdate_pending [OF st b, of build now] by blast
    have "\<exists>v buf. map_of (ca_chans (cv_cache s1)) sid = Some (v # buf)"
      if "sid \<in> set sids" "map_of (cv_streams s1) sid = Some st'" "st_subscribed st'" for sid st'
      using that Cons.prems s1(2,3) by (cases "sid = k") auto
    then have "\<exists>s'. fold (handleUpdate build now) sids (Some s1) = Some s' \<and>
      (\<forall>sid. map_of (cv_streams s') sid =
         map_option (\<lambda>st. if sid \<in> set sids \<and> st_subscribed st then updated build st else st) (map_of (cv_streams s1) sid))"
      using Cons.prems(1) by (intro Cons.IH) auto
    then obtain s2 where s2: "fold (handleUpdate build now) sids (Some s1) = Some s2"
      "\<And>sid. map_of (cv_streams s2) sid =
         map_option (\<lambda>st. if sid \<in> set sids \<and> st_subscribed st then updated build st else st) (map_of (cv_streams s1) sid)"
      by blast
    have "map_of (cv_streams s2) sid =
        map_option (\<lambda>st. if sid \<in> set (k # sids) \<and> st_subscribed st then updated build st else st) (map_of (cv_streams s) sid)" for sid
      using s2(2) [of sid] Cons.prems(1) st by (cases "sid = k") (auto simp: s1(2))
    then show ?thesis by (simp add: s1(1) s2(1))
  next
    case False
    then have h: "handleUpdate build now k (Some s) = Some s" by (intro handleUpdate_idle) auto
    have "\<exists>s'. fold (handleUpdate build now) sids (Some s) = Some s' \<and>
      (\<forall>sid. map_of (cv_streams s') sid =
         map_option (\<lambda>st. if sid \<in> set sids \<and> st_subscribed st then updated build st else st) (map_of (cv_streams s) sid))"
      using Cons.prems by (intro Cons.IH) auto
    then show ?thesis using False by (auto simp: h intro!: option.map_cong)
  qed
qed

text \<open>
  C31. When the server announces a change to all nodes and every stream handles its notification, in
  whatever order, every subscribed agent ends up with the version that is built for its node: it
  was sent that snapshot exactly when it did not have the version yet, and no other.
\<close>
theorem update_reaches_agents:
  assumes "good_run config_step config_good (Some NewConfigServer) es" and "run config_step (Some NewConfigServer) es = Some s"
    and "distinct sids" and "\<forall>sid st. map_of (cv_streams s) sid = Some st \<and> st_subscribed st \<longrightarrow> sid \<in> set sids"
  shows "\<exists>s1 s2. doTrigger [] s = Some s1 \<and> fold (handleUpdate build now) sids (Some s1) = Some s2 \<and>
    (\<forall>sid st. map_of (cv_streams s) sid = Some st \<and> st_subscribed st \<longrightarrow>
       (\<exists>st'. map_of (cv_streams s2) sid = Some st' \<and> st_lastVersion st' = cs_Version (build (rq_NodeName (st_req st))) \<and>
          st_sent st' = (if st_lastVersion st = cs_Version (build (rq_NodeName (st_req st))) then st_sent st
                         else st_sent st @ [build (rq_NodeName (st_req st))])))"
proof -
  have inv: "config_inv s" using cfg.run_inv [OF _ assms(1)] config_inv_New assms(2) by auto
  have l: "links_ok (cv_streams s) (cv_cache s)" using inv by (simp add: config_inv_def)
  from doTrigger_ok [OF inv, of "[]"] obtain c where c: "doTrigger [] s = Some (s\<lparr>cv_cache := c\<rparr>)" "keeps_links (cv_cache s) c"
    "\<And>ch n. sub_of (cv_streams s) ch n \<Longrightarrow> map_of (ca_chans c) ch \<noteq> Some []" by blast
  have "\<exists>v buf. map_of (ca_chans (cv_cache (s\<lparr>cv_cache := c\<rparr>))) sid = Some (v # buf)"
    if "map_of (cv_streams (s\<lparr>cv_cache := c\<rparr>)) sid = Some st" "st_subscribed st" for sid st
  proof -
    have sub: "sub_of (cv_streams s) sid (rq_NodeName (st_req st))" using that by (simp add: sub_of_def)
    have "map_of (ca_chans c) sid \<noteq> None" using links_openD(2) [OF l sub] c(2) by (auto simp: keeps_links_def)
    then obtain buf where "map_of (ca_chans c) sid = Some buf" by blast
    then show ?thesis using c(3) [OF sub] by (cases buf) simp_all
  qed
  from handleUpdate_fold [OF assms(3), of "s\<lparr>cv_cache := c\<rparr>" build now] this obtain s2 where
    s2: "fold (handleUpdate build now) sids (Some (s\<lparr>cv_cache := c\<rparr>)) = Some s2"
      "\<And>sid. map_of (cv_streams s2) sid =
        map_option (\<lambda>st. if sid \<in> set sids \<and> st_subscribed st then updated build st else st) (map_of (cv_streams s) sid)"
    by auto
  have "\<exists>st'. map_of (cv_streams s2) sid = Some st' \<and> st_lastVersion st' = cs_Version (build (rq_NodeName (st_req st))) \<and>
      st_sent st' = (if st_lastVersion st = cs_Version (build (rq_NodeName (st_req st))) then st_sent st
                     else st_sent st @ [build (rq_NodeName (st_req st))])"
    if "map_of (cv_streams s) sid = Some st \<and> st_subscribed st" for sid st
    using that s2(2) [of sid] assms(4) by (auto simp: updated_def Let_def)
  then show ?thesis using c(1) s2(1) by blast
qed

theorem update_reaches_agents_witness:
  "let s = the (run config_step (Some NewConfigServer) sample_streams)
   in \<exists>s1 s2. doTrigger [] s = Some s1 \<and> fold (handleUpdate (\<lambda>_. sample_version ''b'') 5) [2, 1] (Some s1) = Some s2 \<and>
        map_option st_lastVersion (map_of (cv_streams s2) 1) = Some ''b''"
proof -
  let ?s = "the (run config_step (Some NewConfigServer) sample_streams)"
  have r: "run config_step (Some NewConfigServer) sample_streams = Some ?s" by code_simp
  have k: "gm_keys (cv_streams ?s) = [1, 2]" "map_option st_subscribed (map_of (cv_streams ?s) 1) = Some True" by code_simp+
  have "sid \<in> set [2, 1]" if "map_of (cv_streams ?s) sid = Some st" for sid st
  proof -
    have "sid \<in> set (gm_keys (cv_streams ?s))" using map_of_SomeD [OF that] by force
    then show ?thesis unfolding k(1) by auto
  qed
  then have m: "\<forall>sid st. map_of (cv_streams ?s) sid = Some st \<and> st_subscribed st \<longrightarrow> sid \<in> set [2, 1]" by blast
  have "distinct [2 :: nat, 1]" by simp
  note t = update_reaches_agents [OF sample_streams_good r this, of "\<lambda>_. sample_version ''b''" 5]
  have "\<exists>s1 s2. doTrigger [] ?s = Some s1 \<and> fold (handleUpdate (\<lambda>_. sample_version ''b'') 5) [2, 1] (Some s1) = Some s2 \<and>
    (\<forall>sid st. map_of (cv_streams ?s) sid = Some st \<and> st_subscribed st \<longrightarrow>
      (\<exists>st'. map_of (cv_streams s2) sid = Some st' \<and> st_lastVersion st' = cs_Version (sample_version ''b'')))"
    using t [OF m] by blast
  then obtain s1 s2 where s: "doTrigger [] ?s = Some s1" "fold (handleUpdate (\<lambda>_. sample_version ''b'') 5) [2, 1] (Some s1) = Some s2"
    "\<And>sid st. map_of (cv_streams ?s) sid = Some st \<and> st_subscribed st \<Longrightarrow>
      \<exists>st'. map_of (cv_streams s2) sid = Some st' \<and> st_lastVersion st' = cs_Version (sample_version ''b'')"
    by blast
  obtain st where "map_of (cv_streams ?s) 1 = Some st \<and> st_subscribed st" using k(2) by auto
  from s(3) [OF this] have "map_option st_lastVersion (map_of (cv_streams s2) 1) = Some ''b''" by (auto simp: sample_version_def)
  then show ?thesis unfolding Let_def using s(1,2) by blast
qed

subsection \<open>Where the bookkeeping goes wrong\<close>

text \<open>
  C34. The mark that a resource has changed is shared by all streams and cleared by the first one
  whose ticker fires: until the next change the tickers of all other streams do nothing, whatever
  they would have built. The periodic rebuild repairs a missed notification for one agent only.
\<close>
theorem dirty_flag_serves_one_stream:
  assumes "good_run config_step config_good (Some NewConfigServer) es" and "run config_step (Some NewConfigServer) es = Some s"
    and "map_of (cv_streams s) i = Some st" and "st_subscribed st" and "streamTick now i built sendOk s = Some s'"
  shows "\<not> cv_dirty s' \<and> streamTick now' j built' sendOk' s' = Some s'"
proof -
  have inv: "config_inv s" using cfg.run_inv [OF _ assms(1)] config_inv_New assms(2) by auto
  have "\<not> cv_dirty s'"
  proof (cases "cv_dirty s")
    case True
    have "config_inv (s\<lparr>cv_dirty := False\<rparr>)" using inv by (rule config_inv_frame) simp_all
    from config_inv_push [OF this, of i st now built sendOk] show ?thesis
      using assms(3-5) True by (simp add: streamTick_def)
  qed (use assms(3-5) in \<open>simp add: streamTick_def\<close>)
  then show ?thesis by (auto simp: streamTick_def split: option.splits)
qed

theorem dirty_flag_serves_one_stream_witness:
  "let s = the (run config_step (Some NewConfigServer) (sample_streams @ [CfTrigger []]));
       s1 = the (streamTick 5 1 (Some (sample_version ''b'')) True s)
   in cv_dirty s \<and> map_option st_lastVersion (map_of (cv_streams s1) 1) = Some ''b'' \<and>
      streamTick 5 2 (Some (sample_version ''b'')) True s1 = Some s1 \<and>
      map_option st_lastVersion (map_of (cv_streams s1) 2) = Some ''a''"
proof -
  let ?es = "sample_streams @ [CfTrigger []]"
  let ?s = "the (run config_step (Some NewConfigServer) ?es)"
  let ?s1 = "the (streamTick 5 1 (Some (sample_version ''b'')) True ?s)"
  have g: "good_run config_step config_good (Some NewConfigServer) ?es" by code_simp
  have r: "run config_step (Some NewConfigServer) ?es = Some ?s" by code_simp
  obtain st where st: "map_of (cv_streams ?s) 1 = Some st" "st_subscribed st"
  proof -
    have "map_option st_subscribed (map_of (cv_streams ?s) 1) = Some True" by code_simp
    then show thesis using that by auto
  qed
  have t: "streamTick 5 1 (Some (sample_version ''b'')) True ?s = Some ?s1" by code_simp
  have "cv_dirty ?s" "map_option st_lastVersion (map_of (cv_streams ?s1) 1) = Some ''b''"
    "map_option st_lastVersion (map_of (cv_streams ?s1) 2) = Some ''a''" by code_simp+
  then show ?thesis using dirty_flag_serves_one_stream [OF g r st t] unfolding Let_def by blast
qed

text \<open>The status entry of an agent that has just connected.\<close>

definition status_key :: "StreamConfigRequest \<Rightarrow> string" where
  "status_key req = (if rq_ClusterName req \<noteq> [] then rq_ClusterName req @ ''/'' @ rq_NodeName req else rq_NodeName req)"

lemma streamOpen_status:
  assumes "streamOpen sid now now' peer req built sendOk s = (s', None)"
  shows "\<exists>a. map_of (cv_statusMap s') (status_key req) = Some a \<and> as_Connected a \<and> as_LastSeen a = now"
    and "map_of (cv_streams s') sid \<noteq> None" and "\<And>k. k \<noteq> sid \<Longrightarrow> map_of (cv_streams s') k = map_of (cv_streams s) k"
  using assms
  by (auto simp: streamOpen_def setConnection_def updateAgentConnectionWithCluster_def incrementStreams_def Let_def status_key_def
      update_conv' split: option.splits if_splits)

lemma ReportStatus_other:
  assumes "ag_NodeName r \<noteq> k"
  shows "map_of (cv_statusMap (fst (ReportStatus t peer r s))) k = map_of (cv_statusMap s) k"
    and "cv_streams (fst (ReportStatus t peer r s)) = cv_streams s"
  using assms by (auto simp: ReportStatus_def storeAgentStatus_def Let_def update_conv' split: option.splits)

text \<open>
  C35. The status reports of an agent of a remote cluster are stored under its node name, its
  connection under cluster and node name. So the connection of a remote agent is marked as lost 30
  seconds after it was established, however often the agent reports and although its stream is open.
\<close>
theorem remote_agent_marked_lost:
  assumes "rq_ClusterName req \<noteq> []" and "streamOpen sid now now' peer req built sendOk s = (s1, None)"
    and "\<forall>(t, r) \<in> set reports. CHR ''/'' \<notin> set (ag_NodeName r)" and "later - now > sec 30"
  shows "let s2 = fold (\<lambda>(t, r) s. fst (ReportStatus t peer r s)) reports s1;
             s3 = cleanupStaleAgents later s2
         in map_of (cv_streams s3) sid \<noteq> None \<and>
            (\<exists>a. GetAgentStatus (rq_ClusterName req @ ''/'' @ rq_NodeName req) s3 = Some a \<and> \<not> as_Connected a)"
proof -
  let ?k = "status_key req" and ?s2 = "fold (\<lambda>(t, r) s. fst (ReportStatus t peer r s)) reports s1"
  obtain a where a: "map_of (cv_statusMap s1) ?k = Some a" "as_LastSeen a = now" using streamOpen_status(1) [OF assms(2)] by blast
  have k: "CHR ''/'' \<in> set ?k" using assms(1) by (simp add: status_key_def)
  have "map_of (cv_statusMap (fold (\<lambda>(t, r) s. fst (ReportStatus t peer r s)) rs s')) ?k = map_of (cv_statusMap s') ?k \<and>
      cv_streams (fold (\<lambda>(t, r) s. fst (ReportStatus t peer r s)) rs s') = cv_streams s'"
    if "\<forall>(t, r) \<in> set rs. CHR ''/'' \<notin> set (ag_NodeName r)" for rs s'
    using that
  proof (induction rs arbitrary: s')
    case (Cons e rs)
    obtain t r where e: "e = (t, r)" by (cases e)
    have "ag_NodeName r \<noteq> ?k" using Cons.prems k by (auto simp: e)
    then show ?case using Cons ReportStatus_other [of r ?k t peer s'] by (simp add: e)
  qed simp
  from this [OF assms(3)] have s2: "map_of (cv_statusMap ?s2) ?k = Some a" "cv_streams ?s2 = cv_streams s1" using a(1) by auto
  have "time_sub later (as_LastSeen a) > AgentExpiryDuration"
    using time_sub_gt [of AgentExpiryDuration later now] assms(4) a(2)
    by (simp add: AgentExpiryDuration_def sec_def MaxInt64_def MinInt64_def)
  moreover have "map_of (map (\<lambda>(key, v). (key, f v)) m) ?k = map_option f (map_of m ?k)" for f :: "AgentStatusInfo \<Rightarrow> AgentStatusInfo" and m
    by (induction m) auto
  ultimately have "\<exists>b. map_of (cv_statusMap (cleanupStaleAgents later ?s2)) ?k = Some b \<and> \<not> as_Connected b"
    using s2(1) by (auto simp: cleanupStaleAgents_def)
  then show ?thesis
    using streamOpen_status(2) [OF assms(2)] s2(2) assms(1)
    unfolding Let_def GetAgentStatus_def status_key_def by (simp add: cleanupStaleAgents_def)
qed

definition sample_report :: AgentStatus where
  "sample_report = \<lparr>ag_NodeName = ''n1'', ag_AppliedConfigVersion = ''a'', ag_Healthy = True, ag_Metrics = [], ag_Errors = [],
     ag_ClusterName = ''edge''\<rparr>"

theorem remote_agent_marked_lost_witness:
  "let s1 = fst (streamOpen 1 0 0 NoPeer (sample_request ''edge'' ''n1'') (Some (sample_version ''a'')) True NewConfigServer);
       s2 = fold (\<lambda>(t, r) s. fst (ReportStatus t NoPeer r s)) [(sec 10, sample_report), (sec 30, sample_report)] s1
   in map_option as_Connected (GetAgentStatus ''edge/n1'' (cleanupStaleAgents (sec 31) s2)) = Some False \<and>
      map_of (cv_streams (cleanupStaleAgents (sec 31) s2)) 1 \<noteq> None"
proof -
  let ?req = "sample_request ''edge'' ''n1''"
  let ?r = "streamOpen 1 0 0 NoPeer ?req (Some (sample_version ''a'')) True NewConfigServer"
  let ?rs = "[(sec 10, sample_report), (sec 30, sample_report)]"
  have o: "?r = (fst ?r, None)" by (simp add: streamOpen_def validatePeerNodeName_def Let_def)
  have h: "rq_ClusterName ?req \<noteq> []" "\<forall>(t, r) \<in> set ?rs. CHR ''/'' \<notin> set (ag_NodeName r)" "sec 31 - 0 > sec 30"
    "rq_ClusterName ?req @ ''/'' @ rq_NodeName ?req = ''edge/n1''"
    by (simp_all add: sample_request_def sample_report_def sec_def)
  from remote_agent_marked_lost [OF h(1) o h(2,3)] show ?thesis unfolding Let_def h(4) by auto
qed

text \<open>
  C36. An agent that connects again before the server has noticed the end of its old stream is lost:
  when the old stream returns, its deferred calls mark the agent as disconnected and, for a remote
  agent, remove it from the tracker, although the new stream is open.
\<close>
theorem old_stream_disconnects_new:
  assumes "map_of (cv_streams s) i = Some st" and "st_subscribed st" and "i \<noteq> j"
    and "streamOpen j now now' peer (st_req st) built sendOk s = (s1, None)" and "streamReturn later i s1 = Some s2"
  shows "map_of (cv_streams s2) j \<noteq> None \<and>
    (\<exists>a. GetAgentStatus (status_key (st_req st)) s2 = Some a \<and> \<not> as_Connected a) \<and>
    (rq_ClusterName (st_req st) \<noteq> [] \<longrightarrow>
       map_of (rt_agents (cv_remoteAgentTracker s2)) (rt_key (rq_ClusterName (st_req st)) (rq_NodeName (st_req st))) = None)"
proof -
  have "map_of (cv_streams s1) i = Some st" using streamOpen_status(3) [OF assms(4,3)] assms(1) by simp
  then obtain c where s2: "s2 = streamDeferred later (st_req st) (s1\<lparr>cv_cache := c, cv_streams := gm_del i (cv_streams s1)\<rparr>)"
    using assms(2,5) by (auto simp: streamReturn_def)
  have "map_of (cv_streams s2) j \<noteq> None" using streamOpen_status(2) [OF assms(4)] assms(3) by (simp add: s2 delete_conv')
  then show ?thesis
    by (auto simp: s2 streamDeferred_def setConnection_def updateAgentConnectionWithCluster_def Let_def GetAgentStatus_def status_key_def
        update_conv' delete_conv' UnregisterAgent_def decrementStreams_def split: prod.splits)
qed

theorem old_stream_disconnects_new_witness:
  "let s = the (run config_step (Some NewConfigServer) sample_streams);
       s1 = fst (streamOpen 3 5 5 NoPeer (sample_request [] ''n1'') (Some (sample_version ''a'')) True s);
       s2 = the (streamReturn 9 1 s1)
   in map_of (cv_streams s2) 3 \<noteq> None \<and> map_option as_Connected (GetAgentStatus ''n1'' s2) = Some False"
proof -
  let ?s = "the (run config_step (Some NewConfigServer) sample_streams)" and ?req = "sample_request [] ''n1''"
  let ?r = "streamOpen 3 5 5 NoPeer ?req (Some (sample_version ''a'')) True ?s"
  have "map_option (\<lambda>st. (st_req st, st_subscribed st)) (map_of (cv_streams ?s) 1) = Some (?req, True)" by code_simp
  then obtain st where st: "map_of (cv_streams ?s) 1 = Some st" "st_subscribed st" "st_req st = ?req" by auto
  have o: "?r = (fst ?r, None)" by (simp add: streamOpen_def validatePeerNodeName_def Let_def)
  have "streamReturn 9 1 (fst ?r) \<noteq> None" by code_simp
  then have e: "streamReturn 9 1 (fst ?r) = Some (the (streamReturn 9 1 (fst ?r)))" by auto
  have "status_key ?req = ''n1''" by code_simp
  then show ?thesis
    using old_stream_disconnects_new [OF st(1,2) _ o [folded st(3)] e [folded st(3)]] unfolding st(3) Let_def by auto
qed

end
