(* ===== verification/Go_Match.thy ===== *)
theory Go_Match
  imports Go_Strings
begin

section \<open>Patterns and URLs of the Go standard library\<close>

text \<open>
  \<open>path.Match\<close>, as its own algorithm of chunks, and what \<open>url.Parse\<close> returns for the scheme that
  the code asks for. Both on bytes: a rune is a byte, which is exact for ASCII.
\<close>

subsection \<open>\<open>path.Match\<close>\<close>

text \<open>A possibly escaped character of a class; \<open>None\<close> is \<open>ErrBadPattern\<close>, here and below.\<close>

fun getEsc :: "string \<Rightarrow> (char \<times> string) option" where
  "getEsc [] = None"
| "getEsc (c # cs) =
     (if c = CHR ''-'' \<or> c = CHR '']'' then None
      else if c = CHR 0x5C then (case cs of [] \<Rightarrow> None | d # ds \<Rightarrow> if ds = [] then None else Some (d, ds))
      else if cs = [] then None else Some (c, cs))"

lemma getEsc_shorter: "getEsc cs = Some (c, ds) \<Longrightarrow> length ds < length cs \<and> ds \<noteq> []"
  by (cases cs) (auto split: if_splits list.splits)

text \<open>The ranges of a class up to the closing bracket: whether \<open>r\<close> is in one of them, and the rest.\<close>

function matchRanges :: "string \<Rightarrow> char \<Rightarrow> bool \<Rightarrow> bool \<Rightarrow> (bool \<times> string) option" where
  "matchRanges chunk r m ranges =
     (if chunk \<noteq> [] \<and> hd chunk = CHR '']'' \<and> ranges then Some (m, tl chunk)
      else
        (case getEsc chunk of
           None \<Rightarrow> None
         | Some (lo, chunk1) \<Rightarrow>
             if hd chunk1 = CHR ''-'' then
               (case getEsc (tl chunk1) of
                  None \<Rightarrow> None
                | Some (hi, chunk2) \<Rightarrow>
                    matchRanges chunk2 r (m \<or> (of_char lo :: nat) \<le> of_char r \<and> (of_char r :: nat) \<le> of_char hi) True)
             else matchRanges chunk1 r (m \<or> lo = r) True))"
  by auto

termination
proof (relation "measure (\<lambda>(chunk, _). length chunk)")
  fix chunk lo chunk1 hi chunk2 x y
  assume "getEsc chunk = Some y" "(lo, chunk1) = y" "getEsc (tl chunk1) = Some x" "(hi, chunk2) = x"
  then show "((chunk2, r, m \<or> (of_char lo :: nat) \<le> of_char r \<and> (of_char r :: nat) \<le> of_char hi, True), chunk, r, m, ranges)
      \<in> measure (\<lambda>(chunk, _). length chunk)" for r m ranges
    using getEsc_shorter [of chunk lo chunk1] getEsc_shorter [of "tl chunk1" hi chunk2] by (cases chunk1) auto
qed (auto dest: getEsc_shorter)

declare matchRanges.simps [simp del]

lemma matchRanges_shorter: "matchRanges chunk r m ranges = Some (b, rest) \<Longrightarrow> length rest < length chunk"
proof (induction chunk r m ranges rule: matchRanges.induct)
  case (1 chunk r m ranges)
  show ?case
  proof (cases "chunk \<noteq> [] \<and> hd chunk = CHR '']'' \<and> ranges")
    case True
    then show ?thesis using "1.prems" by (cases chunk) (simp_all add: matchRanges.simps)
  next
    case False
    then obtain lo chunk1 where e: "getEsc chunk = Some (lo, chunk1)"
      using "1.prems" by (subst (asm) matchRanges.simps) (auto split: option.splits)
    note s1 = getEsc_shorter [OF e]
    show ?thesis
    proof (cases "hd chunk1 = CHR ''-''")
      case True
      then obtain hi chunk2 where e2: "getEsc (tl chunk1) = Some (hi, chunk2)"
        using "1.prems" False e by (subst (asm) matchRanges.simps) (auto split: option.splits)
      have "length rest < length chunk2"
        using "1.IH"(1) [OF False e refl True e2 refl] "1.prems" False e e2 True by (subst (asm) matchRanges.simps) simp
      moreover have "length chunk2 < length chunk1" using getEsc_shorter [OF e2] by (cases chunk1) auto
      ultimately show ?thesis using s1 by simp
    next
      case dash: False
      have "length rest < length chunk1"
        using "1.IH"(2) [OF False e refl dash] "1.prems" False e dash by (subst (asm) matchRanges.simps) simp
      then show ?thesis using s1 by simp
    qed
  qed
qed

text \<open>A chunk against the start of a string: the rest of the string, or no match.\<close>

function matchChunk :: "string \<Rightarrow> string \<Rightarrow> bool \<Rightarrow> string option option" where
  "matchChunk [] s failed = Some (if failed then None else Some s)"
| "matchChunk (c # chunk) s failed0 =
     (let failed = (failed0 \<or> s = []); s1 = (if failed then s else tl s)
      in if c = CHR ''['' then
           (let negated = (chunk \<noteq> [] \<and> hd chunk = CHR ''^'');
                ranges = (if negated then tl chunk else chunk)
            in case matchRanges ranges (if failed then CHR 0x00 else hd s) False False of
                 None \<Rightarrow> None
               | Some (m, rest) \<Rightarrow> matchChunk rest s1 (failed \<or> m = negated))
         else if c = CHR ''?'' then matchChunk chunk s1 (failed \<or> hd s = CHR ''/'')
         else if c = CHR 0x5C then
           (case chunk of [] \<Rightarrow> None | d # rest \<Rightarrow> matchChunk rest s1 (failed \<or> d \<noteq> hd s))
         else matchChunk chunk s1 (failed \<or> c \<noteq> hd s))"
  by pat_completeness auto

termination
  by (relation "measure (\<lambda>(chunk, _). length chunk)")
    (auto dest!: matchRanges_shorter split: if_splits intro: less_le_trans)

text \<open>The next chunk: whether a star precedes it, the chunk and the rest of the pattern.\<close>

fun scanText :: "string \<Rightarrow> bool \<Rightarrow> string \<times> string" where
  "scanText [] inrange = ([], [])"
| "scanText (c # cs) inrange =
     (if c = CHR 0x5C then
        (case cs of [] \<Rightarrow> ([c], []) | d # ds \<Rightarrow> (case scanText ds inrange of (chunk, rest) \<Rightarrow> (c # d # chunk, rest)))
      else if c = CHR ''*'' \<and> \<not> inrange then ([], c # cs)
      else
        (case scanText cs (if c = CHR ''['' then True else if c = CHR '']'' then False else inrange) of
           (chunk, rest) \<Rightarrow> (c # chunk, rest)))"

definition scanChunk :: "string \<Rightarrow> bool \<times> string \<times> string" where
  "scanChunk pattern =
     (let p = dropWhile (\<lambda>c. c = CHR ''*'') pattern
      in (pattern \<noteq> [] \<and> hd pattern = CHR ''*'', scanText p False))"

fun skipMatch :: "string \<Rightarrow> bool \<Rightarrow> string \<Rightarrow> string option option" where
  "skipMatch chunk isLast [] = Some None"
| "skipMatch chunk isLast (c # cs) =
     (if c = CHR ''/'' then Some None
      else
        (case matchChunk chunk cs False of
           None \<Rightarrow> None
         | Some (Some t) \<Rightarrow> if isLast \<and> t \<noteq> [] then skipMatch chunk isLast cs else Some (Some t)
         | Some None \<Rightarrow> skipMatch chunk isLast cs))"

lemma scanText_append: "scanText p b = (chunk, rest) \<Longrightarrow> p = chunk @ rest"
  by (induction p b arbitrary: chunk rest rule: scanText.induct) (auto split: if_splits list.splits prod.splits)

lemma scanChunk_shorter:
  assumes "scanChunk pattern = (star, chunk, rest)" and "pattern \<noteq> []"
  shows "length rest < length pattern"
proof -
  let ?p = "dropWhile (\<lambda>c. c = CHR ''*'') pattern"
  have scan: "scanText ?p False = (chunk, rest)" using assms(1) by (simp add: scanChunk_def Let_def)
  have len: "length chunk + length rest = length ?p" using arg_cong [OF scanText_append [OF scan], of length] by simp
  show ?thesis
  proof (cases "hd pattern = CHR ''*''")
    case True
    then have "length ?p < length pattern" using assms(2) length_dropWhile_le [of "\<lambda>c. c = CHR ''*''" "tl pattern"]
      by (cases pattern) (simp_all del: length_dropWhile_le)
    then show ?thesis using len by simp
  next
    case False
    obtain c cs where p: "pattern = c # cs" using assms(2) by (cases pattern) auto
    then have "?p = c # cs" "c \<noteq> CHR ''*''" using False by simp_all
    then have "chunk \<noteq> []" using scan by (auto split: if_splits list.splits prod.splits)
    then show ?thesis using len \<open>?p = c # cs\<close> p by (cases chunk) simp_all
  qed
qed

text \<open>Whether the rest of a pattern is well-formed, after a mismatch.\<close>

function checkRest :: "string \<Rightarrow> bool option" where
  "checkRest pattern =
     (if pattern = [] then Some False
      else
        (case scanChunk pattern of (_, chunk, rest) \<Rightarrow>
           (case matchChunk chunk [] False of None \<Rightarrow> None | Some _ \<Rightarrow> checkRest rest)))"
  by auto

termination
  by (relation "measure length") (auto dest: scanChunk_shorter [OF sym])

declare checkRest.simps [simp del]

function pathMatch :: "string \<Rightarrow> string \<Rightarrow> bool option" where
  "pathMatch pattern name =
     (if pattern = [] then Some (name = [])
      else
        (case scanChunk pattern of (star, chunk, rest) \<Rightarrow>
           if star \<and> chunk = [] then Some (CHR ''/'' \<notin> set name)
           else
             (case matchChunk chunk name False of
                None \<Rightarrow> None
              | Some r \<Rightarrow>
                  if r \<noteq> None \<and> (r = Some [] \<or> rest \<noteq> []) then pathMatch rest (the r)
                  else if star then
                    (case skipMatch chunk (rest = []) name of
                       None \<Rightarrow> None
                     | Some (Some t) \<Rightarrow> pathMatch rest t
                     | Some None \<Rightarrow> checkRest rest)
                  else checkRest rest)))"
  by auto

termination
  by (relation "measure (\<lambda>(pattern, _). length pattern)") (auto dest: scanChunk_shorter [OF sym])

declare pathMatch.simps [simp del]

text \<open>Patterns without special characters, and a trailing star.\<close>

definition plainChar :: "char \<Rightarrow> bool" where
  "plainChar c \<longleftrightarrow> c \<noteq> CHR ''*'' \<and> c \<noteq> CHR ''?'' \<and> c \<noteq> CHR ''['' \<and> c \<noteq> CHR 0x5C"

lemma matchChunk_failed: "list_all plainChar p \<Longrightarrow> matchChunk p s True = Some None"
  by (induction p arbitrary: s) (simp_all add: plainChar_def)

lemma matchChunk_plain:
  "list_all plainChar p \<Longrightarrow> matchChunk p s False = Some (if take (length p) s = p then Some (drop (length p) s) else None)"
proof (induction p arbitrary: s)
  case (Cons c p)
  have p: "list_all plainChar p" and c: "plainChar c" using Cons.prems by simp_all
  show ?case
  proof (cases s)
    case Nil
    then show ?thesis using c matchChunk_failed [OF p] by (simp add: plainChar_def)
  next
    case s: (Cons d t)
    then show ?thesis
      using c Cons.IH [OF p, of t] matchChunk_failed [OF p] by (cases "c = d") (simp_all add: plainChar_def)
  qed
qed simp

lemma scanText_plain: "list_all plainChar p \<Longrightarrow> scanText p b = (p, [])"
  by (induction p arbitrary: b) (simp_all add: plainChar_def)

lemma scanText_star:
  "list_all plainChar p \<Longrightarrow> CHR '']'' \<notin> set p \<Longrightarrow> scanText (p @ ''*'') False = (p, ''*'')"
  by (induction p) (simp_all add: plainChar_def)

lemma scanChunk_plain:
  "list_all plainChar p \<Longrightarrow> p \<noteq> [] \<Longrightarrow> scanChunk (p @ q) = (False, scanText (p @ q) False)"
  by (cases p) (simp_all add: scanChunk_def plainChar_def Let_def)

lemma pathMatch_plain: "list_all plainChar p \<Longrightarrow> pathMatch p s = Some (s = p)"
proof (cases "p = []")
  case False
  assume p: "list_all plainChar p"
  have "scanChunk p = (False, p, [])" using scanChunk_plain [OF p False, of "[]"] scanText_plain [OF p] by simp
  moreover have "pathMatch [] [] = Some True" "checkRest [] = Some False" by (simp_all add: pathMatch.simps checkRest.simps)
  moreover have "take (length p) s = p \<and> drop (length p) s = [] \<longleftrightarrow> s = p"
    by (metis append.right_neutral append_take_drop_id drop_all order_refl take_all)
  ultimately show ?thesis using False matchChunk_plain [OF p, of s] by (subst pathMatch.simps) auto
qed (simp add: pathMatch.simps)

lemma pathMatch_star:
  assumes "list_all plainChar p" and "CHR '']'' \<notin> set p" and "p \<noteq> []"
  shows "pathMatch (p @ ''*'') s = Some (take (length p) s = p \<and> CHR ''/'' \<notin> set (drop (length p) s))"
proof -
  have "scanChunk (p @ ''*'') = (False, p, ''*'')" using scanChunk_plain [OF assms(1,3)] scanText_star [OF assms(1,2)] by simp
  moreover have "scanChunk ''*'' = (True, [], [])" by (simp add: scanChunk_def)
  moreover from this have "pathMatch ''*'' t = Some (CHR ''/'' \<notin> set t)" for t by (simp add: pathMatch.simps)
  moreover have "checkRest ''*'' = Some False" using \<open>scanChunk ''*'' = (True, [], [])\<close> by (simp add: checkRest.simps)
  ultimately show ?thesis using matchChunk_plain [OF assms(1), of s] by (subst pathMatch.simps) simp
qed

subsection \<open>\<open>url.Parse\<close>\<close>

text \<open>
  What \<open>url.Parse\<close> makes of a string, as far as the code reads it: the host and the path when the
  parse succeeds and the scheme is the given one (in lower case), and nothing otherwise. The
  parsing of an IPv6 literal in brackets is the parameter \<open>ipLiteral\<close>.
\<close>

datatype escape_mode = EncodePath | EncodeHost | EncodeUserPassword

definition isAlnum :: "char \<Rightarrow> bool" where
  "isAlnum c \<longleftrightarrow> isDigit c \<or> (let n = (of_char c :: nat) in 97 \<le> n \<and> n \<le> 122 \<or> 65 \<le> n \<and> n \<le> 90)"

text \<open>The characters that stand for themselves in a host.\<close>

definition hostChar :: "char \<Rightarrow> bool" where
  "hostChar c \<longleftrightarrow> isAlnum c \<or> c \<in> set ''-_.~!$&()*+,;=:[]<>'' \<or> c = CHR 0x27 \<or> c = CHR 0x22"

fun unescape :: "escape_mode \<Rightarrow> string \<Rightarrow> string option" where
  "unescape mode [] = Some []"
| "unescape mode (c # cs) =
     (if c = CHR ''%'' then
        (case cs of
           a # b # rest \<Rightarrow>
             (case (fromHexChar a, fromHexChar b) of
                (Some x, Some y) \<Rightarrow>
                  if mode = EncodeHost \<and> x < 8 \<and> \<not> (a = CHR ''2'' \<and> b = CHR ''5'') then None
                  else map_option (Cons (char_of (16 * x + y))) (unescape mode rest)
              | _ \<Rightarrow> None)
         | _ \<Rightarrow> None)
      else if mode = EncodeHost \<and> (of_char c :: nat) < 128 \<and> \<not> hostChar c then None
      else map_option (Cons c) (unescape mode cs))"

definition validUserinfo :: "string \<Rightarrow> bool" where
  "validUserinfo s = list_all (\<lambda>c. isAlnum c \<or> c \<in> set ''-._:~!$&()*+,;=%@'' \<or> c = CHR 0x27) s"

definition parseHost :: "(string \<Rightarrow> string option) \<Rightarrow> string \<Rightarrow> string option" where
  "parseHost ipLiteral host =
     (if CHR ''['' \<in> set host then ipLiteral host
      else
        (let port = dropWhile (\<lambda>c. c \<noteq> CHR '':'') host
         in if port \<noteq> [] \<and> \<not> list_all isDigit (tl port) then None else unescape EncodeHost host))"

definition parseAuthority :: "(string \<Rightarrow> string option) \<Rightarrow> string \<Rightarrow> string option" where
  "parseAuthority ipLiteral authority =
     (case CutLast (CHR ''@'') authority of
        None \<Rightarrow> parseHost ipLiteral authority
      | Some (userinfo, host) \<Rightarrow>
          (case parseHost ipLiteral host of
             None \<Rightarrow> None
           | Some h \<Rightarrow> if validUserinfo userinfo \<and> unescape EncodeUserPassword userinfo \<noteq> None then Some h else None))"

definition urlParse :: "(string \<Rightarrow> string option) \<Rightarrow> string \<Rightarrow> string \<Rightarrow> (string \<times> string) option" where
  "urlParse ipLiteral scheme rawURL =
     (let u = takeWhile (\<lambda>c. c \<noteq> CHR ''#'') rawURL; frag = drop (Suc (length u)) rawURL; n = length scheme;
          rest = takeWhile (\<lambda>c. c \<noteq> CHR ''?'') (drop (Suc n) u);
          authority = takeWhile (\<lambda>c. c \<noteq> CHR ''/'') (drop 2 rest);
          (host, path) =
            (if take 1 rest \<noteq> ''/'' then (Some [], Some [])
             else if take 2 rest \<noteq> ''//'' then (Some [], unescape EncodePath rest)
             else (parseAuthority ipLiteral authority, unescape EncodePath (drop (length authority) (drop 2 rest))))
      in if list_ex (\<lambda>c. (of_char c :: nat) < 32 \<or> (of_char c :: nat) = 127) u then None
         else if map toLowerByte (take n u) \<noteq> scheme \<or> take 1 (drop n u) \<noteq> '':'' then None
         else
           (case (host, path, unescape EncodePath frag) of
              (Some h, Some p, Some _) \<Rightarrow> Some (h, p)
            | _ \<Rightarrow> None))"

text \<open>Names of letters, digits and a few marks are kept as they are.\<close>

definition nameChar :: "char \<Rightarrow> bool" where
  "nameChar c \<longleftrightarrow> isAlnum c \<or> c \<in> set ''-._''"

lemma not_nameChar [simp]:
  "\<not> nameChar (CHR ''%'')" "\<not> nameChar (CHR ''#'')" "\<not> nameChar (CHR ''?'')" "\<not> nameChar (CHR ''/'')"
  "\<not> nameChar (CHR '':'')" "\<not> nameChar (CHR ''['')" "\<not> nameChar (CHR ''@'')"
  by code_simp+

lemma nameChar_plain:
  assumes "nameChar c"
  shows "c \<noteq> CHR ''%''" "c \<noteq> CHR ''#''" "c \<noteq> CHR ''?''" "c \<noteq> CHR ''/''" "c \<noteq> CHR '':''" "c \<noteq> CHR ''[''" "c \<noteq> CHR ''@''"
    "hostChar c" "\<not> ((of_char c :: nat) < 32 \<or> (of_char c :: nat) = 127)"
proof -
  have "nameChar c \<Longrightarrow> c \<noteq> d" if "\<not> nameChar d" for d using that by auto
  then show "c \<noteq> CHR ''%''" "c \<noteq> CHR ''#''" "c \<noteq> CHR ''?''" "c \<noteq> CHR ''/''" "c \<noteq> CHR '':''" "c \<noteq> CHR ''[''" "c \<noteq> CHR ''@''"
    using assms not_nameChar by blast+
  show "hostChar c" using assms by (auto simp: nameChar_def hostChar_def)
  have "(of_char c :: nat) \<in> {45, 46, 95} \<or> 48 \<le> (of_char c :: nat) \<and> (of_char c :: nat) \<le> 122"
    using assms by (auto simp: nameChar_def isAlnum_def isDigit_def Let_def simp flip: of_nat_of_char [where 'a = int])
  then show "\<not> ((of_char c :: nat) < 32 \<or> (of_char c :: nat) = 127)" by auto
qed

lemma unescape_plain:
  "list_all (\<lambda>c. nameChar c \<or> c = CHR ''/'' \<and> mode \<noteq> EncodeHost) s \<Longrightarrow> unescape mode s = Some s"
  by (induction s) (auto simp: nameChar_plain)

lemma takeWhile_no: "c \<notin> set s \<Longrightarrow> takeWhile (\<lambda>d. d \<noteq> c) s = s"
  by (induction s) auto

lemma parseAuthority_name:
  assumes "list_all nameChar host"
  shows "parseAuthority ipLiteral host = Some host"
proof -
  have no: "CHR ''['' \<notin> set host" "CHR '':'' \<notin> set host" "CHR ''@'' \<notin> set host"
    using assms not_nameChar by (auto simp: list_all_iff)
  have "dropWhile (\<lambda>c. c \<noteq> CHR '':'') host = []" using no(2) by (auto simp: dropWhile_eq_Nil_conv)
  moreover have "unescape EncodeHost host = Some host" using assms by (intro unescape_plain) (auto simp: list_all_iff)
  ultimately show ?thesis using no(1,3) by (simp add: parseAuthority_def parseHost_def CutLast_def)
qed

lemma urlParse_name:
  assumes "list_all nameChar scheme" and "map toLowerByte scheme = scheme" and "list_all nameChar host"
    and "list_all (\<lambda>c. nameChar c \<or> c = CHR ''/'') path" and "path = [] \<or> hd path = CHR ''/''"
  shows "urlParse ipLiteral scheme (scheme @ ''://'' @ host @ path) = Some (host, path)"
proof -
  define u where "u = scheme @ ''://'' @ host @ path"
  have mem: "nameChar c \<or> c = CHR ''/'' \<or> c = CHR '':''" if "c \<in> set u" for c
    using that assms(1,3,4) by (auto simp: list_all_iff u_def)
  have u: "takeWhile (\<lambda>c. c \<noteq> CHR ''#'') u = u" using mem [of "CHR ''#''"] by (intro takeWhile_no) auto
  have "CHR ''?'' \<notin> set u" using mem [of "CHR ''?''"] by auto
  then have rest: "takeWhile (\<lambda>c. c \<noteq> CHR ''?'') (''//'' @ host @ path) = ''//'' @ host @ path"
    by (intro takeWhile_no) (simp add: u_def)
  have "CHR ''/'' \<notin> set host" using assms(3) not_nameChar(4) by (auto simp: list_all_iff)
  then have auth: "takeWhile (\<lambda>c. c \<noteq> CHR ''/'') (host @ path) = host"
    using assms(5) by (cases path) (simp_all add: takeWhile_append takeWhile_no)
  have path: "unescape EncodePath path = Some path" using assms(4) by (intro unescape_plain) (auto simp: list_all_iff)
  have "\<not> ((of_char c :: nat) < 32 \<or> (of_char c :: nat) = 127)" if "c \<in> set u" for c
    using mem [OF that] nameChar_plain(9) [of c] by auto
  then have ctl: "\<not> list_ex (\<lambda>c. (of_char c :: nat) < 32 \<or> (of_char c :: nat) = 127) u" by (auto simp: list_ex_iff)
  have d: "drop (Suc (length scheme)) u = ''//'' @ host @ path" "take (length scheme) u = scheme" "take 1 (drop (length scheme) u) = '':''"
    "drop (Suc (length u)) u = []"
    by (simp_all add: u_def)
  show ?thesis
    unfolding u_def [symmetric] urlParse_def Let_def u d rest using assms(2) ctl auth path parseAuthority_name [OF assms(3), of ipLiteral]
    by simp
qed

end
