(* ===== verification/Mesh_Authz.thy ===== *)
theory Mesh_Authz
  imports Go_Match
begin

section \<open>Identities and authorization of the service mesh (\<open>internal/agent/mesh\<close>)\<close>

text \<open>
  SPIFFE identities, the authorizer, the validation of peers and the decision of the tunnel server
  about a CONNECT request (\<open>authz.go\<close>, \<open>tls.go\<close>, \<open>tunnel.go\<close>). Parsing of certificates and of
  IPv6 literals is a parameter; sockets and copying of streams are not modelled.
\<close>

subsection \<open>Identities\<close>

record SourceIdentity =
  si_SpiffeID :: string
  si_TrustDomain :: string
  si_Namespace :: string
  si_ServiceAccount :: string
  si_FederationID :: string
  si_ClusterName :: string
  si_NodeName :: string

definition SourceIdentity_zero :: SourceIdentity where
  "SourceIdentity_zero =
     \<lparr>si_SpiffeID = [], si_TrustDomain = [], si_Namespace = [], si_ServiceAccount = [], si_FederationID = [],
      si_ClusterName = [], si_NodeName = []\<rparr>"

text \<open>The identity read from the host and the segments of the path.\<close>

definition identityOf :: "string \<Rightarrow> string \<Rightarrow> string list \<Rightarrow> SourceIdentity" where
  "identityOf spiffeID host segments =
     (let identity = SourceIdentity_zero\<lparr>si_SpiffeID := spiffeID, si_TrustDomain := host\<rparr>
      in if length segments = 4 \<and> segments ! 0 = ''ns'' \<and> segments ! 2 = ''sa''
         then identity\<lparr>si_Namespace := segments ! 1, si_ServiceAccount := segments ! 3\<rparr>
         else if length segments = 4 \<and> segments ! 0 = ''cluster'' \<and> segments ! 2 = ''agent''
         then identity\<lparr>si_FederationID := host, si_ClusterName := segments ! 1, si_NodeName := segments ! 3\<rparr>
         else if length segments \<ge> 2 \<and> segments ! 0 = ''agent''
         then identity\<lparr>si_NodeName := segments ! 1\<rparr>
         else identity)"

definition ParseSPIFFEID :: "(string \<Rightarrow> string option) \<Rightarrow> string \<Rightarrow> SourceIdentity" where
  "ParseSPIFFEID ipLiteral spiffeID =
     (case urlParse ipLiteral ''spiffe'' spiffeID of
        None \<Rightarrow> SourceIdentity_zero
      | Some (host, path) \<Rightarrow>
          if host = [] then SourceIdentity_zero
          else identityOf spiffeID host (Split (CHR ''/'') (TrimPrefix path ''/'')))"

definition IsFederated :: "SourceIdentity \<Rightarrow> bool" where
  "IsFederated si \<longleftrightarrow> si_FederationID si \<noteq> [] \<and> si_ClusterName si \<noteq> []"

record MeshFederationConfig =
  mf_FederationID :: string
  mf_ClusterName :: string
  mf_AllowedClusters :: "string list"

definition mf_IsActive :: "MeshFederationConfig \<Rightarrow> bool" where
  "mf_IsActive fc \<longleftrightarrow> mf_FederationID fc \<noteq> [] \<and> mf_ClusterName fc \<noteq> []"

definition IsClusterAllowed :: "MeshFederationConfig \<Rightarrow> string \<Rightarrow> bool" where
  "IsClusterAllowed fc clusterName = (if \<not> mf_IsActive fc then False else list_ex (\<lambda>c. c = clusterName) (mf_AllowedClusters fc))"

definition BuildSPIFFEID :: "string \<Rightarrow> string \<Rightarrow> MeshFederationConfig option \<Rightarrow> string" where
  "BuildSPIFFEID trustDomain nodeName fedCfg =
     (case fedCfg of
        Some fc \<Rightarrow>
          if mf_IsActive fc
          then ''spiffe://'' @ mf_FederationID fc @ ''/cluster/'' @ mf_ClusterName fc @ ''/agent/'' @ nodeName
          else ''spiffe://'' @ trustDomain @ ''/agent/'' @ nodeName
      | None \<Rightarrow> ''spiffe://'' @ trustDomain @ ''/agent/'' @ nodeName)"

subsection \<open>Policies\<close>

record MeshSource =
  ms_Namespaces :: "string list"
  ms_ServiceAccounts :: "string list"
  ms_SpiffeIds :: "string list"

record MeshDestination =
  dt_Methods :: "string list"
  dt_Paths :: "string list"

record MeshAuthorizationRule =
  mu_From :: "MeshSource list"
  mu_To :: "MeshDestination list"

record MeshAuthorizationPolicy =
  mp_Name :: string
  mp_Action :: string
  mp_TargetService :: string
  mp_TargetNamespace :: string
  mp_Rules :: "MeshAuthorizationRule list"

record Authorizer =
  az_policies :: "(string, MeshAuthorizationPolicy list) gomap"
  az_warnedNoPolicy :: "(string, unit) gomap"

definition NewAuthorizer :: Authorizer where
  "NewAuthorizer = \<lparr>az_policies = [], az_warnedNoPolicy = []\<rparr>"

definition policyKey :: "MeshAuthorizationPolicy \<Rightarrow> string" where
  "policyKey p = mp_TargetService p @ ''.'' @ mp_TargetNamespace p"

definition UpdatePolicies :: "MeshAuthorizationPolicy list \<Rightarrow> Authorizer \<Rightarrow> Authorizer" where
  "UpdatePolicies policies a =
     a\<lparr>az_policies := fold (\<lambda>p m. gm_put (policyKey p) (gm_get [] m (policyKey p) @ [p]) m) policies [],
       az_warnedNoPolicy := []\<rparr>"

definition containsString :: "string list \<Rightarrow> string \<Rightarrow> bool" where
  "containsString slice s = list_ex (\<lambda>item. item = s) slice"

definition containsStringFold :: "string list \<Rightarrow> string \<Rightarrow> bool" where
  "containsStringFold slice s = list_ex (\<lambda>item. EqualFold item s) slice"

definition matchAnyPattern :: "string list \<Rightarrow> string \<Rightarrow> bool" where
  "matchAnyPattern patterns s = list_ex (\<lambda>pattern. pathMatch pattern s = Some True) patterns"

definition matchSource :: "MeshSource \<Rightarrow> SourceIdentity \<Rightarrow> bool" where
  "matchSource from source =
     (if ms_Namespaces from \<noteq> [] \<and> \<not> containsString (ms_Namespaces from) (si_Namespace source) then False
      else if ms_ServiceAccounts from \<noteq> [] \<and> \<not> containsString (ms_ServiceAccounts from) (si_ServiceAccount source) then False
      else if ms_SpiffeIds from \<noteq> [] \<and> \<not> matchAnyPattern (ms_SpiffeIds from) (si_SpiffeID source) then False
      else True)"

definition matchFrom :: "MeshSource list \<Rightarrow> SourceIdentity \<Rightarrow> bool" where
  "matchFrom fromSources source = (if fromSources = [] then True else list_ex (\<lambda>from. matchSource from source) fromSources)"

definition matchDestination :: "MeshDestination \<Rightarrow> string \<Rightarrow> string \<Rightarrow> bool" where
  "matchDestination to meth requestPath =
     (let isOpaqueTCP = (meth = [] \<and> requestPath = []); hasMethods = (dt_Methods to \<noteq> []); hasPaths = (dt_Paths to \<noteq> [])
      in if isOpaqueTCP \<and> (hasMethods \<or> hasPaths) then False
         else if hasMethods \<and> \<not> containsStringFold (dt_Methods to) meth then False
         else if hasPaths \<and> \<not> matchAnyPattern (dt_Paths to) requestPath then False
         else True)"

definition matchTo :: "MeshDestination list \<Rightarrow> string \<Rightarrow> string \<Rightarrow> bool" where
  "matchTo toDests meth requestPath =
     (if toDests = [] then True else list_ex (\<lambda>to. matchDestination to meth requestPath) toDests)"

definition matchRule :: "MeshAuthorizationRule \<Rightarrow> SourceIdentity \<Rightarrow> string \<Rightarrow> string \<Rightarrow> bool" where
  "matchRule rule source meth requestPath \<longleftrightarrow> matchFrom (mu_From rule) source \<and> matchTo (mu_To rule) meth requestPath"

text \<open>A policy of the given action has a rule that matches.\<close>

definition policyMatches :: "string \<Rightarrow> SourceIdentity \<Rightarrow> string \<Rightarrow> string \<Rightarrow> MeshAuthorizationPolicy \<Rightarrow> bool" where
  "policyMatches action source meth requestPath p \<longleftrightarrow>
     EqualFold (mp_Action p) action \<and> list_ex (\<lambda>rule. matchRule rule source meth requestPath) (mp_Rules p)"

definition Authorize :: "SourceIdentity \<Rightarrow> string \<Rightarrow> string \<Rightarrow> string \<Rightarrow> Authorizer \<Rightarrow> Authorizer \<times> bool" where
  "Authorize source destService meth requestPath a =
     (let servicePolicies = gm_get [] (az_policies a) destService
      in if servicePolicies = []
         then (if map_of (az_warnedNoPolicy a) destService = None
               then a\<lparr>az_warnedNoPolicy := gm_put destService () (az_warnedNoPolicy a)\<rparr> else a, True)
         else if list_ex (policyMatches ''DENY'' source meth requestPath) servicePolicies then (a, False)
         else if list_ex (policyMatches ''ALLOW'' source meth requestPath) servicePolicies then (a, True)
         else if list_ex (\<lambda>p. EqualFold (mp_Action p) ''ALLOW'') servicePolicies then (a, False)
         else (a, True))"

definition PolicyCount :: "Authorizer \<Rightarrow> int" where
  "PolicyCount a = fold (\<lambda>(_, policies) count. count + int (length policies)) (az_policies a) 0"

subsection \<open>Peers and tunnels\<close>

text \<open>The provider: whether a certificate is loaded is all that the certificates contribute here.\<close>

record TLSProvider =
  tp_cert :: "string option"
  tp_caCertPool :: "string list option"
  tp_trustDomain :: string
  tp_spiffeID :: string
  tp_fedCfg :: "MeshFederationConfig option"
  tp_lastCertPEM :: string
  tp_lastKeyPEM :: string

definition NewTLSProvider :: "string \<Rightarrow> MeshFederationConfig option \<Rightarrow> TLSProvider" where
  "NewTLSProvider trustDomain fedCfg =
     \<lparr>tp_cert = None, tp_caCertPool = None, tp_trustDomain = trustDomain, tp_spiffeID = [], tp_fedCfg = fedCfg,
      tp_lastCertPEM = [], tp_lastKeyPEM = []\<rparr>"

datatype mesh_error = BadKeyPair | BadCACertificate | NoCACertificates

text \<open>
  \<open>keyPair\<close> is the parsing of a certificate with its key and leaf; \<open>caCerts\<close> gives for every block of
  type CERTIFICATE of a PEM bundle the parsed certificate, or nothing when it cannot be parsed.
\<close>

definition UpdateCertificate ::
  "(string \<Rightarrow> string \<Rightarrow> string option) \<Rightarrow> (string \<Rightarrow> string option list) \<Rightarrow> string \<Rightarrow> string \<Rightarrow> string \<Rightarrow> string \<Rightarrow> TLSProvider
   \<Rightarrow> TLSProvider \<times> mesh_error option" where
  "UpdateCertificate keyPair caCerts certPEM keyPEM caCertPEM spiffeID p =
     (let certUnchanged = (tp_lastCertPEM p = certPEM \<and> tp_lastKeyPEM p = keyPEM \<and> tp_cert p \<noteq> None)
      in case (if certUnchanged then tp_cert p else keyPair certPEM keyPEM) of
           None \<Rightarrow> (p, Some BadKeyPair)
         | Some cert \<Rightarrow>
             (let cas = caCerts caCertPEM
              in if None \<in> set cas then (p, Some BadCACertificate)
                 else if cas = [] then (p, Some NoCACertificates)
                 else (p\<lparr>tp_cert := Some cert, tp_caCertPool := Some (map the cas), tp_spiffeID := spiffeID,
                         tp_lastCertPEM := certPEM, tp_lastKeyPEM := keyPEM\<rparr>, None)))"

definition HasCertificate :: "TLSProvider \<Rightarrow> bool" where
  "HasCertificate p \<longleftrightarrow> tp_cert p \<noteq> None \<and> tp_caCertPool p \<noteq> None"

text \<open>The URI SANs of a certificate as scheme and string, for every certificate of the peer.\<close>

definition PeerSPIFFEID :: "(string \<times> string) list list option \<Rightarrow> string" where
  "PeerSPIFFEID state =
     (case state of
        Some (uris # _) \<Rightarrow> (case find (\<lambda>(scheme, _). scheme = ''spiffe'') uris of Some (_, s) \<Rightarrow> s | None \<Rightarrow> [])
      | _ \<Rightarrow> [])"

definition ValidatePeerSPIFFEID :: "(string \<Rightarrow> string option) \<Rightarrow> string \<Rightarrow> TLSProvider \<Rightarrow> bool" where
  "ValidatePeerSPIFFEID ipLiteral spiffeID p =
     (if spiffeID = [] then False
      else
        (let identity = ParseSPIFFEID ipLiteral spiffeID
         in if si_SpiffeID identity = [] then False
            else if IsFederated identity then
              (case tp_fedCfg p of
                 None \<Rightarrow> False
               | Some fc \<Rightarrow>
                   if \<not> mf_IsActive fc then False
                   else si_FederationID identity = mf_FederationID fc \<and> IsClusterAllowed fc (si_ClusterName identity))
            else si_TrustDomain identity = tp_trustDomain p))"

record connectRequest =
  rx_Method :: string
  rx_Host :: string
  rx_Path :: string
  rx_DestService :: string
  rx_TLS :: "(string \<times> string) list list option"

datatype connect_result = MethodNotAllowed | InvalidIdentity | DeniedByPolicy | DialBackend string

text \<open>\<open>handleConnect\<close> up to the point where the backend is dialled.\<close>

definition handleConnect ::
  "(string \<Rightarrow> string option) \<Rightarrow> connectRequest \<Rightarrow> TLSProvider option \<Rightarrow> Authorizer option \<Rightarrow> Authorizer option \<times> connect_result" where
  "handleConnect ipLiteral r tlsProvider authorizer =
     (if rx_Method r \<noteq> ''CONNECT'' then (authorizer, MethodNotAllowed)
      else
        (let backendAddr = rx_Host r; sourceID = PeerSPIFFEID (rx_TLS r); destService = rx_DestService r
         in if (case tlsProvider of None \<Rightarrow> False | Some p \<Rightarrow> sourceID \<noteq> [] \<and> \<not> ValidatePeerSPIFFEID ipLiteral sourceID p)
            then (authorizer, InvalidIdentity)
            else
              (case authorizer of
                 None \<Rightarrow> (None, DialBackend backendAddr)
               | Some a \<Rightarrow>
                   (case Authorize (ParseSPIFFEID ipLiteral sourceID) destService (rx_Method r) (rx_Path r) a of
                      (a', allowed) \<Rightarrow> (Some a', if allowed then DialBackend backendAddr else DeniedByPolicy)))))"

subsection \<open>Parsing what is built\<close>

definition validName :: "string \<Rightarrow> bool" where
  "validName s \<longleftrightarrow> s \<noteq> [] \<and> list_all nameChar s"

lemma validName_no_slash [simp]: "validName s \<Longrightarrow> CHR ''/'' \<notin> set s"
  using not_nameChar(4) by (auto simp: validName_def list_all_iff)

text \<open>An identifier whose host and whose segments are names is split at its slashes.\<close>

definition joinSegments :: "string list \<Rightarrow> string" where
  "joinSegments segments = concat (map (Cons (CHR ''/'')) segments)"

lemma Split_joinSegments:
  "list_all validName (s # ss) \<Longrightarrow> Split (CHR ''/'') (s @ joinSegments ss) = s # ss"
  by (induction ss arbitrary: s) (simp_all add: joinSegments_def Split_single Split_append)

lemma ParseSPIFFEID_names:
  assumes "validName host" and "list_all validName (s # ss)"
  shows "ParseSPIFFEID ipLiteral (''spiffe'' @ ''://'' @ host @ joinSegments (s # ss)) =
    identityOf (''spiffe'' @ ''://'' @ host @ joinSegments (s # ss)) host (s # ss)"
proof -
  define path where "path = joinSegments (s # ss)"
  have "list_all (\<lambda>c. nameChar c \<or> c = CHR ''/'') path"
    using assms(2) by (auto simp: path_def joinSegments_def list_all_iff validName_def)
  moreover have "hd path = CHR ''/''" "TrimPrefix path ''/'' = s @ joinSegments ss"
    by (simp_all add: path_def joinSegments_def TrimPrefix_def HasPrefix_def)
  moreover have "list_all nameChar ''spiffe''" "map toLowerByte ''spiffe'' = ''spiffe''" by code_simp+
  ultimately show ?thesis
    using urlParse_name [of "''spiffe''" host path ipLiteral] assms Split_joinSegments [OF assms(2)]
    unfolding ParseSPIFFEID_def path_def [symmetric] by (simp add: validName_def)
qed

lemma validName_words: "validName ''agent''" "validName ''cluster''"
  by code_simp+

lemma ParseSPIFFEID_local:
  assumes "validName td" and "validName node" and "fedCfg = None \<or> \<not> mf_IsActive (the fedCfg)"
  shows "ParseSPIFFEID ipLiteral (BuildSPIFFEID td node fedCfg) =
    SourceIdentity_zero\<lparr>si_SpiffeID := BuildSPIFFEID td node fedCfg, si_TrustDomain := td, si_NodeName := node\<rparr>"
proof -
  have "BuildSPIFFEID td node fedCfg = ''spiffe'' @ ''://'' @ td @ joinSegments [''agent'', node]"
    using assms(3) by (cases fedCfg) (simp_all add: BuildSPIFFEID_def joinSegments_def)
  then show ?thesis
    using ParseSPIFFEID_names [of td "''agent''" "[node]" ipLiteral] assms(1,2) validName_words by (simp add: identityOf_def Let_def)
qed

lemma ParseSPIFFEID_federated:
  assumes "validName (mf_FederationID fc)" and "validName (mf_ClusterName fc)" and "validName node" and "mf_IsActive fc"
  shows "ParseSPIFFEID ipLiteral (BuildSPIFFEID td node (Some fc)) =
    SourceIdentity_zero\<lparr>si_SpiffeID := BuildSPIFFEID td node (Some fc), si_TrustDomain := mf_FederationID fc,
      si_FederationID := mf_FederationID fc, si_ClusterName := mf_ClusterName fc, si_NodeName := node\<rparr>"
proof -
  have "BuildSPIFFEID td node (Some fc) =
      ''spiffe'' @ ''://'' @ mf_FederationID fc @ joinSegments [''cluster'', mf_ClusterName fc, ''agent'', node]"
    using assms(4) by (simp add: BuildSPIFFEID_def joinSegments_def)
  then show ?thesis
    using ParseSPIFFEID_names [of "mf_FederationID fc" "''cluster''" "[mf_ClusterName fc, ''agent'', node]" ipLiteral] assms(1-3) validName_words
    by (simp add: identityOf_def Let_def)
qed

text \<open>The names that a configuration contributes to an identity are usable in one.\<close>

definition validFederation :: "MeshFederationConfig option \<Rightarrow> bool" where
  "validFederation fedCfg =
     (case fedCfg of None \<Rightarrow> True | Some fc \<Rightarrow> mf_IsActive fc \<longrightarrow> validName (mf_FederationID fc) \<and> validName (mf_ClusterName fc))"

definition agentIdentity :: "string \<Rightarrow> string \<Rightarrow> MeshFederationConfig option \<Rightarrow> SourceIdentity" where
  "agentIdentity td node fedCfg =
     (let loc = SourceIdentity_zero\<lparr>si_SpiffeID := BuildSPIFFEID td node fedCfg, si_TrustDomain := td, si_NodeName := node\<rparr>
      in case fedCfg of
           None \<Rightarrow> loc
         | Some fc \<Rightarrow>
             if mf_IsActive fc
             then loc\<lparr>si_TrustDomain := mf_FederationID fc, si_FederationID := mf_FederationID fc, si_ClusterName := mf_ClusterName fc\<rparr>
             else loc)"

lemma ParseSPIFFEID_agent:
  assumes "validName td" and "validName node" and "validFederation fedCfg"
  shows "ParseSPIFFEID ipLiteral (BuildSPIFFEID td node fedCfg) = agentIdentity td node fedCfg"
proof (cases "fedCfg = None \<or> \<not> mf_IsActive (the fedCfg)")
  case True
  then show ?thesis unfolding ParseSPIFFEID_local [OF assms(1,2) True]
    by (cases fedCfg) (simp_all add: agentIdentity_def Let_def)
next
  case False
  then obtain fc where fc: "fedCfg = Some fc" "mf_IsActive fc" by auto
  then show ?thesis using ParseSPIFFEID_federated [of fc node ipLiteral td] assms(2,3)
    by (simp add: agentIdentity_def Let_def validFederation_def SourceIdentity_zero_def)
qed

lemma BuildSPIFFEID_nonempty [simp]: "BuildSPIFFEID td node fedCfg \<noteq> []"
  by (simp add: BuildSPIFFEID_def split: option.split)

text \<open>
  C38. An agent accepts the identity of a peer agent exactly in two cases. The peer is not federated and
  built its identity from the trust domain of this agent. Or the peer is federated, this agent is
  federated as well, in the same federation, and the cluster of the peer is on its list of
  allowed clusters. Names consist of letters, digits, dots, dashes and underscores.
\<close>

theorem peer_agent_accepted_iff:
  assumes "validName td" and "validName node" and "validFederation peerCfg"
  shows "ValidatePeerSPIFFEID ipLiteral (BuildSPIFFEID td node peerCfg) p \<longleftrightarrow>
    (case peerCfg of
       Some pc \<Rightarrow>
         if mf_IsActive pc
         then (\<exists>fc. tp_fedCfg p = Some fc \<and> mf_IsActive fc \<and> mf_FederationID fc = mf_FederationID pc \<and>
                mf_ClusterName pc \<in> set (mf_AllowedClusters fc))
         else td = tp_trustDomain p
     | None \<Rightarrow> td = tp_trustDomain p)"
  unfolding ValidatePeerSPIFFEID_def ParseSPIFFEID_agent [OF assms] agentIdentity_def
  by (cases peerCfg; cases "tp_fedCfg p")
    (auto simp: Let_def IsFederated_def SourceIdentity_zero_def mf_IsActive_def IsClusterAllowed_def list_ex_iff)

theorem peer_agent_accepted_iff_witness:
  "ValidatePeerSPIFFEID (\<lambda>_. None)
     (BuildSPIFFEID ''cluster.local'' ''node-1'' (Some \<lparr>mf_FederationID = ''fed'', mf_ClusterName = ''east'', mf_AllowedClusters = []\<rparr>))
     (NewTLSProvider ''cluster.local'' (Some \<lparr>mf_FederationID = ''fed'', mf_ClusterName = ''west'', mf_AllowedClusters = [''east'']\<rparr>)) \<and>
   \<not> ValidatePeerSPIFFEID (\<lambda>_. None)
     (BuildSPIFFEID ''cluster.local'' ''node-1'' (Some \<lparr>mf_FederationID = ''fed'', mf_ClusterName = ''north'', mf_AllowedClusters = []\<rparr>))
     (NewTLSProvider ''cluster.local'' (Some \<lparr>mf_FederationID = ''fed'', mf_ClusterName = ''west'', mf_AllowedClusters = [''east'']\<rparr>))"
proof -
  let ?peer = "\<lambda>c. Some \<lparr>mf_FederationID = ''fed'', mf_ClusterName = c, mf_AllowedClusters = []\<rparr>"
  have "validName ''cluster.local''" "validName ''node-1''" "validFederation (?peer ''east'')" "validFederation (?peer ''north'')"
    by code_simp+
  note ok = peer_agent_accepted_iff [OF this(1,2,3), of "\<lambda>_. None"] peer_agent_accepted_iff [OF this(1,2,4), of "\<lambda>_. None"]
  show ?thesis unfolding ok by (simp add: mf_IsActive_def NewTLSProvider_def)
qed

subsection \<open>The decision of the authorizer\<close>

lemma UpdatePolicies_get:
  "gm_get [] (az_policies (UpdatePolicies ps a)) d = filter (\<lambda>p. policyKey p = d) ps"
proof -
  have "gm_get [] (fold (\<lambda>p m. gm_put (policyKey p) (gm_get [] m (policyKey p) @ [p]) m) ps m) d =
      gm_get [] m d @ filter (\<lambda>p. policyKey p = d) ps" for m
    by (induction ps arbitrary: m) (simp_all add: gm_get_put)
  then show ?thesis by (simp add: UpdatePolicies_def gm_get_def)
qed

text \<open>Every loaded policy is counted once.\<close>

lemma PolicyCount_UpdatePolicies: "PolicyCount (UpdatePolicies ps a) = int (length ps)"
proof -
  have count: "fold (\<lambda>(_, xs) n. n + int (length xs)) m c = c + (\<Sum>kv\<leftarrow>m. int (length (snd kv)))" for m :: "(string, MeshAuthorizationPolicy list) gomap" and c
    by (induction m arbitrary: c) auto
  have put: "(\<Sum>kv\<leftarrow>gm_put k (gm_get [] m k @ [p]) m. int (length (snd kv))) = (\<Sum>kv\<leftarrow>m. int (length (snd kv))) + 1"
    for k p and m :: "(string, MeshAuthorizationPolicy list) gomap"
    by (induction m) (auto simp: gm_get_def)
  have "(\<Sum>kv\<leftarrow>fold (\<lambda>p m. gm_put (policyKey p) (gm_get [] m (policyKey p) @ [p]) m) ps m. int (length (snd kv))) =
      (\<Sum>kv\<leftarrow>m. int (length (snd kv))) + int (length ps)" for m
    by (induction ps arbitrary: m) (simp_all add: put)
  then show ?thesis by (simp add: PolicyCount_def UpdatePolicies_def count)
qed

lemma Authorize_verdict:
  "snd (Authorize source d meth path (UpdatePolicies ps a)) \<longleftrightarrow>
     (let rel = filter (\<lambda>p. policyKey p = d) ps
      in rel = [] \<or> \<not> list_ex (policyMatches ''DENY'' source meth path) rel \<and>
         (list_ex (policyMatches ''ALLOW'' source meth path) rel \<or> \<not> list_ex (\<lambda>p. EqualFold (mp_Action p) ''ALLOW'') rel))"
  by (simp add: Authorize_def UpdatePolicies_get Let_def)

text \<open>
  C37. After an update of the policies, a request to a service is authorized exactly when no policy targets
  the service, or when no rule of a DENY policy of the service matches it and either a rule of an
  ALLOW policy of the service matches or the service has no ALLOW policy: denials win over
  permissions in whatever order the policies arrive, and policies of other services have no influence.
\<close>

theorem authorize_deny_overrides:
  "snd (Authorize source destService meth path (UpdatePolicies ps a)) \<longleftrightarrow>
     (let relevant = {p \<in> set ps. mp_TargetService p @ ''.'' @ mp_TargetNamespace p = destService};
          matching = {p \<in> relevant. list_ex (\<lambda>rule. matchRule rule source meth path) (mp_Rules p)};
          deny = {p. EqualFold (mp_Action p) ''DENY''}; allow = {p. EqualFold (mp_Action p) ''ALLOW''}
      in relevant = {} \<or> matching \<inter> deny = {} \<and> (matching \<inter> allow \<noteq> {} \<or> relevant \<inter> allow = {}))"
  unfolding Authorize_verdict Let_def
  by (auto simp: policyMatches_def list_ex_iff policyKey_def filter_empty_conv)

definition deny_all :: MeshAuthorizationPolicy where
  "deny_all = \<lparr>mp_Name = ''deny-all'', mp_Action = ''DENY'', mp_TargetService = ''db'', mp_TargetNamespace = ''prod'',
     mp_Rules = [\<lparr>mu_From = [], mu_To = []\<rparr>]\<rparr>"

theorem authorize_deny_overrides_witness:
  "\<not> snd (Authorize SourceIdentity_zero ''db.prod'' ''CONNECT'' [] (UpdatePolicies [deny_all\<lparr>mp_Action := ''allow''\<rparr>, deny_all] NewAuthorizer))"
proof -
  have "list_ex (\<lambda>rule. matchRule rule SourceIdentity_zero ''CONNECT'' []) (mp_Rules deny_all)" "EqualFold (mp_Action deny_all) ''DENY''"
    "mp_TargetService deny_all @ ''.'' @ mp_TargetNamespace deny_all = ''db.prod''"
    by code_simp+
  then show ?thesis unfolding authorize_deny_overrides Let_def by fastforce
qed

subsection \<open>The decision of the tunnel server\<close>

lemma policyKey_nonempty [simp]: "policyKey p \<noteq> []"
  by (simp add: policyKey_def)

text \<open>A request of a peer that is let in is decided by the authorizer.\<close>

lemma handleConnect_authorize:
  assumes "rx_Method r = ''CONNECT''"
    and "PeerSPIFFEID (rx_TLS r) = [] \<or> ValidatePeerSPIFFEID ipLiteral (PeerSPIFFEID (rx_TLS r)) p"
  shows "snd (handleConnect ipLiteral r (Some p) (Some a)) =
    (if snd (Authorize (ParseSPIFFEID ipLiteral (PeerSPIFFEID (rx_TLS r))) (rx_DestService r) ''CONNECT'' (rx_Path r) a)
     then DialBackend (rx_Host r) else DeniedByPolicy)"
  using assms by (auto simp: handleConnect_def Let_def split: prod.split)

text \<open>
  C39. The tunnel server authorizes the service that the client names in a header, and nothing ties that
  name to the address it dials. A CONNECT request that leaves the header out names no service,
  so it is let through to whatever backend it asks for, whichever policies are installed,
  as long as the identity of the peer is valid or its certificate carries none.
\<close>

theorem missing_service_header_bypasses_policies:
  assumes "rx_Method r = ''CONNECT''" and "rx_DestService r = []"
    and "PeerSPIFFEID (rx_TLS r) = [] \<or> ValidatePeerSPIFFEID ipLiteral (PeerSPIFFEID (rx_TLS r)) p"
  shows "snd (handleConnect ipLiteral r (Some p) (Some (UpdatePolicies ps a))) = DialBackend (rx_Host r)"
proof -
  have "filter (\<lambda>p. policyKey p = []) ps = []" by simp
  then show ?thesis unfolding handleConnect_authorize [OF assms(1,3)] Authorize_verdict assms(2) by simp
qed

definition db_request :: "string \<Rightarrow> connectRequest" where
  "db_request service =
     \<lparr>rx_Method = ''CONNECT'', rx_Host = ''10.0.0.7:5432'', rx_Path = [], rx_DestService = service,
      rx_TLS = Some [[(''spiffe'', ''spiffe://cluster.local/agent/node-1'')]]\<rparr>"

lemma db_request_simps:
  "rx_Method (db_request svc) = ''CONNECT''" "rx_DestService (db_request svc) = svc" "rx_Host (db_request svc) = ''10.0.0.7:5432''"
  "PeerSPIFFEID (rx_TLS (db_request svc)) = BuildSPIFFEID ''cluster.local'' ''node-1'' None"
  by (simp_all add: db_request_def PeerSPIFFEID_def BuildSPIFFEID_def)

lemma db_peer_valid:
  "ValidatePeerSPIFFEID (\<lambda>_. None) (BuildSPIFFEID ''cluster.local'' ''node-1'' None) (NewTLSProvider ''cluster.local'' None)"
  by code_simp

theorem missing_service_header_bypasses_policies_witness:
  "snd (handleConnect (\<lambda>_. None) (db_request ''db.prod'') (Some (NewTLSProvider ''cluster.local'' None))
     (Some (UpdatePolicies [deny_all] NewAuthorizer))) = DeniedByPolicy \<and>
   snd (handleConnect (\<lambda>_. None) (db_request []) (Some (NewTLSProvider ''cluster.local'' None))
     (Some (UpdatePolicies [deny_all] NewAuthorizer))) = DialBackend ''10.0.0.7:5432''"
proof
  show "snd (handleConnect (\<lambda>_. None) (db_request []) (Some (NewTLSProvider ''cluster.local'' None))
     (Some (UpdatePolicies [deny_all] NewAuthorizer))) = DialBackend ''10.0.0.7:5432''"
    using missing_service_header_bypasses_policies
      [of "db_request []" "\<lambda>_. None" "NewTLSProvider ''cluster.local'' None" "[deny_all]" NewAuthorizer]
    by (simp add: db_request_simps db_peer_valid)
qed code_simp

text \<open>
  Rules that select callers by namespace or service account, or requests by HTTP methods.
\<close>

definition workloadSource :: "MeshSource \<Rightarrow> bool" where
  "workloadSource f \<longleftrightarrow> ms_Namespaces f \<noteq> [] \<and> [] \<notin> set (ms_Namespaces f) \<or> ms_ServiceAccounts f \<noteq> [] \<and> [] \<notin> set (ms_ServiceAccounts f)"

definition httpDestination :: "MeshDestination \<Rightarrow> bool" where
  "httpDestination t \<longleftrightarrow> dt_Methods t \<noteq> [] \<and> \<not> containsStringFold (dt_Methods t) ''CONNECT''"

definition workloadRule :: "MeshAuthorizationRule \<Rightarrow> bool" where
  "workloadRule rule \<longleftrightarrow>
     mu_From rule \<noteq> [] \<and> list_all workloadSource (mu_From rule) \<or> mu_To rule \<noteq> [] \<and> list_all httpDestination (mu_To rule)"

lemma workloadSource_no_match:
  "workloadSource f \<Longrightarrow> si_Namespace source = [] \<Longrightarrow> si_ServiceAccount source = [] \<Longrightarrow> \<not> matchSource f source"
  by (auto simp: workloadSource_def matchSource_def containsString_def list_ex_iff)

lemma httpDestination_no_match: "httpDestination t \<Longrightarrow> \<not> matchDestination t ''CONNECT'' path"
  by (simp add: httpDestination_def matchDestination_def)

lemma workloadRule_no_match:
  assumes "workloadRule rule" and "si_Namespace source = []" and "si_ServiceAccount source = []"
  shows "\<not> matchRule rule source ''CONNECT'' path"
  using assms workloadSource_no_match [OF _ assms(2,3)] httpDestination_no_match [of _ path]
  unfolding workloadRule_def matchRule_def matchFrom_def matchTo_def list_ex_iff list_all_iff by metis

lemma agentIdentity_no_workload:
  "si_Namespace (agentIdentity td node fedCfg) = []" "si_ServiceAccount (agentIdentity td node fedCfg) = []"
  by (simp_all add: agentIdentity_def Let_def SourceIdentity_zero_def split: option.split)

text \<open>
  C40. The peers of a tunnel are agents, whose identities have no namespace and no service account, and the
  request it authorizes is the CONNECT itself. So rules that select callers by namespace or service
  account, or requests by the methods of HTTP, never match there: policies made of such rules deny every
  peer as soon as one of those of the service is an ALLOW policy, and let every peer through otherwise.
\<close>

theorem workload_rules_never_match_agents:
  assumes "validName td" and "validName node" and "validFederation fedCfg"
    and "PeerSPIFFEID (rx_TLS r) = BuildSPIFFEID td node fedCfg" and "ValidatePeerSPIFFEID ipLiteral (BuildSPIFFEID td node fedCfg) p"
    and "rx_Method r = ''CONNECT''" and "list_all (\<lambda>q. list_all workloadRule (mp_Rules q)) ps"
  shows "snd (handleConnect ipLiteral r (Some p) (Some (UpdatePolicies ps a))) =
    (if list_ex (\<lambda>q. policyKey q = rx_DestService r \<and> EqualFold (mp_Action q) ''ALLOW'') ps then DeniedByPolicy
     else DialBackend (rx_Host r))"
proof -
  let ?rel = "filter (\<lambda>q. policyKey q = rx_DestService r) ps"
  have "\<not> matchRule rule (agentIdentity td node fedCfg) ''CONNECT'' (rx_Path r)" if "q \<in> set ?rel" "rule \<in> set (mp_Rules q)" for q rule
    using that assms(7) by (intro workloadRule_no_match agentIdentity_no_workload) (auto simp: list_all_iff)
  then have none: "list_ex (policyMatches act (agentIdentity td node fedCfg) ''CONNECT'' (rx_Path r)) ?rel = False" for act
    by (auto simp: list_ex_iff policyMatches_def)
  have allow: "list_ex (\<lambda>q. EqualFold (mp_Action q) ''ALLOW'') ?rel \<longleftrightarrow>
      list_ex (\<lambda>q. policyKey q = rx_DestService r \<and> EqualFold (mp_Action q) ''ALLOW'') ps"
    by (auto simp: list_ex_iff)
  have "\<not> list_ex (\<lambda>q. EqualFold (mp_Action q) ''ALLOW'') ?rel" if "?rel = []" unfolding that by simp
  then have verdict: "snd (Authorize (agentIdentity td node fedCfg) (rx_DestService r) ''CONNECT'' (rx_Path r) (UpdatePolicies ps a)) \<longleftrightarrow>
      \<not> list_ex (\<lambda>q. policyKey q = rx_DestService r \<and> EqualFold (mp_Action q) ''ALLOW'') ps"
    unfolding Authorize_verdict Let_def none allow by blast
  have "PeerSPIFFEID (rx_TLS r) = [] \<or> ValidatePeerSPIFFEID ipLiteral (PeerSPIFFEID (rx_TLS r)) p" using assms(4,5) by simp
  from handleConnect_authorize [OF assms(6) this, of "UpdatePolicies ps a"] show ?thesis
    unfolding assms(4) ParseSPIFFEID_agent [OF assms(1-3)] verdict by (simp split: if_split)
qed

definition readers_policy :: MeshAuthorizationPolicy where
  "readers_policy = \<lparr>mp_Name = ''readers'', mp_Action = ''ALLOW'', mp_TargetService = ''db'', mp_TargetNamespace = ''prod'',
     mp_Rules = [\<lparr>mu_From = [\<lparr>ms_Namespaces = [''prod''], ms_ServiceAccounts = [], ms_SpiffeIds = []\<rparr>], mu_To = []\<rparr>]\<rparr>"

theorem workload_rules_never_match_agents_witness:
  "snd (handleConnect (\<lambda>_. None) (db_request ''db.prod'') (Some (NewTLSProvider ''cluster.local'' None))
     (Some (UpdatePolicies [readers_policy] NewAuthorizer))) = DeniedByPolicy"
proof -
  have ok: "validName ''cluster.local''" "validName ''node-1''" "validFederation None"
    "list_all (\<lambda>q. list_all workloadRule (mp_Rules q)) [readers_policy]"
    by code_simp+
  have "list_ex (\<lambda>q. policyKey q = ''db.prod'' \<and> EqualFold (mp_Action q) ''ALLOW'') [readers_policy]" by code_simp
  then show ?thesis
    using workload_rules_never_match_agents [OF ok(1-3) db_request_simps(4) [of "''db.prod''"] db_peer_valid db_request_simps(1) ok(4), of NewAuthorizer]
    unfolding db_request_simps(2,3) by (simp only: if_True)
qed

subsection \<open>Certificates of the provider\<close>

text \<open>The certificate in use is the parse of the bytes that were loaded last.\<close>

definition tp_inv :: "(string \<Rightarrow> string \<Rightarrow> string option) \<Rightarrow> TLSProvider \<Rightarrow> bool" where
  "tp_inv keyPair p \<longleftrightarrow> (tp_cert p \<noteq> None \<longrightarrow> tp_cert p = keyPair (tp_lastCertPEM p) (tp_lastKeyPEM p)) \<and> (tp_cert p = None \<longleftrightarrow> tp_caCertPool p = None)"

lemma tp_inv_new: "tp_inv keyPair (NewTLSProvider td fedCfg)"
  by (simp add: tp_inv_def NewTLSProvider_def)

text \<open>Skipping the parse of unchanged bytes makes no difference.\<close>

lemma UpdateCertificate_uncached:
  assumes "tp_inv keyPair p"
  shows "(if tp_lastCertPEM p = certPEM \<and> tp_lastKeyPEM p = keyPEM \<and> tp_cert p \<noteq> None then tp_cert p else keyPair certPEM keyPEM) =
    keyPair certPEM keyPEM"
  using assms by (auto simp: tp_inv_def)

lemma UpdateCertificate_inv:
  assumes "tp_inv keyPair p"
  shows "tp_inv keyPair (fst (UpdateCertificate keyPair caCerts certPEM keyPEM caCertPEM spiffeID p))"
  using assms unfolding UpdateCertificate_def Let_def UpdateCertificate_uncached [OF assms]
  by (auto simp: tp_inv_def split: option.split)

text \<open>
  An update succeeds exactly when the key pair parses and the bundle holds certificates that all parse;
  then the provider has a certificate, and a failed update changes nothing.
\<close>

lemma UpdateCertificate_outcome:
  assumes "tp_inv keyPair p" and "UpdateCertificate keyPair caCerts certPEM keyPEM caCertPEM spiffeID p = (p', err)"
  shows "(err = None \<longleftrightarrow> keyPair certPEM keyPEM \<noteq> None \<and> caCerts caCertPEM \<noteq> [] \<and> None \<notin> set (caCerts caCertPEM)) \<and>
    (if err = None then HasCertificate p' \<and> tp_cert p' = keyPair certPEM keyPEM \<and> tp_spiffeID p' = spiffeID else p' = p)"
  using assms(2) unfolding UpdateCertificate_def Let_def UpdateCertificate_uncached [OF assms(1)]
  by (auto simp: HasCertificate_def split: option.splits if_splits)

end
