(* ===== verification/Spec2Isabelle.thy ===== *)
theory Spec2Isabelle
  imports Fed_Limits Mgr_Runs Config_Gossip Config_Streams Mesh_Authz
begin

text \<open>
  A verification development of NovaEdge's federation.
\<close>

end
